theory Spec2Isabelle
  imports Complex_Main
begin

section \<open>The Snap interaction of ol/interaction/Snap\<close>

text \<open>
  A shallow embedding of the class \<^verbatim>\<open>Snap\<close> (the second module of
  \<^verbatim>\<open>src/dist/control/ScaleLine.js\<close>). JavaScript numbers are modelled as ideal
  reals, a coordinate or pixel \<^verbatim>\<open>[x, y]\<close> as a pair, a feature as its stable identity
  (the number \<^verbatim>\<open>getUid\<close> hands out), and the feature's mutable geometry as a lookup
  \<open>getGeometry\<close> in the surrounding world. Instance fields \<^verbatim>\<open>this.x_\<close> are the record
  fields \<open>this_x\<close>; method names lose their trailing underscore.
\<close>

subsection \<open>Coordinates, extents, geometries\<close>

type_synonym coordinate = "real \<times> real"
type_synonym pixel = "real \<times> real"
type_synonym segment = "coordinate list"
type_synonym feature = nat
type_synonym circle = "coordinate \<times> real"

text \<open>An extent \<^verbatim>\<open>[minX, minY, maxX, maxY]\<close>; \<open>EmptyExtent\<close> is the value of
  \<^verbatim>\<open>createEmpty()\<close>, \<^verbatim>\<open>[Infinity, Infinity, -Infinity, -Infinity]\<close>.\<close>

datatype extent = EmptyExtent | Extent real real real real

datatype geometryType =
  POINT | LINE_STRING | LINEAR_RING | POLYGON | MULTI_POINT | MULTI_LINE_STRING
  | MULTI_POLYGON | GEOMETRY_COLLECTION | CIRCLE | OTHER_TYPE

text \<open>The geometry variants with their coordinates (\<^verbatim>\<open>getCoordinates()\<close>,
  \<^verbatim>\<open>getGeometriesArray()\<close>, centre and radius of a circle). \<open>Other\<close> stands for a
  geometry whose type has no entry in the segmenter table; it carries its extent.\<close>

datatype geometry =
  Point coordinate
  | LineString "coordinate list"
  | LinearRing "coordinate list"
  | Polygon "coordinate list list"
  | MultiPoint "coordinate list"
  | MultiLineString "coordinate list list"
  | MultiPolygon "coordinate list list list"
  | GeometryCollection "geometry list"
  | Circle coordinate real
  | Other extent

fun getType :: "geometry \<Rightarrow> geometryType" where
  "getType (Point c) = POINT"
| "getType (LineString cs) = LINE_STRING"
| "getType (LinearRing cs) = LINEAR_RING"
| "getType (Polygon rs) = POLYGON"
| "getType (MultiPoint cs) = MULTI_POINT"
| "getType (MultiLineString ls) = MULTI_LINE_STRING"
| "getType (MultiPolygon ps) = MULTI_POLYGON"
| "getType (GeometryCollection gs) = GEOMETRY_COLLECTION"
| "getType (Circle c r) = CIRCLE"
| "getType (Other e) = OTHER_TYPE"

datatype error = TypeError

subsection \<open>Collaborators outside the source file\<close>

text \<open>Modelled from the spec: \<^verbatim>\<open>squaredDistance\<close> of ol/coordinate.js, the squared
  distance of two coordinates (or two pixels).\<close>

definition squaredDistance :: "coordinate \<Rightarrow> coordinate \<Rightarrow> real" where
  "squaredDistance coord1 coord2 =
     (let dx = fst coord1 - fst coord2; dy = snd coord1 - snd coord2
      in dx * dx + dy * dy)"

text \<open>Modelled from the spec: \<^verbatim>\<open>Math.round\<close>, rounding half up.\<close>

definition Math_round :: "real \<Rightarrow> real" where
  "Math_round x = real_of_int \<lfloor>x + 1 / 2\<rfloor>"

text \<open>Modelled from the spec: the extent helpers of ol/extent.js. An extent is an
  axis-aligned bounding box; \<open>boundingExtent\<close> starts from the empty extent and extends it
  by each coordinate.\<close>

fun extendCoordinate :: "extent \<Rightarrow> coordinate \<Rightarrow> extent" where
  "extendCoordinate EmptyExtent (x, y) = Extent x y x y"
| "extendCoordinate (Extent minX minY maxX maxY) (x, y) =
     Extent (min minX x) (min minY y) (max maxX x) (max maxY y)"

definition boundingExtent :: "coordinate list \<Rightarrow> extent" where
  "boundingExtent coordinates = fold (\<lambda>c e. extendCoordinate e c) coordinates EmptyExtent"

fun extend_extent :: "extent \<Rightarrow> extent \<Rightarrow> extent" where
  "extend_extent e EmptyExtent = e"
| "extend_extent EmptyExtent e = e"
| "extend_extent (Extent a b c d) (Extent a' b' c' d') =
     Extent (min a a') (min b b') (max c c') (max d d')"

fun intersects :: "extent \<Rightarrow> extent \<Rightarrow> bool" where
  "intersects (Extent a b c d) (Extent a' b' c' d') =
     (a \<le> c' \<and> b \<le> d' \<and> a' \<le> c \<and> b' \<le> d)"
| "intersects _ _ = False"

text \<open>Modelled from the spec: \<^verbatim>\<open>geometry.getExtent(createEmpty())\<close>, the bounding box of
  everything the geometry covers: its coordinates, centre plus and minus radius for a
  circle, the union over the members of a collection.\<close>

fun getExtent :: "geometry \<Rightarrow> extent" where
  "getExtent (Point c) = boundingExtent [c]"
| "getExtent (LineString cs) = boundingExtent cs"
| "getExtent (LinearRing cs) = boundingExtent cs"
| "getExtent (Polygon rs) = boundingExtent (concat rs)"
| "getExtent (MultiPoint cs) = boundingExtent cs"
| "getExtent (MultiLineString ls) = boundingExtent (concat ls)"
| "getExtent (MultiPolygon ps) = boundingExtent (concat (concat ps))"
| "getExtent (GeometryCollection gs) = fold (\<lambda>g e. extend_extent e (getExtent g)) gs EmptyExtent"
| "getExtent (Circle c r) = Extent (fst c - r) (snd c - r) (fst c + r) (snd c + r)"
| "getExtent (Other e) = e"

text \<open>The optional user projection of ol/proj.js, relative to the view projection of a
  map: the two coordinate transforms and the transform of a circle geometry.\<close>

record userProjection =
  user_to_view :: "coordinate \<Rightarrow> coordinate"
  view_to_user :: "coordinate \<Rightarrow> coordinate"
  circle_to_view :: "circle \<Rightarrow> circle"

text \<open>The map handed to a query or attached to the interaction: the two pixel
  conversions, and what \<^verbatim>\<open>getUserProjection()\<close> returns for its view projection.\<close>

record pluggableMap =
  getCoordinateFromPixel :: "pixel \<Rightarrow> coordinate"
  getPixelFromCoordinate :: "coordinate \<Rightarrow> pixel"
  getUserProjection :: "userProjection option"

definition fromUserCoordinate :: "pluggableMap \<Rightarrow> coordinate \<Rightarrow> coordinate" where
  "fromUserCoordinate m c =
     (case getUserProjection m of None \<Rightarrow> c | Some up \<Rightarrow> user_to_view up c)"

definition toUserCoordinate :: "pluggableMap \<Rightarrow> coordinate \<Rightarrow> coordinate" where
  "toUserCoordinate m c =
     (case getUserProjection m of None \<Rightarrow> c | Some up \<Rightarrow> view_to_user up c)"

text \<open>The world around the interaction: the current geometry of every feature, and the
  geometry primitives the source imports (\<^verbatim>\<open>fromCircle\<close> gives the outer ring of the
  polygon that approximates a circle).\<close>

record world =
  getGeometry :: "feature \<Rightarrow> geometry option"
  fromCircle :: "circle \<Rightarrow> coordinate list"
  closestOnCircle :: "coordinate \<Rightarrow> circle \<Rightarrow> coordinate"
  closestOnSegment :: "coordinate \<Rightarrow> segment \<Rightarrow> coordinate"

subsection \<open>The segmenters\<close>

text \<open>\<^verbatim>\<open>coordinates.slice(i, i + 2)\<close>.\<close>

definition slice :: "'a list \<Rightarrow> nat \<Rightarrow> nat \<Rightarrow> 'a list" where
  "slice xs i j = take (j - i) (drop i xs)"

text \<open>The loop \<^verbatim>\<open>for (let i = 0, ii = coordinates.length - 1; i < ii; ++i)\<close> that all
  line segmenters share; \<open>ii\<close> is \<open>-1\<close> for an empty array, so it is computed in the
  integers.\<close>

definition pushSegments :: "segment list \<Rightarrow> coordinate list \<Rightarrow> segment list" where
  "pushSegments segments coordinates =
     (let ii = int (length coordinates) - 1
      in fold (\<lambda>i segs. segs @ [slice coordinates i (i + 2)]) [0..<nat ii] segments)"

definition segmentLineStringGemetry :: "segment list \<Rightarrow> coordinate list \<Rightarrow> segment list" where
  "segmentLineStringGemetry segments coordinates = pushSegments segments coordinates"

definition segmentPointGemetry :: "segment list \<Rightarrow> coordinate \<Rightarrow> segment list" where
  "segmentPointGemetry segments c = segments @ [[c]]"

definition segmentMultiPointGemetry :: "segment list \<Rightarrow> coordinate list \<Rightarrow> segment list" where
  "segmentMultiPointGemetry segments points =
     fold (\<lambda>point segs. segs @ [[point]]) points segments"

definition segmentPolygonGemetry :: "segment list \<Rightarrow> coordinate list list \<Rightarrow> segment list" where
  "segmentPolygonGemetry segments rings =
     fold (\<lambda>coordinates segs. pushSegments segs coordinates) rings segments"

definition segmentMultiLineStringGemetry ::
  "segment list \<Rightarrow> coordinate list list \<Rightarrow> segment list" where
  "segmentMultiLineStringGemetry segments lines =
     fold (\<lambda>coordinates segs. pushSegments segs coordinates) lines segments"

definition segmentMultiPolygonGemetry ::
  "segment list \<Rightarrow> coordinate list list list \<Rightarrow> segment list" where
  "segmentMultiPolygonGemetry segments polygons =
     fold (\<lambda>rings segs. fold (\<lambda>coordinates segs'. pushSegments segs' coordinates) rings segs)
       polygons segments"

text \<open>The local \<^verbatim>\<open>coordinates\<close> of \<^verbatim>\<open>segmentCircleGemetry_\<close>: the outer ring of the polygon
  made from the circle. With a user projection the circle is moved to the view
  projection, turned into a polygon and the polygon moved back.\<close>

definition circleCoordinates :: "world \<Rightarrow> pluggableMap \<Rightarrow> circle \<Rightarrow> coordinate list" where
  "circleCoordinates w m geometry =
     (case getUserProjection m of
        None \<Rightarrow> fromCircle w geometry
      | Some up \<Rightarrow> map (view_to_user up) (fromCircle w (circle_to_view up geometry)))"

text \<open>\<^verbatim>\<open>segmentCircleGemetry_\<close> reads the projection of \<^verbatim>\<open>this.getMap()\<close>, which is
  null until the interaction is attached: a TypeError.\<close>

definition segmentCircleGemetry ::
  "world \<Rightarrow> pluggableMap option \<Rightarrow> segment list \<Rightarrow> circle \<Rightarrow> error + segment list" where
  "segmentCircleGemetry w theMap segments geometry =
     (case theMap of
        None \<Rightarrow> Inl TypeError
      | Some m \<Rightarrow>
          (let coordinates = circleCoordinates w m geometry
           in Inr (pushSegments segments coordinates)))"

text \<open>The keys of the table \<^verbatim>\<open>GEOMETRY_SEGMENTERS_\<close>.\<close>

definition hasSegmenter :: "geometryType \<Rightarrow> bool" where
  "hasSegmenter t =
     (t \<in> {POINT, LINE_STRING, LINEAR_RING, POLYGON, MULTI_POINT, MULTI_LINE_STRING,
           MULTI_POLYGON, GEOMETRY_COLLECTION, CIRCLE})"

text \<open>\<open>GEOMETRY_SEGMENTERS\<close> applies the table entry of a geometry's type;
  \<open>segmentGeometryCollectionGemetry\<close> is the loop over the members of a collection, which
  looks each member up in the table again and skips a member without an entry.\<close>

fun GEOMETRY_SEGMENTERS ::
    "world \<Rightarrow> pluggableMap option \<Rightarrow> segment list \<Rightarrow> geometry \<Rightarrow> error + segment list"
  and segmentGeometryCollectionGemetry ::
    "world \<Rightarrow> pluggableMap option \<Rightarrow> segment list \<Rightarrow> geometry list \<Rightarrow> error + segment list"
where
  "GEOMETRY_SEGMENTERS w m segments (Point c) = Inr (segmentPointGemetry segments c)"
| "GEOMETRY_SEGMENTERS w m segments (LineString cs) = Inr (segmentLineStringGemetry segments cs)"
| "GEOMETRY_SEGMENTERS w m segments (LinearRing cs) = Inr (segmentLineStringGemetry segments cs)"
| "GEOMETRY_SEGMENTERS w m segments (Polygon rs) = Inr (segmentPolygonGemetry segments rs)"
| "GEOMETRY_SEGMENTERS w m segments (MultiPoint cs) = Inr (segmentMultiPointGemetry segments cs)"
| "GEOMETRY_SEGMENTERS w m segments (MultiLineString ls) =
     Inr (segmentMultiLineStringGemetry segments ls)"
| "GEOMETRY_SEGMENTERS w m segments (MultiPolygon ps) =
     Inr (segmentMultiPolygonGemetry segments ps)"
| "GEOMETRY_SEGMENTERS w m segments (GeometryCollection gs) =
     segmentGeometryCollectionGemetry w m segments gs"
| "GEOMETRY_SEGMENTERS w m segments (Circle c r) = segmentCircleGemetry w m segments (c, r)"
| "GEOMETRY_SEGMENTERS w m segments (Other e) = Inr segments"
| "segmentGeometryCollectionGemetry w m segments [] = Inr segments"
| "segmentGeometryCollectionGemetry w m segments (g # gs) =
     (if hasSegmenter (getType g)
      then (case GEOMETRY_SEGMENTERS w m segments g of
              Inl e \<Rightarrow> Inl e
            | Inr segments' \<Rightarrow> segmentGeometryCollectionGemetry w m segments' gs)
      else segmentGeometryCollectionGemetry w m segments gs)"

subsection \<open>The spatial index\<close>

text \<open>The payload of an index entry, \<^verbatim>\<open>{feature: feature, segment: segment}\<close>. It is an
  object, compared by identity: \<open>ol_uid\<close> is the identity \<^verbatim>\<open>getUid\<close> stamps on it when it
  enters the index (0 before that).\<close>

record segmentData =
  ol_uid :: nat
  feature :: feature
  segment :: segment

text \<open>Modelled from the spec: \<^verbatim>\<open>RBush\<close> of ol/structs/RBush.js, a bounding-box index over
  opaque payloads with insert, bulk load, an exhaustive range query by extent and removal
  by payload identity. The entries are kept as a list of extent and payload, in the order
  they were inserted.\<close>

record rbush =
  items :: "(extent \<times> segmentData) list"
  uidCounter :: nat

definition rbush_new :: rbush where
  "rbush_new = \<lparr>items = [], uidCounter = 0\<rparr>"

definition rbush_insert :: "extent \<Rightarrow> segmentData \<Rightarrow> rbush \<Rightarrow> rbush" where
  "rbush_insert e v rb =
     (let uid = uidCounter rb + 1
      in \<lparr>items = items rb @ [(e, v\<lparr>ol_uid := uid\<rparr>)], uidCounter = uid\<rparr>)"

definition rbush_load :: "extent list \<Rightarrow> segmentData list \<Rightarrow> rbush \<Rightarrow> rbush" where
  "rbush_load extents vs rb = fold (\<lambda>(e, v) rb'. rbush_insert e v rb') (zip extents vs) rb"

definition getInExtent :: "rbush \<Rightarrow> extent \<Rightarrow> segmentData list" where
  "getInExtent rb e = map snd (filter (\<lambda>(e', v). intersects e' e) (items rb))"

definition forEachInExtent :: "rbush \<Rightarrow> extent \<Rightarrow> (segmentData \<Rightarrow> 'a \<Rightarrow> 'a) \<Rightarrow> 'a \<Rightarrow> 'a" where
  "forEachInExtent rb e callback acc = fold callback (getInExtent rb e) acc"

definition rbush_remove :: "segmentData \<Rightarrow> rbush \<Rightarrow> rbush" where
  "rbush_remove v rb = rb\<lparr>items := filter (\<lambda>(e, v'). ol_uid v' \<noteq> ol_uid v) (items rb)\<rparr>"

subsection \<open>The state of a Snap instance\<close>

text \<open>Modelled from the spec: the subscription handles of ol/events.js. A key records
  what was listened to.\<close>

datatype eventTarget = CollectionTarget | SourceTarget | FeatureTarget feature

datatype eventType = ADD | REMOVE | ADDFEATURE | REMOVEFEATURE | CHANGE

datatype eventsKey = EventsKey eventTarget eventType

definition listen :: "eventTarget \<Rightarrow> eventType \<Rightarrow> eventsKey" where
  "listen target type = EventsKey target type"

definition getUid :: "feature \<Rightarrow> nat" where
  "getUid feat = feat"

text \<open>The fields of the instance. \<open>this_map\<close> and \<open>handlingDownUpSequence\<close> are inherited
  from the pointer interaction. \<open>this_features\<close> and \<open>this_source\<close> hold what the configured
  collection or source currently contains. \<open>this_pendingFeatures\<close> is an object keyed by
  uid; JavaScript enumerates integer-like keys in ascending order, so it is kept as an
  association list sorted by key.\<close>

record snap =
  this_map :: "pluggableMap option"
  handlingDownUpSequence :: bool
  this_source :: "feature list option"
  this_vertex :: bool
  this_edge :: bool
  this_features :: "feature list option"
  this_featuresListenerKeys :: "eventsKey list"
  this_featureChangeListenerKeys :: "nat \<rightharpoonup> eventsKey"
  this_indexedFeaturesExtents :: "nat \<rightharpoonup> extent"
  this_pendingFeatures :: "(nat \<times> feature) list"
  this_pixelTolerance :: real
  this_rBush :: rbush

record options =
  opt_features :: "feature list option"
  opt_edge :: "bool option"
  opt_vertex :: "bool option"
  opt_pixelTolerance :: "real option"
  opt_source :: "feature list option"

definition Snap :: "options \<Rightarrow> snap" where
  "Snap opts =
     \<lparr>this_map = None,
      handlingDownUpSequence = False,
      this_source = opt_source opts,
      this_vertex = (case opt_vertex opts of None \<Rightarrow> True | Some b \<Rightarrow> b),
      this_edge = (case opt_edge opts of None \<Rightarrow> True | Some b \<Rightarrow> b),
      this_features = opt_features opts,
      this_featuresListenerKeys = [],
      this_featureChangeListenerKeys = Map.empty,
      this_indexedFeaturesExtents = Map.empty,
      this_pendingFeatures = [],
      this_pixelTolerance = (case opt_pixelTolerance opts of None \<Rightarrow> 10 | Some t \<Rightarrow> t),
      this_rBush = rbush_new\<rparr>"

text \<open>A method that mutates the instance returns the new state; when it throws, the
  error comes with the state as it was when the exception left the method.\<close>

type_synonym outcome = "(error \<times> snap) + snap"

definition state_of :: "outcome \<Rightarrow> snap" where
  "state_of r = (case r of Inl (e, this) \<Rightarrow> this | Inr this \<Rightarrow> this)"

fun forEach :: "(snap \<Rightarrow> 'a \<Rightarrow> outcome) \<Rightarrow> 'a list \<Rightarrow> snap \<Rightarrow> outcome" where
  "forEach f [] this = Inr this"
| "forEach f (x # xs) this =
     (case f this x of Inl es \<Rightarrow> Inl es | Inr this' \<Rightarrow> forEach f xs this')"

subsection \<open>The feature registry\<close>

definition addFeature :: "world \<Rightarrow> snap \<Rightarrow> feature \<Rightarrow> bool option \<Rightarrow> outcome" where
  "addFeature w this feat opt_listen =
     (let register = (case opt_listen of None \<Rightarrow> True | Some b \<Rightarrow> b);
          feature_uid = getUid feat;
          indexed =
            (case getGeometry w feat of
               None \<Rightarrow> Inr this
             | Some geometry \<Rightarrow>
                 if hasSegmenter (getType geometry)
                 then
                   (let this1 = this\<lparr>this_indexedFeaturesExtents :=
                           (this_indexedFeaturesExtents this)(feature_uid \<mapsto> getExtent geometry)\<rparr>
                    in case GEOMETRY_SEGMENTERS w (this_map this1) [] geometry of
                         Inl e \<Rightarrow> Inl (e, this1)
                       | Inr segments \<Rightarrow>
                           if length segments = 1
                           then Inr (this1\<lparr>this_rBush :=
                                  rbush_insert (boundingExtent (segments ! 0))
                                    \<lparr>ol_uid = 0, feature = feat, segment = segments ! 0\<rparr>
                                    (this_rBush this1)\<rparr>)
                           else if length segments > 1
                           then Inr (this1\<lparr>this_rBush :=
                                  rbush_load (map boundingExtent segments)
                                    (map (\<lambda>s. \<lparr>ol_uid = 0, feature = feat, segment = s\<rparr>) segments)
                                    (this_rBush this1)\<rparr>)
                           else Inr this1)
                 else Inr this)
      in case indexed of
           Inl es \<Rightarrow> Inl es
         | Inr this2 \<Rightarrow>
             if register
             then Inr (this2\<lparr>this_featureChangeListenerKeys :=
                    (this_featureChangeListenerKeys this2)
                      (feature_uid \<mapsto> listen (FeatureTarget feat) CHANGE)\<rparr>)
             else Inr this2)"

definition removeFeature :: "snap \<Rightarrow> feature \<Rightarrow> bool option \<Rightarrow> snap" where
  "removeFeature this feat opt_unlisten =
     (let unregister = (case opt_unlisten of None \<Rightarrow> True | Some b \<Rightarrow> b);
          feature_uid = getUid feat;
          this1 =
            (case this_indexedFeaturesExtents this feature_uid of
               None \<Rightarrow> this
             | Some extent \<Rightarrow>
                 (let rBush = this_rBush this;
                      nodesToRemove =
                        forEachInExtent rBush extent
                          (\<lambda>node nodes. if feat = feature node then nodes @ [node] else nodes) []
                  in this\<lparr>this_rBush := fold rbush_remove (rev nodesToRemove) rBush\<rparr>))
      in if unregister
         then this1\<lparr>this_featureChangeListenerKeys :=
                (this_featureChangeListenerKeys this1)(feature_uid := None)\<rparr>
         else this1)"

definition updateFeature :: "world \<Rightarrow> snap \<Rightarrow> feature \<Rightarrow> outcome" where
  "updateFeature w this feat = addFeature w (removeFeature this feat (Some False)) feat (Some False)"

definition forEachFeatureAdd :: "world \<Rightarrow> snap \<Rightarrow> feature \<Rightarrow> outcome" where
  "forEachFeatureAdd w this feat = addFeature w this feat None"

definition forEachFeatureRemove :: "snap \<Rightarrow> feature \<Rightarrow> outcome" where
  "forEachFeatureRemove this feat = Inr (removeFeature this feat None)"

definition getFeatures :: "snap \<Rightarrow> feature list option" where
  "getFeatures this =
     (case this_features this of
        Some fs \<Rightarrow> Some fs
      | None \<Rightarrow> (case this_source this of Some fs \<Rightarrow> Some fs | None \<Rightarrow> None))"

subsection \<open>The deferred update queue\<close>

definition getValues :: "(nat \<times> 'a) list \<Rightarrow> 'a list" where
  "getValues object = map snd object"

definition handleFeatureChange :: "world \<Rightarrow> snap \<Rightarrow> feature \<Rightarrow> outcome" where
  "handleFeatureChange w this feat =
     (if handlingDownUpSequence this
      then (let uid = getUid feat
            in if uid \<notin> fst ` set (this_pendingFeatures this)
               then Inr (this\<lparr>this_pendingFeatures :=
                      insort_key fst (uid, feat) (this_pendingFeatures this)\<rparr>)
               else Inr this)
      else updateFeature w this feat)"

definition handleUpEvent :: "world \<Rightarrow> snap \<Rightarrow> outcome" where
  "handleUpEvent w this =
     (let featuresToUpdate = getValues (this_pendingFeatures this)
      in if length featuresToUpdate \<noteq> 0
         then (case forEach (updateFeature w) featuresToUpdate this of
                 Inl es \<Rightarrow> Inl es
               | Inr this' \<Rightarrow> Inr (this'\<lparr>this_pendingFeatures := []\<rparr>))
         else Inr this)"

subsection \<open>Attaching to a map\<close>

text \<open>\<^verbatim>\<open>getFeatures_()\<close> is undefined when neither a collection nor a source is
  configured, and \<^verbatim>\<open>features.forEach\<close> on it is a TypeError.\<close>

definition setMap :: "world \<Rightarrow> snap \<Rightarrow> pluggableMap option \<Rightarrow> outcome" where
  "setMap w this newMap =
     (let currentMap = this_map this;
          features = getFeatures this;
          detached =
            (case currentMap of
               None \<Rightarrow> Inr this
             | Some cm \<Rightarrow>
                 (let this1 = this\<lparr>this_featuresListenerKeys := []\<rparr>
                  in case features of
                       None \<Rightarrow> Inl (TypeError, this1)
                     | Some fs \<Rightarrow> forEach forEachFeatureRemove fs this1))
      in case detached of
           Inl es \<Rightarrow> Inl es
         | Inr this2 \<Rightarrow>
             (let this3 = this2\<lparr>this_map := newMap\<rparr>
              in case newMap of
                   None \<Rightarrow> Inr this3
                 | Some m \<Rightarrow>
                     (let keys = this_featuresListenerKeys this3;
                          this4 = this3\<lparr>this_featuresListenerKeys :=
                            (if this_features this3 \<noteq> None
                             then keys @ [listen CollectionTarget ADD, listen CollectionTarget REMOVE]
                             else if this_source this3 \<noteq> None
                             then keys @ [listen SourceTarget ADDFEATURE,
                                          listen SourceTarget REMOVEFEATURE]
                             else keys)\<rparr>
                      in case features of
                           None \<Rightarrow> Inl (TypeError, this4)
                         | Some fs \<Rightarrow> forEach (forEachFeatureAdd w) fs this4)))"

subsection \<open>The snap query\<close>

record result =
  vertex :: coordinate
  vertexPixel :: pixel

text \<open>The two locals of \<^verbatim>\<open>snapTo\<close> that both passes share: \<^verbatim>\<open>closestVertex\<close>
  (\<open>None\<close> while undefined) and \<^verbatim>\<open>minSquaredDistance\<close> (\<open>None\<close> while Infinity).\<close>

type_synonym closest = "coordinate option \<times> real option"

definition lessThanMin :: "real \<Rightarrow> real option \<Rightarrow> bool" where
  "lessThanMin delta minSquaredDistance =
     (case minSquaredDistance of None \<Rightarrow> True | Some d \<Rightarrow> delta < d)"

text \<open>\<^verbatim>\<open>if (delta < minSquaredDistance) { closestVertex = v; minSquaredDistance = delta; }\<close>\<close>

definition keepCloser :: "real \<Rightarrow> coordinate \<Rightarrow> closest \<Rightarrow> closest" where
  "keepCloser delta v st = (if lessThanMin delta (snd st) then (Some v, Some delta) else st)"

definition getResult :: "pluggableMap \<Rightarrow> pixel \<Rightarrow> real \<Rightarrow> coordinate option \<Rightarrow> result option" where
  "getResult m pixel squaredPixelTolerance closestVertex =
     (case closestVertex of
        None \<Rightarrow> None
      | Some cv \<Rightarrow>
          (let vertexPixel = getPixelFromCoordinate m cv;
               squaredPixelDistance = squaredDistance pixel vertexPixel
           in if squaredPixelDistance \<le> squaredPixelTolerance
              then Some \<lparr>vertex = cv,
                         vertexPixel = (Math_round (fst vertexPixel), Math_round (snd vertexPixel))\<rparr>
              else None))"

text \<open>The loop of the vertex pass. \<^verbatim>\<open>segmentData.feature.getGeometry().getType()\<close> reads
  the feature's current geometry and is a TypeError when the feature has none.\<close>

fun vertexPass ::
  "world \<Rightarrow> pluggableMap \<Rightarrow> coordinate \<Rightarrow> segmentData list \<Rightarrow> closest \<Rightarrow> error + closest" where
  "vertexPass w m projectedCoordinate [] st = Inr st"
| "vertexPass w m projectedCoordinate (segmentData # rest) st =
     (case getGeometry w (feature segmentData) of
        None \<Rightarrow> Inl TypeError
      | Some geometry \<Rightarrow>
          vertexPass w m projectedCoordinate rest
            (if getType geometry \<noteq> CIRCLE
             then fold (\<lambda>v st'.
                      keepCloser (squaredDistance projectedCoordinate (fromUserCoordinate m v)) v st')
                    (segment segmentData) st
             else st))"

text \<open>The candidate \<^verbatim>\<open>vertex\<close> the edge pass computes for one entry (\<open>None\<close> while it is
  null). The test of the geometry type against Circle is the match on the constructor;
  \<^verbatim>\<open>const [segmentStart, segmentEnd] = segmentData.segment\<close> leaves \<^verbatim>\<open>segmentEnd\<close>
  undefined for a segment of one coordinate.\<close>

definition edgeVertex ::
  "world \<Rightarrow> pluggableMap \<Rightarrow> coordinate \<Rightarrow> geometry \<Rightarrow> segment \<Rightarrow> coordinate option" where
  "edgeVertex w m projectedCoordinate geometry seg =
     (case geometry of
        Circle c r \<Rightarrow>
          (let circleGeometry =
                 (case getUserProjection m of
                    None \<Rightarrow> (c, r)
                  | Some up \<Rightarrow> circle_to_view up (c, r))
           in Some (toUserCoordinate m (closestOnCircle w projectedCoordinate circleGeometry)))
      | _ \<Rightarrow>
          (case seg of
             segmentStart # segmentEnd # rest \<Rightarrow>
               Some (closestOnSegment w projectedCoordinate
                       [fromUserCoordinate m segmentStart, fromUserCoordinate m segmentEnd])
           | _ \<Rightarrow> None))"

fun edgePass ::
  "world \<Rightarrow> pluggableMap \<Rightarrow> coordinate \<Rightarrow> segmentData list \<Rightarrow> closest \<Rightarrow> error + closest" where
  "edgePass w m projectedCoordinate [] st = Inr st"
| "edgePass w m projectedCoordinate (segmentData # rest) st =
     (case getGeometry w (feature segmentData) of
        None \<Rightarrow> Inl TypeError
      | Some geometry \<Rightarrow>
          edgePass w m projectedCoordinate rest
            (case edgeVertex w m projectedCoordinate geometry (segment segmentData) of
               None \<Rightarrow> st
             | Some v \<Rightarrow> keepCloser (squaredDistance projectedCoordinate v) v st))"

definition snapTo ::
  "world \<Rightarrow> snap \<Rightarrow> pixel \<Rightarrow> coordinate \<Rightarrow> pluggableMap \<Rightarrow> error + result option" where
  "snapTo w this pixel pixelCoordinate m =
     (let lowerLeft = getCoordinateFromPixel m
            (fst pixel - this_pixelTolerance this, snd pixel + this_pixelTolerance this);
          upperRight = getCoordinateFromPixel m
            (fst pixel + this_pixelTolerance this, snd pixel - this_pixelTolerance this);
          box = boundingExtent [lowerLeft, upperRight];
          segments = getInExtent (this_rBush this) box
      in if length segments = 0 then Inr None
         else
           (let projectedCoordinate = fromUserCoordinate m pixelCoordinate;
                squaredPixelTolerance = this_pixelTolerance this * this_pixelTolerance this;
                afterVertexPass =
                  (if this_vertex this
                   then vertexPass w m projectedCoordinate segments (None, None)
                   else Inr (None, None))
            in case afterVertexPass of
                 Inl e \<Rightarrow> Inl e
               | Inr st \<Rightarrow>
                   (case (if this_vertex this
                          then getResult m pixel squaredPixelTolerance (fst st)
                          else None) of
                      Some r \<Rightarrow> Inr (Some r)
                    | None \<Rightarrow>
                        if this_edge this
                        then (case edgePass w m projectedCoordinate segments st of
                                Inl e \<Rightarrow> Inl e
                              | Inr st' \<Rightarrow> Inr (getResult m pixel squaredPixelTolerance (fst st')))
                        else Inr None)))"

subsection \<open>Pointer events\<close>

datatype mapBrowserEventType = POINTERDOWN | POINTERUP | POINTERMOVE | POINTERDRAG

record mapBrowserEvent =
  evt_type :: mapBrowserEventType
  evt_pixel :: pixel
  evt_coordinate :: coordinate
  evt_map :: pluggableMap

text \<open>The first statements of \<^verbatim>\<open>handleEvent\<close>: the snap query on the event, which
  overwrites coordinate and pixel of the event with the result. The value is the event as
  the pointer pipeline and the following interactions see it.\<close>

definition snapEvent :: "world \<Rightarrow> snap \<Rightarrow> mapBrowserEvent \<Rightarrow> error + mapBrowserEvent" where
  "snapEvent w this evt =
     (case snapTo w this (evt_pixel evt) (evt_coordinate evt) (evt_map evt) of
        Inl e \<Rightarrow> Inl e
      | Inr res \<Rightarrow>
          (case res of
             None \<Rightarrow> Inr evt
           | Some r \<Rightarrow> Inr (evt\<lparr>evt_coordinate := vertex r, evt_pixel := vertexPixel r\<rparr>)))"

text \<open>Modelled from the spec: \<^verbatim>\<open>super.handleEvent\<close>, the pointer interaction the class
  extends, which is not in the source file. A gesture is the span between a pointer-down
  and its pointer-up: outside a gesture a pointer-down starts one (the down handler is
  the constant true); inside a gesture a pointer-up calls \<^verbatim>\<open>handleUpEvent\<close> and ends it,
  since that handler returns false; the handlers of the other pointer events do nothing.\<close>

definition pointerHandleEvent :: "world \<Rightarrow> snap \<Rightarrow> mapBrowserEvent \<Rightarrow> outcome" where
  "pointerHandleEvent w this evt =
     (if handlingDownUpSequence this
      then (if evt_type evt = POINTERUP
            then (case handleUpEvent w this of
                    Inl es \<Rightarrow> Inl es
                  | Inr this' \<Rightarrow> Inr (this'\<lparr>handlingDownUpSequence := False\<rparr>))
            else Inr this)
      else (if evt_type evt = POINTERDOWN
            then Inr (this\<lparr>handlingDownUpSequence := True\<rparr>)
            else Inr this))"

text \<open>\<^verbatim>\<open>handleEvent\<close>: every pointer event of the map enters here. The snap query runs
  first, and an exception it raises leaves the method before the pointer pipeline is
  reached.\<close>

definition handleEvent :: "world \<Rightarrow> snap \<Rightarrow> mapBrowserEvent \<Rightarrow> outcome" where
  "handleEvent w this evt =
     (case snapEvent w this evt of
        Inl e \<Rightarrow> Inl (e, this)
      | Inr evt' \<Rightarrow> pointerHandleEvent w this evt')"

subsection \<open>The events that reach the interaction\<close>

text \<open>A pointer event of the map, the notifications of a feature and of the backing
  collection or source, and the host attaching the interaction to a map or detaching
  it.\<close>

datatype event =
  Pointer mapBrowserEvent | FeatureChange feature | FeatureAdd feature | FeatureRemove feature
  | Attach "pluggableMap option"

definition dispatch :: "world \<Rightarrow> snap \<Rightarrow> event \<Rightarrow> outcome" where
  "dispatch w this ev =
     (case ev of
        Pointer evt \<Rightarrow> handleEvent w this evt
      | FeatureChange feat \<Rightarrow> handleFeatureChange w this feat
      | FeatureAdd feat \<Rightarrow> addFeature w this feat None
      | FeatureRemove feat \<Rightarrow> Inr (removeFeature this feat None)
      | Attach newMap \<Rightarrow> setMap w this newMap)"

text \<open>A history: each event with the world as it is when the event arrives. An exception
  leaves the instance in the state it had when thrown, and the next event finds it so.\<close>

definition run :: "(world \<times> event) list \<Rightarrow> snap \<Rightarrow> snap" where
  "run history this = fold (\<lambda>(w, ev) this'. state_of (dispatch w this' ev)) history this"

subsection \<open>What the claims talk about\<close>

text \<open>The local \<^verbatim>\<open>segments\<close> of \<^verbatim>\<open>snapTo\<close>: the entries the index returns for the box
  around the pointer pixel.\<close>

definition snapSegments :: "snap \<Rightarrow> pixel \<Rightarrow> pluggableMap \<Rightarrow> segmentData list" where
  "snapSegments this pixel m =
     getInExtent (this_rBush this)
       (boundingExtent
          [getCoordinateFromPixel m
             (fst pixel - this_pixelTolerance this, snd pixel + this_pixelTolerance this),
           getCoordinateFromPixel m
             (fst pixel + this_pixelTolerance this, snd pixel - this_pixelTolerance this)])"

text \<open>The vertices the vertex pass looks at, in the order it visits them: every coordinate
  of every returned entry whose feature is not a circle.\<close>

definition vertexCandidates :: "world \<Rightarrow> segmentData list \<Rightarrow> coordinate list" where
  "vertexCandidates w segments =
     concat (map (\<lambda>sd. case getGeometry w (feature sd) of
                          None \<Rightarrow> []
                        | Some g \<Rightarrow> if getType g \<noteq> CIRCLE then segment sd else []) segments)"

text \<open>What the edge pass is to compute for one entry, in the words of the spec: for a
  circle feature the closest point on the circle itself (brought to the view projection
  when a user projection is set, the point brought back), for any other feature the
  closest point on the segment between its first two coordinates, and nothing for a
  segment of one coordinate.\<close>

fun edgeCandidate ::
  "world \<Rightarrow> pluggableMap \<Rightarrow> coordinate \<Rightarrow> geometry \<Rightarrow> segment \<Rightarrow> coordinate list" where
  "edgeCandidate w m projectedCoordinate (Circle c r) seg =
     [toUserCoordinate m
        (closestOnCircle w projectedCoordinate
           (case getUserProjection m of None \<Rightarrow> (c, r) | Some up \<Rightarrow> circle_to_view up (c, r)))]"
| "edgeCandidate w m projectedCoordinate g (segmentStart # segmentEnd # rest) =
     [closestOnSegment w projectedCoordinate
        [fromUserCoordinate m segmentStart, fromUserCoordinate m segmentEnd]]"
| "edgeCandidate w m projectedCoordinate g seg = []"

text \<open>The points the edge pass looks at, in the order it visits them: the candidate of
  every returned entry.\<close>

definition edgeCandidates ::
  "world \<Rightarrow> pluggableMap \<Rightarrow> coordinate \<Rightarrow> segmentData list \<Rightarrow> coordinate list" where
  "edgeCandidates w m projectedCoordinate segments =
     concat (map (\<lambda>sd. case getGeometry w (feature sd) of
                          None \<Rightarrow> []
                        | Some g \<Rightarrow> edgeCandidate w m projectedCoordinate g (segment sd)) segments)"

text \<open>The first candidate of minimum distance: none is closer, and every earlier one is
  strictly farther.\<close>

definition isClosest :: "(coordinate \<Rightarrow> real) \<Rightarrow> coordinate list \<Rightarrow> coordinate \<Rightarrow> bool" where
  "isClosest d vs v =
     (\<exists>i < length vs. vs ! i = v \<and> (\<forall>j < length vs. d v \<le> d (vs ! j)) \<and> (\<forall>j < i. d v < d (vs ! j)))"

text \<open>Modelled from the spec: \<^verbatim>\<open>closestOnSegment\<close> of ol/coordinate.js, the closest point on
  a segment, which is the shared endpoint for a segment of length zero. It instantiates
  the collaborator in the example scenes.\<close>

definition closestOnSegment_std :: "coordinate \<Rightarrow> segment \<Rightarrow> coordinate" where
  "closestOnSegment_std c seg =
     (let x0 = fst c; y0 = snd c;
          x1 = fst (seg ! 0); y1 = snd (seg ! 0);
          x2 = fst (seg ! 1); y2 = snd (seg ! 1);
          dx = x2 - x1; dy = y2 - y1;
          along = (if dx = 0 \<and> dy = 0 then 0
                   else (dx * (x0 - x1) + dy * (y0 - y1)) / (dx * dx + dy * dy))
      in if along \<le> 0 then (x1, y1)
         else if along \<ge> 1 then (x2, y2)
         else (x1 + along * dx, y1 + along * dy))"

text \<open>Modelled from the spec: \<^verbatim>\<open>closestOnCircle\<close> of ol/coordinate.js, the closest point on
  the boundary of a circle.\<close>

definition closestOnCircle_std :: "coordinate \<Rightarrow> circle \<Rightarrow> coordinate" where
  "closestOnCircle_std c circ =
     (let r = snd circ; x0 = fst (fst circ); y0 = snd (fst circ);
          dy = snd c - y0;
          dx = (if fst c - x0 = 0 \<and> dy = 0 then 1 else fst c - x0);
          d = sqrt (dx * dx + dy * dy)
      in (x0 + (r * dx) / d, y0 + (r * dy) / d))"

text \<open>Modelled from the spec: \<^verbatim>\<open>fromCircle\<close> of ol/geom/Polygon.js, the conversion of a
  circle to a closed polygon: the ring of a regular polygon inscribed in the circle, its
  first vertex repeated at the end. The spec does not fix the number of sides; 32 is the
  default of the library.\<close>

definition fromCircle_std :: "circle \<Rightarrow> coordinate list" where
  "fromCircle_std circ =
     (let center = fst circ; radius = snd circ; sides = 32
      in map (\<lambda>i. let angle = real (i mod sides) * 2 * pi / real sides
                  in (fst center + radius * cos angle, snd center + radius * sin angle))
           [0..<sides + 1])"

text \<open>A map in which one unit is one pixel, without user projection.\<close>

definition unitMap :: pluggableMap where
  "unitMap = \<lparr>getCoordinateFromPixel = (\<lambda>p. p), getPixelFromCoordinate = (\<lambda>c. c),
              getUserProjection = None\<rparr>"

text \<open>\<^verbatim>\<open>new Snap()\<close>: no option given, so neither a collection nor a source.\<close>

definition defaultOptions :: options where
  "defaultOptions = \<lparr>opt_features = None, opt_edge = None, opt_vertex = None,
                     opt_pixelTolerance = None, opt_source = None\<rparr>"

text \<open>A world with the given geometries and the standard geometry primitives.\<close>

definition sceneWorld :: "(feature \<Rightarrow> geometry option) \<Rightarrow> world" where
  "sceneWorld geoms = \<lparr>getGeometry = geoms, fromCircle = fromCircle_std,
                       closestOnCircle = closestOnCircle_std,
                       closestOnSegment = closestOnSegment_std\<rparr>"

text \<open>The scene of the spec: one segment from (0,0) to (10,0), added to a fresh instance.\<close>

definition lineWorld :: world where
  "lineWorld = sceneWorld (\<lambda>f. if f = 1 then Some (LineString [(0, 0), (10, 0)]) else None)"

definition lineScene :: snap where
  "lineScene = state_of (addFeature lineWorld (Snap defaultOptions) 1 None)"

text \<open>A first interaction, in front of the one under test: it snaps to a point at
  (0.4,0).\<close>

definition nearWorld :: world where
  "nearWorld = sceneWorld (\<lambda>f. if f = 1 then Some (Point (0.4, 0)) else None)"

definition nearScene :: snap where
  "nearScene = state_of (addFeature nearWorld (Snap defaultOptions) 1 None)"

text \<open>A point near the corner of the search box and a long vertical segment on the other
  side of the pointer.\<close>

definition cornerWorld :: world where
  "cornerWorld = sceneWorld (\<lambda>f. if f = 1 then Some (Point (9.9, 1.5))
      else if f = 2 then Some (LineString [(-9.8, -50), (-9.8, 50)]) else None)"

definition cornerScene :: snap where
  "cornerScene = state_of (addFeature cornerWorld
      (state_of (addFeature cornerWorld (Snap defaultOptions) 1 None)) 2 None)"

text \<open>\<^verbatim>\<open>new Snap({vertex: false})\<close>: vertex snapping disabled.\<close>

definition edgeOnlyOptions :: options where
  "edgeOnlyOptions = defaultOptions\<lparr>opt_vertex := Some False\<rparr>"

definition lineSceneEdgeOnly :: snap where
  "lineSceneEdgeOnly = state_of (addFeature lineWorld (Snap edgeOnlyOptions) 1 None)"

text \<open>A single point feature, indexed by an instance without vertex snapping.\<close>

definition pointWorld :: world where
  "pointWorld = sceneWorld (\<lambda>f. if f = 1 then Some (Point (3, 4)) else None)"

definition pointSceneEdgeOnly :: snap where
  "pointSceneEdgeOnly = state_of (addFeature pointWorld (Snap edgeOnlyOptions) 1 None)"

text \<open>A world in which no feature has a geometry.\<close>

definition nullWorld :: world where
  "nullWorld = sceneWorld (\<lambda>f. None)"

text \<open>An instance configured with an empty feature collection, attached to the unit map.\<close>

definition collectionOptions :: options where
  "collectionOptions = defaultOptions\<lparr>opt_features := Some []\<rparr>"

definition attachedSnap :: snap where
  "attachedSnap = state_of (setMap nullWorld (Snap collectionOptions) (Some unitMap))"

text \<open>The multi-part scene of the spec: a MultiLineString with two disjoint parts.\<close>

definition multiLineWorld :: world where
  "multiLineWorld = sceneWorld (\<lambda>f. if f = 1
      then Some (MultiLineString [[(0, 0), (10, 0)], [(20, 20), (30, 20), (30, 30)]]) else None)"

text \<open>A feature whose geometry type has no entry in the segmenter table.\<close>

definition otherWorld :: world where
  "otherWorld = sceneWorld (\<lambda>f. if f = 1 then Some (Other (Extent 0 0 1 1)) else None)"

text \<open>The multi-part feature added to the attached instance.\<close>

definition multiLineScene :: snap where
  "multiLineScene = state_of (addFeature multiLineWorld attachedSnap 1 None)"

text \<open>Two states with the same pending set and the same gesture flag.\<close>

definition sameGesture :: "snap \<Rightarrow> snap \<Rightarrow> bool" where
  "sameGesture this this' =
     (this_pendingFeatures this' = this_pendingFeatures this
      \<and> handlingDownUpSequence this' = handlingDownUpSequence this)"

text \<open>The invariant of the pending set: it is empty whenever no gesture is active, its keys
  are distinct, and every key is the uid of the feature stored under it.\<close>

definition pending_ok :: "snap \<Rightarrow> bool" where
  "pending_ok this =
     ((\<not> handlingDownUpSequence this \<longrightarrow> this_pendingFeatures this = [])
      \<and> distinct (map fst (this_pendingFeatures this))
      \<and> (\<forall>(uid, feat) \<in> set (this_pendingFeatures this). uid = getUid feat))"

text \<open>A pointer-down far from the segment, on the unit map.\<close>

definition downEvent :: mapBrowserEvent where
  "downEvent = \<lparr>evt_type = POINTERDOWN, evt_pixel = (50, 50), evt_coordinate = (50, 50),
                 evt_map = unitMap\<rparr>"

text \<open>A history: attach to the unit map, the segment feature is added, pointer-down, then
  a change of the feature.\<close>

definition gestureHistory :: "(world \<times> event) list" where
  "gestureHistory =
     [(lineWorld, Attach (Some unitMap)), (lineWorld, FeatureAdd 1),
      (lineWorld, Pointer downEvent), (lineWorld, FeatureChange 1)]"

text \<open>The state the history leads to from a fresh instance over an empty collection.\<close>

definition gestureScene :: snap where
  "gestureScene = run gestureHistory (Snap collectionOptions)"

text \<open>The segment feature on the attached instance, before the gesture.\<close>

definition lineSceneAttached :: snap where
  "lineSceneAttached = state_of (addFeature lineWorld attachedSnap 1 None)"

text \<open>A pointer-up on the segment, on the unit map.\<close>

definition upEventOnSegment :: mapBrowserEvent where
  "upEventOnSegment = \<lparr>evt_type = POINTERUP, evt_pixel = (5, 0), evt_coordinate = (5, 0),
                        evt_map = unitMap\<rparr>"

text \<open>A circle-to-polygon conversion with rational vertices: the closed ring of twelve
  points on the circle at the directions (1,0), (0.8,0.6), (0.6,0.8), (0,1) and their
  mirror images.\<close>

definition fromCircle_twelve :: "circle \<Rightarrow> coordinate list" where
  "fromCircle_twelve circ =
     map (\<lambda>(a, b). (fst (fst circ) + snd circ * a, snd (fst circ) + snd circ * b))
       [(1, 0), (0.8, 0.6), (0.6, 0.8), (0, 1), (-0.6, 0.8), (-0.8, 0.6), (-1, 0),
        (-0.8, -0.6), (-0.6, -0.8), (0, -1), (0.6, -0.8), (0.8, -0.6), (1, 0)]"

text \<open>The circle scene of the spec: a circle of radius 10 around (0,0), and a vertical
  segment just outside it, on an attached instance with a tolerance of one pixel.\<close>

definition circleWorld :: world where
  "circleWorld =
     \<lparr>getGeometry = (\<lambda>f. if f = 1 then Some (Circle (0, 0) 10)
                          else if f = 2 then Some (LineString [(10.5, -5), (10.5, 5)])
                          else None),
      fromCircle = fromCircle_twelve,
      closestOnCircle = closestOnCircle_std,
      closestOnSegment = closestOnSegment_std\<rparr>"

definition circleOptions :: options where
  "circleOptions = defaultOptions\<lparr>opt_features := Some [], opt_pixelTolerance := Some 1\<rparr>"

definition circleScene :: snap where
  "circleScene =
     state_of (addFeature circleWorld
       (state_of (addFeature circleWorld
          (state_of (setMap circleWorld (Snap circleOptions) (Some unitMap))) 1 None)) 2 None)"

text \<open>An instance with a negative tolerance and a point half a pixel from the pointer.\<close>

definition negativeOptions :: options where
  "negativeOptions = defaultOptions\<lparr>opt_pixelTolerance := Some (- (1 / 2))\<rparr>"

definition halfWorld :: world where
  "halfWorld = sceneWorld (\<lambda>f. if f = 1 then Some (Point (1 / 2, 0)) else None)"

definition halfScene :: snap where
  "halfScene = state_of (addFeature halfWorld (Snap negativeOptions) 1 None)"

text \<open>Modelled from the spec: \<^verbatim>\<open>containsCoordinate\<close> of ol/extent.js, whether a coordinate
  lies in an extent.\<close>

fun containsCoordinate :: "extent \<Rightarrow> coordinate \<Rightarrow> bool" where
  "containsCoordinate (Extent a b c d) (x, y) = (a \<le> x \<and> x \<le> c \<and> b \<le> y \<and> y \<le> d)"
| "containsCoordinate EmptyExtent p = False"

text \<open>The circles of a geometry, those inside collections included.\<close>

fun circlesOf :: "geometry \<Rightarrow> circle list" where
  "circlesOf (Circle c r) = [(c, r)]"
| "circlesOf (GeometryCollection gs) = concat (map circlesOf gs)"
| "circlesOf g = []"

text \<open>The contract of the circle-to-polygon conversion that the removal by ledgered extent
  relies on: once a map is attached, the ring computed for each circle of the geometry
  stays within the extent of the circle.\<close>

definition circlesWithinExtent :: "world \<Rightarrow> pluggableMap option \<Rightarrow> geometry \<Rightarrow> bool" where
  "circlesWithinExtent w theMap g =
     (\<forall>m. theMap = Some m \<longrightarrow>
        (\<forall>(c, r) \<in> set (circlesOf g).
           \<forall>p \<in> set (circleCoordinates w m (c, r)). containsCoordinate (getExtent (Circle c r)) p))"

text \<open>Segments that are not empty and lie within an extent.\<close>

definition segmentsWithin :: "extent \<Rightarrow> segment list \<Rightarrow> bool" where
  "segmentsWithin e segs = (\<forall>s \<in> set segs. s \<noteq> [] \<and> (\<forall>p \<in> set s. containsCoordinate e p))"

text \<open>Segments that are not empty and whose coordinates lie within the extent of some
  geometry of a list.\<close>

definition segmentsWithinSome :: "geometry list \<Rightarrow> segment list \<Rightarrow> bool" where
  "segmentsWithinSome gs segs =
     (\<forall>s \<in> set segs. s \<noteq> [] \<and> (\<forall>p \<in> set s. \<exists>g \<in> set gs. containsCoordinate (getExtent g) p))"

section \<open>Segmentation\<close>

lemma pushSegments_eq:
  "pushSegments segments cs =
     segments @ map (\<lambda>i. [cs ! i, cs ! Suc i]) [0..<length cs - 1]"
proof -
  have step: "fold (\<lambda>i segs. segs @ [f i]) is segs = segs @ map f is"
    for f :: "nat \<Rightarrow> segment" and "is" segs
    by (induction "is" arbitrary: segs) simp_all
  have n: "nat (int (length cs) - 1) = length cs - 1"
    by simp
  have sl: "slice cs i (i + 2) = [cs ! i, cs ! Suc i]" if "i < length cs - 1" for i
  proof -
    from that have "Suc i < length cs" by simp
    then have "drop i cs = cs ! i # cs ! Suc i # drop (Suc (Suc i)) cs"
      by (metis Cons_nth_drop_Suc Suc_lessD)
    then show ?thesis by (simp add: slice_def)
  qed
  have "map (\<lambda>i. slice cs i (i + 2)) [0..<length cs - 1] =
        map (\<lambda>i. [cs ! i, cs ! Suc i]) [0..<length cs - 1]"
    using sl by (intro map_cong refl) auto
  then show ?thesis
    unfolding pushSegments_def Let_def n step by simp
qed

text \<open>
  C6. For a LineString or LinearRing with N coordinates the segmenter appends exactly
  N - 1 segments when N is at least 2, the i-th being the pair of coordinates i and i + 1,
  and no segment when N is below 2; it is a total function, so it never throws.
\<close>

theorem segmentLineString_count:
  "length (segmentLineStringGemetry [] cs) = (if 2 \<le> length cs then length cs - 1 else 0)
   \<and> (\<forall>i < length cs - 1. segmentLineStringGemetry [] cs ! i = [cs ! i, cs ! Suc i])
   \<and> segmentLineStringGemetry segments cs = segments @ segmentLineStringGemetry [] cs
   \<and> GEOMETRY_SEGMENTERS w m segments (LineString cs) = Inr (segmentLineStringGemetry segments cs)
   \<and> GEOMETRY_SEGMENTERS w m segments (LinearRing cs) = Inr (segmentLineStringGemetry segments cs)"
  by (simp add: segmentLineStringGemetry_def pushSegments_eq)

theorem segmentLineString_count_witness:
  "segmentLineStringGemetry [] [(0, 0), (10, 0), (10, 5)] = [[(0, 0), (10, 0)], [(10, 0), (10, 5)]]
   \<and> segmentLineStringGemetry [] [(0, 0)] = []
   \<and> segmentLineStringGemetry [] [] = []"
  using segmentLineString_count [of "[(0, 0), (10, 0), (10, 5)]" "[]"]
    segmentLineString_count [of "[(0, 0)]" "[]"] segmentLineString_count [of "[]" "[]"]
  by (simp add: segmentLineStringGemetry_def pushSegments_eq upt_rec)

section \<open>The snap query\<close>

lemma squaredDistance_nonneg: "0 \<le> squaredDistance a b"
  by (simp add: squaredDistance_def Let_def)

lemma getResult_Some_iff:
  "getResult m pixel t (Some v) =
     (if squaredDistance pixel (getPixelFromCoordinate m v) \<le> t
      then Some \<lparr>vertex = v,
                 vertexPixel = (Math_round (fst (getPixelFromCoordinate m v)),
                                Math_round (snd (getPixelFromCoordinate m v)))\<rparr>
      else None)"
  by (simp add: getResult_def Let_def)

lemma getResult_None [simp]: "getResult m pixel t None = None"
  by (simp add: getResult_def)

text \<open>
  C5, as amended. The tolerance check is made on the computed squares, by \<open>\<le>\<close>: a
  candidate qualifies exactly when its squared pixel distance to the pointer pixel is at
  most the squared tolerance it is compared with; a squared distance equal to the squared
  tolerance qualifies, and a larger one does not.
\<close>

theorem getResult_tolerance_boundary:
  "(getResult m pixel squaredPixelTolerance (Some v) \<noteq> None
      \<longleftrightarrow> squaredDistance pixel (getPixelFromCoordinate m v) \<le> squaredPixelTolerance)
   \<and> (squaredDistance pixel (getPixelFromCoordinate m v) = squaredPixelTolerance
        \<longrightarrow> getResult m pixel squaredPixelTolerance (Some v) =
              Some \<lparr>vertex = v,
                    vertexPixel = (Math_round (fst (getPixelFromCoordinate m v)),
                                   Math_round (snd (getPixelFromCoordinate m v)))\<rparr>)
   \<and> (squaredPixelTolerance < squaredDistance pixel (getPixelFromCoordinate m v)
        \<longrightarrow> getResult m pixel squaredPixelTolerance (Some v) = None)"
  by (simp add: getResult_Some_iff)

lemma vertexCandidates_Cons:
  "vertexCandidates w (sd # segs) =
     (case getGeometry w (feature sd) of
        None \<Rightarrow> []
      | Some g \<Rightarrow> if getType g \<noteq> CIRCLE then segment sd else []) @ vertexCandidates w segs"
  by (simp add: vertexCandidates_def)

lemma edgeCandidate_edgeVertex:
  "edgeCandidate w m pc g seg = (case edgeVertex w m pc g seg of None \<Rightarrow> [] | Some v \<Rightarrow> [v])"
  by (induction w m pc g seg rule: edgeCandidate.induct) (simp_all add: edgeVertex_def)

lemma edgeCandidates_Nil: "edgeCandidates w m pc [] = []"
  by (simp add: edgeCandidates_def)

lemma edgeCandidates_member:
  assumes "sd \<in> set segs" and "getGeometry w (feature sd) = Some g"
    and "c \<in> set (edgeCandidate w m pc g (segment sd))"
  shows "c \<in> set (edgeCandidates w m pc segs)"
proof -
  from assms(2,3) have "c \<in> set (case getGeometry w (feature sd) of None \<Rightarrow> []
      | Some g \<Rightarrow> edgeCandidate w m pc g (segment sd))" by simp
  with assms(1) show ?thesis unfolding edgeCandidates_def set_concat set_map by blast
qed

lemma isClosest_set:
  assumes "isClosest d vs v"
  shows "v \<in> set vs" and "\<forall>u \<in> set vs. d v \<le> d u"
proof -
  from assms obtain i where i: "i < length vs" "vs ! i = v" "\<forall>j < length vs. d v \<le> d (vs ! j)"
    unfolding isClosest_def by blast
  from i(1,2) show "v \<in> set vs" by (metis nth_mem)
  from i(3) show "\<forall>u \<in> set vs. d v \<le> d u" by (metis in_set_conv_nth)
qed

lemma edgeCandidates_Cons:
  "edgeCandidates w m pc (sd # segs) =
     (case getGeometry w (feature sd) of
        None \<Rightarrow> []
      | Some g \<Rightarrow> (case edgeVertex w m pc g (segment sd) of None \<Rightarrow> [] | Some v \<Rightarrow> [v]))
     @ edgeCandidates w m pc segs"
  by (cases "getGeometry w (feature sd)") (simp_all add: edgeCandidates_def edgeCandidate_edgeVertex)

lemma vertexPass_throws:
  "\<exists>sd \<in> set segs. getGeometry w (feature sd) = None \<Longrightarrow>
   vertexPass w m pc segs st = Inl TypeError"
proof (induction segs arbitrary: st)
  case Nil
  then show ?case by simp
next
  case (Cons sd segs)
  show ?case
  proof (cases "getGeometry w (feature sd)")
    case None
    then show ?thesis by simp
  next
    case (Some g)
    with Cons.prems have "\<exists>sd \<in> set segs. getGeometry w (feature sd) = None" by auto
    from Cons.IH [OF this] Some show ?thesis by simp
  qed
qed

lemma edgePass_throws:
  "\<exists>sd \<in> set segs. getGeometry w (feature sd) = None \<Longrightarrow>
   edgePass w m pc segs st = Inl TypeError"
proof (induction segs arbitrary: st)
  case Nil
  then show ?case by simp
next
  case (Cons sd segs)
  show ?case
  proof (cases "getGeometry w (feature sd)")
    case None
    then show ?thesis by simp
  next
    case (Some g)
    with Cons.prems have "\<exists>sd \<in> set segs. getGeometry w (feature sd) = None" by auto
    from Cons.IH [OF this] Some show ?thesis by simp
  qed
qed

lemma vertexPass_Inr:
  "vertexPass w m pc segs st = Inr st' \<Longrightarrow>
   st' = fold (\<lambda>v. keepCloser (squaredDistance pc (fromUserCoordinate m v)) v)
           (vertexCandidates w segs) st"
proof (induction segs arbitrary: st)
  case Nil
  then show ?case by (simp add: vertexCandidates_def)
next
  case (Cons sd segs)
  show ?case
  proof (cases "getGeometry w (feature sd)")
    case None
    with Cons.prems show ?thesis by simp
  next
    case (Some g)
    let ?st1 = "if getType g \<noteq> CIRCLE
      then fold (\<lambda>v. keepCloser (squaredDistance pc (fromUserCoordinate m v)) v) (segment sd) st
      else st"
    from Cons.prems Some have "vertexPass w m pc segs ?st1 = Inr st'" by simp
    from Cons.IH [OF this] Some show ?thesis
      by (simp add: vertexCandidates_Cons)
  qed
qed

lemma vertexPass_total:
  "\<forall>sd \<in> set segs. getGeometry w (feature sd) \<noteq> None \<Longrightarrow>
   \<exists>st'. vertexPass w m pc segs st = Inr st'"
proof (induction segs arbitrary: st)
  case Nil
  show ?case by simp
next
  case (Cons sd segs)
  then obtain g where "getGeometry w (feature sd) = Some g" by auto
  with Cons show ?case by simp
qed

lemma edgePass_Inr:
  "edgePass w m pc segs st = Inr st' \<Longrightarrow>
   st' = fold (\<lambda>v. keepCloser (squaredDistance pc v) v) (edgeCandidates w m pc segs) st"
proof (induction segs arbitrary: st)
  case Nil
  then show ?case by (simp add: edgeCandidates_def)
next
  case (Cons sd segs)
  show ?case
  proof (cases "getGeometry w (feature sd)")
    case None
    with Cons.prems show ?thesis by simp
  next
    case (Some g)
    let ?st1 = "case edgeVertex w m pc g (segment sd) of
        None \<Rightarrow> st
      | Some v \<Rightarrow> keepCloser (squaredDistance pc v) v st"
    from Cons.prems Some have "edgePass w m pc segs ?st1 = Inr st'" by simp
    from Cons.IH [OF this] Some show ?thesis
      by (cases "edgeVertex w m pc g (segment sd)") (simp_all add: edgeCandidates_Cons)
  qed
qed

lemma edgePass_total:
  "\<forall>sd \<in> set segs. getGeometry w (feature sd) \<noteq> None \<Longrightarrow>
   \<exists>st'. edgePass w m pc segs st = Inr st'"
proof (induction segs arbitrary: st)
  case Nil
  show ?case by simp
next
  case (Cons sd segs)
  then obtain g where "getGeometry w (feature sd) = Some g" by auto
  with Cons show ?case by simp
qed

lemma fold_keepCloser_unchanged:
  "\<forall>v \<in> set vs. \<not> lessThanMin (d v) (snd st) \<Longrightarrow> fold (\<lambda>v. keepCloser (d v) v) vs st = st"
  by (induction vs) (simp_all add: keepCloser_def)

lemma fold_keepCloser_snoc:
  "fold (\<lambda>v. keepCloser (d v) v) (vs @ [x]) st = keepCloser (d x) x (fold (\<lambda>v. keepCloser (d v) v) vs st)"
  by simp

lemma fold_keepCloser_closest:
  "\<exists>v \<in> set vs. lessThanMin (d v) (snd st) \<Longrightarrow>
   \<exists>c. isClosest d vs c \<and> lessThanMin (d c) (snd st)
        \<and> fold (\<lambda>v. keepCloser (d v) v) vs st = (Some c, Some (d c))"
proof (induction vs rule: rev_induct)
  case Nil
  then show ?case by simp
next
  case (snoc x vs)
  let ?st = "fold (\<lambda>v. keepCloser (d v) v) vs st"
  show ?case
  proof (cases "\<exists>v \<in> set vs. lessThanMin (d v) (snd st)")
    case True
    from snoc.IH [OF True] obtain c where c: "isClosest d vs c" "lessThanMin (d c) (snd st)"
      "?st = (Some c, Some (d c))" by blast
    from c(1) obtain i where i: "i < length vs" "vs ! i = c" "\<forall>j < length vs. d c \<le> d (vs ! j)"
      "\<forall>j < i. d c < d (vs ! j)" unfolding isClosest_def by blast
    show ?thesis
    proof (cases "d x < d c")
      case True
      have "isClosest d (vs @ [x]) x"
        unfolding isClosest_def
      proof (intro exI [of _ "length vs"] conjI allI impI)
        fix j assume "j < length (vs @ [x])"
        then show "d x \<le> d ((vs @ [x]) ! j)"
          using i(3) True by (cases "j < length vs") (auto simp: nth_append less_Suc_eq intro: less_imp_le order_trans)
      next
        fix j assume "j < length vs"
        then show "d x < d ((vs @ [x]) ! j)"
          using i(3) True by (auto simp: nth_append intro: less_le_trans)
      qed simp_all
      moreover have "lessThanMin (d x) (snd st)"
        using c(2) True by (auto simp: lessThanMin_def split: option.splits)
      moreover have "keepCloser (d x) x ?st = (Some x, Some (d x))"
        using c(3) True by (simp add: keepCloser_def lessThanMin_def)
      ultimately show ?thesis unfolding fold_keepCloser_snoc by blast
    next
      case False
      have "isClosest d (vs @ [x]) c"
        unfolding isClosest_def
      proof (intro exI [of _ i] conjI allI impI)
        fix j assume "j < length (vs @ [x])"
        then show "d c \<le> d ((vs @ [x]) ! j)"
          using i(3) False by (cases "j < length vs") (auto simp: nth_append less_Suc_eq)
      next
        fix j assume "j < i"
        then show "d c < d ((vs @ [x]) ! j)"
          using i(1,4) by (auto simp: nth_append)
      qed (use i in \<open>auto simp: nth_append\<close>)
      moreover have "keepCloser (d x) x ?st = (Some c, Some (d c))"
        using c(3) False by (simp add: keepCloser_def lessThanMin_def)
      ultimately show ?thesis using c(2) unfolding fold_keepCloser_snoc by blast
    qed
  next
    case False
    then have un: "?st = st" by (intro fold_keepCloser_unchanged) blast
    from False snoc.prems have x: "lessThanMin (d x) (snd st)" by auto
    have nolt: "d x \<le> d v" if "v \<in> set vs" for v
    proof -
      from False that have "\<not> lessThanMin (d v) (snd st)" by blast
      with x show ?thesis by (cases "snd st") (simp_all add: lessThanMin_def)
    qed
    have "isClosest d (vs @ [x]) x"
      unfolding isClosest_def
    proof (intro exI [of _ "length vs"] conjI allI impI)
      fix j assume "j < length (vs @ [x])"
      then show "d x \<le> d ((vs @ [x]) ! j)"
        using nolt by (cases "j < length vs") (auto simp: nth_append less_Suc_eq)
    next
      fix j assume j: "j < length vs"
      have "\<not> lessThanMin (d (vs ! j)) (snd st)" using False j nth_mem by blast
      then have "d x < d (vs ! j)"
        using x by (cases "snd st") (simp_all add: lessThanMin_def)
      then show "d x < d ((vs @ [x]) ! j)"
        using j by (simp add: nth_append)
    qed simp_all
    moreover have "keepCloser (d x) x ?st = (Some x, Some (d x))"
      using un x by (simp add: keepCloser_def)
    ultimately show ?thesis using x unfolding fold_keepCloser_snoc by blast
  qed
qed

lemma lineScene_rBush:
  "this_rBush lineScene =
     \<lparr>items = [(Extent 0 0 10 0, \<lparr>ol_uid = 1, feature = 1, segment = [(0, 0), (10, 0)]\<rparr>)],
      uidCounter = 1\<rparr>"
  by (simp add: lineScene_def lineWorld_def sceneWorld_def addFeature_def Snap_def defaultOptions_def
      getUid_def hasSegmenter_def segmentLineStringGemetry_def pushSegments_eq upt_rec
      boundingExtent_def rbush_insert_def rbush_new_def state_of_def Let_def)

lemma lineScene_fields:
  "this_vertex lineScene" "this_edge lineScene" "this_pixelTolerance lineScene = 10"
  by (simp_all add: lineScene_def lineWorld_def sceneWorld_def addFeature_def Snap_def defaultOptions_def
      getUid_def hasSegmenter_def segmentLineStringGemetry_def pushSegments_eq upt_rec
      boundingExtent_def rbush_insert_def rbush_new_def state_of_def Let_def)

lemma lineScene_segments:
  "snapSegments lineScene (0.4, 0.01) unitMap = [\<lparr>ol_uid = 1, feature = 1, segment = [(0, 0), (10, 0)]\<rparr>]"
  by (simp add: snapSegments_def lineScene_rBush lineScene_fields unitMap_def getInExtent_def boundingExtent_def)

lemma cornerScene_rBush:
  "this_rBush cornerScene =
     \<lparr>items = [(Extent 9.9 1.5 9.9 1.5, \<lparr>ol_uid = 1, feature = 1, segment = [(9.9, 1.5)]\<rparr>),
        (Extent (-9.8) (-50) (-9.8) 50, \<lparr>ol_uid = 2, feature = 2, segment = [(-9.8, -50), (-9.8, 50)]\<rparr>)],
      uidCounter = 2\<rparr>"
  by (simp add: cornerScene_def cornerWorld_def sceneWorld_def addFeature_def Snap_def defaultOptions_def
      getUid_def hasSegmenter_def segmentLineStringGemetry_def segmentPointGemetry_def pushSegments_eq upt_rec
      boundingExtent_def rbush_insert_def rbush_new_def state_of_def Let_def)

lemma cornerScene_fields:
  "this_vertex cornerScene" "this_edge cornerScene" "this_pixelTolerance cornerScene = 10"
  by (simp_all add: cornerScene_def cornerWorld_def sceneWorld_def addFeature_def Snap_def defaultOptions_def
      getUid_def hasSegmenter_def segmentLineStringGemetry_def segmentPointGemetry_def pushSegments_eq upt_rec
      boundingExtent_def rbush_insert_def rbush_new_def state_of_def Let_def)

lemma cornerScene_snap:
  "snapTo cornerWorld cornerScene (0, 0) (0.4, 0) unitMap = Inr None"
  by (simp add: snapTo_def cornerScene_rBush cornerScene_fields unitMap_def getInExtent_def boundingExtent_def
     cornerWorld_def sceneWorld_def fromUserCoordinate_def keepCloser_def lessThanMin_def squaredDistance_def getResult_def Math_round_def Let_def
     edgeVertex_def closestOnSegment_std_def)

lemma snapTo_segments:
  "snapTo w this pixel pixelCoordinate m =
     (let segments = snapSegments this pixel m;
          pc = fromUserCoordinate m pixelCoordinate;
          t = this_pixelTolerance this * this_pixelTolerance this
      in if segments = [] then Inr None
         else case (if this_vertex this then vertexPass w m pc segments (None, None)
                    else Inr (None, None)) of
                Inl e \<Rightarrow> Inl e
              | Inr st \<Rightarrow>
                  (case (if this_vertex this then getResult m pixel t (fst st) else None) of
                     Some r \<Rightarrow> Inr (Some r)
                   | None \<Rightarrow>
                       if this_edge this
                       then (case edgePass w m pc segments st of
                               Inl e \<Rightarrow> Inl e
                             | Inr st' \<Rightarrow> Inr (getResult m pixel t (fst st')))
                       else Inr None))"
  by (simp add: snapTo_def snapSegments_def Let_def)

lemma vertexPass_ignores_edge_helpers:
  "vertexPass (w\<lparr>closestOnSegment := cs, closestOnCircle := cc\<rparr>) m pc segs st = vertexPass w m pc segs st"
  by (induction segs arbitrary: st) (simp_all split: option.splits)

lemma fold_keepCloser_Nil_iff:
  "fold (\<lambda>v. keepCloser (d v) v) vs (None, None) = (Some v, x) \<Longrightarrow> isClosest d vs v"
proof -
  assume a: "fold (\<lambda>v. keepCloser (d v) v) vs (None, None) = (Some v, x)"
  have "vs \<noteq> []" using a by auto
  then have "hd vs \<in> set vs" by simp
  then have "\<exists>v \<in> set vs. lessThanMin (d v) (snd (None :: coordinate option, None :: real option))"
    unfolding lessThanMin_def by (intro bexI [of _ "hd vs"]) simp_all
  from fold_keepCloser_closest [OF this] a show ?thesis by auto
qed

text \<open>
  C1. With vertex and edge snapping both enabled, when the vertex pass ends with a vertex
  whose squared pixel distance to the pointer pixel is at most the squared tolerance,
  \<open>snapTo\<close> returns that vertex, which is the first vertex of minimum distance among the
  vertices of the returned entries; the edge pass is not run, so the result is the same
  whatever the closest-point primitives of the edge pass compute.
\<close>

theorem vertex_pass_wins:
  assumes "this_vertex this" and "this_edge this"
    and "vertexPass w m (fromUserCoordinate m pixelCoordinate) (snapSegments this pixel m) (None, None)
           = Inr (Some v, d)"
    and "squaredDistance pixel (getPixelFromCoordinate m v)
           \<le> this_pixelTolerance this * this_pixelTolerance this"
  shows "snapTo w this pixel pixelCoordinate m =
           Inr (Some \<lparr>vertex = v,
                      vertexPixel = (Math_round (fst (getPixelFromCoordinate m v)),
                                     Math_round (snd (getPixelFromCoordinate m v)))\<rparr>)
         \<and> snapTo (w\<lparr>closestOnSegment := cs, closestOnCircle := cc\<rparr>) this pixel pixelCoordinate m =
             snapTo w this pixel pixelCoordinate m
         \<and> isClosest (\<lambda>v'. squaredDistance (fromUserCoordinate m pixelCoordinate) (fromUserCoordinate m v'))
             (vertexCandidates w (snapSegments this pixel m)) v"
proof -
  have ne: "snapSegments this pixel m \<noteq> []"
    using assms(3) by auto
  have r: "getResult m pixel (this_pixelTolerance this * this_pixelTolerance this) (Some v) =
      Some \<lparr>vertex = v,
            vertexPixel = (Math_round (fst (getPixelFromCoordinate m v)),
                           Math_round (snd (getPixelFromCoordinate m v)))\<rparr>"
    using assms(4) by (simp add: getResult_Some_iff)
  have 1: "snapTo w' this pixel pixelCoordinate m =
           Inr (Some \<lparr>vertex = v,
                      vertexPixel = (Math_round (fst (getPixelFromCoordinate m v)),
                                     Math_round (snd (getPixelFromCoordinate m v)))\<rparr>)"
    if "vertexPass w' m (fromUserCoordinate m pixelCoordinate) (snapSegments this pixel m) (None, None)
           = Inr (Some v, d)" for w'
    using that assms(1) ne r by (simp add: snapTo_segments)
  from vertexPass_Inr [OF assms(3)]
  have 3: "isClosest (\<lambda>v'. squaredDistance (fromUserCoordinate m pixelCoordinate) (fromUserCoordinate m v'))
             (vertexCandidates w (snapSegments this pixel m)) v"
    by (intro fold_keepCloser_Nil_iff [where x = d]) simp
  show ?thesis
    using 1 [of w] 1 [of "w\<lparr>closestOnSegment := cs, closestOnCircle := cc\<rparr>"] assms(3) 3
    by (simp add: vertexPass_ignores_edge_helpers)
qed

theorem vertex_pass_wins_witness:
  "this_vertex lineScene \<and> this_edge lineScene
   \<and> vertexPass lineWorld unitMap (fromUserCoordinate unitMap (0.4, 0.01))
        (snapSegments lineScene (0.4, 0.01) unitMap) (None, None) = Inr (Some (0, 0), Some 0.1601)
   \<and> squaredDistance (0.4, 0.01) (getPixelFromCoordinate unitMap (0, 0))
        \<le> this_pixelTolerance lineScene * this_pixelTolerance lineScene
   \<and> closestOnSegment lineWorld (0.4, 0.01) [(0, 0), (10, 0)] = (0.4, 0)
   \<and> squaredDistance (0.4, 0.01) (0.4, 0) < squaredDistance (0.4, 0.01) (0, 0)
   \<and> snapTo lineWorld lineScene (0.4, 0.01) (0.4, 0.01) unitMap =
        Inr (Some \<lparr>vertex = (0, 0), vertexPixel = (0, 0)\<rparr>)"
proof -
  have h3: "vertexPass lineWorld unitMap (fromUserCoordinate unitMap (0.4, 0.01))
        (snapSegments lineScene (0.4, 0.01) unitMap) (None, None) = Inr (Some (0, 0), Some 0.1601)"
    unfolding lineScene_segments
    by (simp add: lineWorld_def sceneWorld_def unitMap_def fromUserCoordinate_def
        keepCloser_def lessThanMin_def squaredDistance_def)
  have h4: "squaredDistance (0.4, 0.01) (getPixelFromCoordinate unitMap (0, 0))
        \<le> this_pixelTolerance lineScene * this_pixelTolerance lineScene"
    by (simp add: lineScene_fields unitMap_def squaredDistance_def)
  have e: "closestOnSegment lineWorld (0.4, 0.01) [(0, 0), (10, 0)] = (0.4, 0)"
    by (simp add: lineWorld_def sceneWorld_def closestOnSegment_std_def)
  have e2: "squaredDistance (0.4, 0.01) (0.4, 0) < squaredDistance (0.4, 0.01) (0, 0)"
    by (simp add: squaredDistance_def)
  from vertex_pass_wins [OF lineScene_fields(1) lineScene_fields(2) h3 h4]
  have "snapTo lineWorld lineScene (0.4, 0.01) (0.4, 0.01) unitMap =
        Inr (Some \<lparr>vertex = (0, 0), vertexPixel = (0, 0)\<rparr>)"
    by (simp add: unitMap_def Math_round_def)
  with lineScene_fields h3 h4 e e2 show ?thesis by simp
qed

theorem getResult_tolerance_boundary_witness:
  "squaredDistance (0, 0) (getPixelFromCoordinate unitMap (10, 0)) = 10 * 10
   \<and> getResult unitMap (0, 0) (10 * 10) (Some (10, 0)) = Some \<lparr>vertex = (10, 0), vertexPixel = (10, 0)\<rparr>
   \<and> 10 * 10 < squaredDistance (0, 0) (getPixelFromCoordinate unitMap (11, 0))
   \<and> getResult unitMap (0, 0) (10 * 10) (Some (11, 0)) = None"
proof -
  have a: "squaredDistance (0, 0) (getPixelFromCoordinate unitMap (10, 0)) = 10 * 10"
    by (simp add: squaredDistance_def unitMap_def)
  have b: "10 * 10 < squaredDistance (0, 0) (getPixelFromCoordinate unitMap (11, 0))"
    by (simp add: squaredDistance_def unitMap_def)
  from getResult_tolerance_boundary [of unitMap "(0, 0)" "10 * 10" "(10, 0)"] a
  have 1: "getResult unitMap (0, 0) (10 * 10) (Some (10, 0)) = Some \<lparr>vertex = (10, 0), vertexPixel = (10, 0)\<rparr>"
    by (simp add: unitMap_def Math_round_def)
  from getResult_tolerance_boundary [of unitMap "(0, 0)" "10 * 10" "(11, 0)"] b
  have 2: "getResult unitMap (0, 0) (10 * 10) (Some (11, 0)) = None"
    by simp
  show ?thesis
    by (intro conjI) (fact a b 1 2)+
qed

lemma halfScene_rBush:
  "this_rBush halfScene =
     \<lparr>items = [(Extent (1 / 2) 0 (1 / 2) 0, \<lparr>ol_uid = 1, feature = 1, segment = [(1 / 2, 0)]\<rparr>)],
      uidCounter = 1\<rparr>"
  by (simp add: halfScene_def halfWorld_def negativeOptions_def sceneWorld_def addFeature_def
      Snap_def defaultOptions_def getUid_def hasSegmenter_def segmentPointGemetry_def
      boundingExtent_def rbush_insert_def rbush_new_def state_of_def Let_def)

lemma halfScene_fields:
  "this_vertex halfScene" "this_edge halfScene" "this_pixelTolerance halfScene = - (1 / 2)"
  by (simp_all add: halfScene_def halfWorld_def negativeOptions_def sceneWorld_def addFeature_def
      Snap_def defaultOptions_def getUid_def hasSegmenter_def segmentPointGemetry_def
      boundingExtent_def rbush_insert_def rbush_new_def state_of_def Let_def)

text \<open>
  The claim C5 as stated fails for the second half: with the tolerance configured as
  -1/2, a point at pixel distance 1/2 from the pointer is one pixel beyond the tolerance,
  yet its squared distance 1/4 is at most the squared tolerance 1/4 and the query returns
  it.
\<close>

theorem tolerance_boundary_counterexample:
  "this_pixelTolerance halfScene = - (1 / 2)
   \<and> sqrt (squaredDistance (0, 0) (getPixelFromCoordinate unitMap (1 / 2, 0)))
        = this_pixelTolerance halfScene + 1
   \<and> snapTo halfWorld halfScene (0, 0) (0, 0) unitMap
        = Inr (Some \<lparr>vertex = (1 / 2, 0), vertexPixel = (1, 0)\<rparr>)"
proof -
  have "sqrt ((1 / 2) * (1 / 2)) = (1 / 2 :: real)"
    by (rule real_sqrt_unique) (simp_all add: power2_eq_square)
  then have a: "sqrt (squaredDistance (0, 0) (getPixelFromCoordinate unitMap (1 / 2, 0)))
        = this_pixelTolerance halfScene + 1"
    by (simp add: squaredDistance_def unitMap_def halfScene_fields)
  have b: "snapTo halfWorld halfScene (0, 0) (0, 0) unitMap
        = Inr (Some \<lparr>vertex = (1 / 2, 0), vertexPixel = (1, 0)\<rparr>)"
    by (simp add: snapTo_def halfScene_rBush halfScene_fields unitMap_def getInExtent_def
        boundingExtent_def halfWorld_def sceneWorld_def fromUserCoordinate_def keepCloser_def
        lessThanMin_def squaredDistance_def getResult_Some_iff Math_round_def Let_def)
  from halfScene_fields(3) a b show ?thesis by blast
qed

lemma edgeVertex_singleton:
  "getType g \<noteq> CIRCLE \<Longrightarrow> edgeVertex w m pc g [p] = None"
  by (cases g) (simp_all add: edgeVertex_def)

lemma edgePass_points:
  "\<forall>sd \<in> set segs. \<exists>p g. segment sd = [p] \<and> getGeometry w (feature sd) = Some g \<and> getType g \<noteq> CIRCLE
   \<Longrightarrow> edgePass w m pc segs st = Inr st"
proof (induction segs)
  case Nil
  show ?case by simp
next
  case (Cons sd segs)
  then obtain p g where "segment sd = [p]" "getGeometry w (feature sd) = Some g" "getType g \<noteq> CIRCLE"
    by auto
  with Cons show ?case by (simp add: edgeVertex_singleton)
qed

text \<open>
  C10. The edge pass reads the second coordinate of a segment only under the test that it
  exists: for a segment of one coordinate whose feature is not a circle it computes no
  candidate and goes on without an error, so entries of point features leave the edge pass
  without a candidate, and with vertex snapping disabled a query that meets only such
  entries returns none.
\<close>

theorem point_only_by_vertex_pass:
  "(getType g \<noteq> CIRCLE \<longrightarrow> edgeVertex w m pc g [p] = None)
   \<and> ((\<forall>sd \<in> set segs. \<exists>p g. segment sd = [p] \<and> getGeometry w (feature sd) = Some g
                                 \<and> getType g \<noteq> CIRCLE)
        \<longrightarrow> edgePass w m pc segs st = Inr st \<and> edgeCandidates w m pc segs = [])
   \<and> ((\<forall>sd \<in> set (snapSegments this pixel m').
          \<exists>p g. segment sd = [p] \<and> getGeometry w (feature sd) = Some g \<and> getType g \<noteq> CIRCLE)
        \<and> \<not> this_vertex this
        \<longrightarrow> snapTo w this pixel pixelCoordinate m' = Inr None)"
proof (intro conjI impI)
  assume "getType g \<noteq> CIRCLE"
  then show "edgeVertex w m pc g [p] = None" by (rule edgeVertex_singleton)
next
  assume a: "\<forall>sd \<in> set segs. \<exists>p g. segment sd = [p] \<and> getGeometry w (feature sd) = Some g
                                 \<and> getType g \<noteq> CIRCLE"
  then show "edgePass w m pc segs st = Inr st" by (rule edgePass_points)
  from a show "edgeCandidates w m pc segs = []"
    by (induction segs) (auto simp: edgeCandidates_Cons edgeCandidates_Nil edgeVertex_singleton)
next
  assume a: "(\<forall>sd \<in> set (snapSegments this pixel m').
          \<exists>p g. segment sd = [p] \<and> getGeometry w (feature sd) = Some g \<and> getType g \<noteq> CIRCLE)
        \<and> \<not> this_vertex this"
  then have "edgePass w m' (fromUserCoordinate m' pixelCoordinate) (snapSegments this pixel m') (None, None)
      = Inr (None, None)"
    by (intro edgePass_points) blast
  with a show "snapTo w this pixel pixelCoordinate m' = Inr None"
    by (simp add: snapTo_segments Let_def)
qed

lemmas scene_simps =
  sceneWorld_def addFeature_def Snap_def defaultOptions_def edgeOnlyOptions_def
  getUid_def hasSegmenter_def segmentLineStringGemetry_def segmentPointGemetry_def pushSegments_eq
  upt_rec boundingExtent_def rbush_insert_def rbush_new_def state_of_def Let_def

lemma lineSceneEdgeOnly_rBush:
  "this_rBush lineSceneEdgeOnly =
     \<lparr>items = [(Extent 0 0 10 0, \<lparr>ol_uid = 1, feature = 1, segment = [(0, 0), (10, 0)]\<rparr>)],
      uidCounter = 1\<rparr>"
  by (simp add: lineSceneEdgeOnly_def lineWorld_def scene_simps)

lemma lineSceneEdgeOnly_fields:
  "\<not> this_vertex lineSceneEdgeOnly" "this_edge lineSceneEdgeOnly"
  "this_pixelTolerance lineSceneEdgeOnly = 10"
  by (simp_all add: lineSceneEdgeOnly_def lineWorld_def scene_simps)

lemma lineSceneEdgeOnly_segments:
  "snapSegments lineSceneEdgeOnly (5, 0.2) unitMap =
     [\<lparr>ol_uid = 1, feature = 1, segment = [(0, 0), (10, 0)]\<rparr>]"
  by (simp add: snapSegments_def lineSceneEdgeOnly_rBush lineSceneEdgeOnly_fields unitMap_def
      getInExtent_def boundingExtent_def)

lemma pointSceneEdgeOnly_rBush:
  "this_rBush pointSceneEdgeOnly =
     \<lparr>items = [(Extent 3 4 3 4, \<lparr>ol_uid = 1, feature = 1, segment = [(3, 4)]\<rparr>)],
      uidCounter = 1\<rparr>"
  by (simp add: pointSceneEdgeOnly_def pointWorld_def scene_simps)

lemma pointSceneEdgeOnly_fields:
  "\<not> this_vertex pointSceneEdgeOnly" "this_edge pointSceneEdgeOnly"
  "this_pixelTolerance pointSceneEdgeOnly = 10"
  by (simp_all add: pointSceneEdgeOnly_def pointWorld_def scene_simps)

lemma pointSceneEdgeOnly_segments:
  "snapSegments pointSceneEdgeOnly (3, 4) unitMap = [\<lparr>ol_uid = 1, feature = 1, segment = [(3, 4)]\<rparr>]"
  by (simp add: snapSegments_def pointSceneEdgeOnly_rBush pointSceneEdgeOnly_fields unitMap_def
      getInExtent_def boundingExtent_def)

lemma cornerScene_segments:
  "snapSegments cornerScene (0, 0) unitMap =
     [\<lparr>ol_uid = 1, feature = 1, segment = [(9.9, 1.5)]\<rparr>,
      \<lparr>ol_uid = 2, feature = 2, segment = [(-9.8, -50), (-9.8, 50)]\<rparr>]"
  by (simp add: snapSegments_def cornerScene_rBush cornerScene_fields unitMap_def
      getInExtent_def boundingExtent_def)

theorem point_only_by_vertex_pass_witness:
  "getType (Point (3, 4)) \<noteq> CIRCLE
   \<and> edgeVertex pointWorld unitMap (3, 4) (Point (3, 4)) [(3, 4)] = None
   \<and> snapSegments pointSceneEdgeOnly (3, 4) unitMap = [\<lparr>ol_uid = 1, feature = 1, segment = [(3, 4)]\<rparr>]
   \<and> getGeometry pointWorld 1 = Some (Point (3, 4))
   \<and> \<not> this_vertex pointSceneEdgeOnly
   \<and> edgePass pointWorld unitMap (3, 4) (snapSegments pointSceneEdgeOnly (3, 4) unitMap) (None, None)
        = Inr (None, None)
   \<and> snapTo pointWorld pointSceneEdgeOnly (3, 4) (3, 4) unitMap = Inr None"
proof -
  have g: "getGeometry pointWorld 1 = Some (Point (3, 4))"
    by (simp add: pointWorld_def sceneWorld_def)
  have h: "\<forall>sd \<in> set (snapSegments pointSceneEdgeOnly (3, 4) unitMap).
      \<exists>p g. segment sd = [p] \<and> getGeometry pointWorld (feature sd) = Some g \<and> getType g \<noteq> CIRCLE"
    unfolding pointSceneEdgeOnly_segments using g by simp
  note t = point_only_by_vertex_pass [of "Point (3, 4)" pointWorld unitMap "(3, 4)" "(3, 4)"
      "snapSegments pointSceneEdgeOnly (3, 4) unitMap" "(None, None)" pointSceneEdgeOnly "(3, 4)"
      unitMap "(3, 4)"]
  from t h pointSceneEdgeOnly_fields(1) g pointSceneEdgeOnly_segments show ?thesis by simp
qed

lemma edgePass_selects:
  assumes "this_edge this"
    and "\<forall>sd \<in> set (snapSegments this pixel m). getGeometry w (feature sd) \<noteq> None"
    and "(if this_vertex this
          then vertexPass w m (fromUserCoordinate m pixelCoordinate) (snapSegments this pixel m) (None, None)
          else Inr (None, None)) = Inr st"
    and "this_vertex this \<longrightarrow>
           getResult m pixel (this_pixelTolerance this * this_pixelTolerance this) (fst st) = None"
  shows "((\<exists>c \<in> set (edgeCandidates w m (fromUserCoordinate m pixelCoordinate) (snapSegments this pixel m)).
             lessThanMin (squaredDistance (fromUserCoordinate m pixelCoordinate) c) (snd st))
          \<longrightarrow> (\<exists>c. isClosest (squaredDistance (fromUserCoordinate m pixelCoordinate))
                      (edgeCandidates w m (fromUserCoordinate m pixelCoordinate) (snapSegments this pixel m)) c
                    \<and> snapTo w this pixel pixelCoordinate m =
                        Inr (getResult m pixel (this_pixelTolerance this * this_pixelTolerance this) (Some c))))
       \<and> (\<not> (\<exists>c \<in> set (edgeCandidates w m (fromUserCoordinate m pixelCoordinate) (snapSegments this pixel m)).
                lessThanMin (squaredDistance (fromUserCoordinate m pixelCoordinate) c) (snd st))
          \<longrightarrow> snapTo w this pixel pixelCoordinate m = Inr None)"
proof -
  let ?pc = "fromUserCoordinate m pixelCoordinate"
  let ?segs = "snapSegments this pixel m"
  let ?t = "this_pixelTolerance this * this_pixelTolerance this"
  let ?cands = "edgeCandidates w m ?pc ?segs"
  from edgePass_total [OF assms(2)] obtain st' where e: "edgePass w m ?pc ?segs st = Inr st'"
    by blast
  from edgePass_Inr [OF e]
  have st': "st' = fold (\<lambda>v. keepCloser (squaredDistance ?pc v) v) ?cands st" .
  have none: "getResult m pixel ?t (fst st) = None"
  proof (cases "this_vertex this")
    case True
    with assms(4) show ?thesis by simp
  next
    case False
    with assms(3) have "st = (None, None)" by simp
    then show ?thesis by simp
  qed
  have snap: "snapTo w this pixel pixelCoordinate m =
      (if ?segs = [] then Inr None else Inr (getResult m pixel ?t (fst st')))"
    using assms(1,3) none e by (cases "this_vertex this") (simp_all add: snapTo_segments Let_def)
  have empty: "?cands = []" if "?segs = []"
    using that by (simp add: edgeCandidates_def)
  show ?thesis
  proof (intro conjI impI)
    assume ex: "\<exists>c \<in> set ?cands. lessThanMin (squaredDistance ?pc c) (snd st)"
    then have ne: "?segs \<noteq> []" using empty by auto
    from fold_keepCloser_closest [OF ex] obtain c where
      c: "isClosest (squaredDistance ?pc) ?cands c"
         "fold (\<lambda>v. keepCloser (squaredDistance ?pc v) v) ?cands st = (Some c, Some (squaredDistance ?pc c))"
      by blast
    from c(2) st' have "fst st' = Some c" by simp
    with snap ne have "snapTo w this pixel pixelCoordinate m = Inr (getResult m pixel ?t (Some c))"
      by simp
    with c(1) show "\<exists>c. isClosest (squaredDistance ?pc) ?cands c
        \<and> snapTo w this pixel pixelCoordinate m = Inr (getResult m pixel ?t (Some c))"
      by blast
  next
    assume nex: "\<not> (\<exists>c \<in> set ?cands. lessThanMin (squaredDistance ?pc c) (snd st))"
    then have "fold (\<lambda>v. keepCloser (squaredDistance ?pc v) v) ?cands st = st"
      by (intro fold_keepCloser_unchanged) blast
    with st' have "st' = st" by simp
    with snap none show "snapTo w this pixel pixelCoordinate m = Inr None" by simp
  qed
qed

text \<open>
  C4, as amended. With edge snapping enabled: if the feature of some returned entry
  currently has no geometry, the query raises a TypeError. When the feature of every
  returned entry has a geometry and the vertex pass did not return, the edge pass goes on
  from the minimum the vertex pass left behind: if some edge candidate is strictly closer
  than that minimum (any candidate is, when the vertex pass found no vertex or did not
  run), the first edge candidate of overall minimum squared distance is selected and
  returned if it passes the tolerance check; otherwise the query returns none. The edge
  candidate of an entry whose feature is a circle is the closest point on the circle
  (\<open>closestOnCircle\<close> of the circle in view projection, converted back to the user
  projection); that of any other entry with two coordinates is the closest point on its
  segment (\<open>closestOnSegment\<close> of the two coordinates in view projection).
\<close>

theorem edge_pass_selection:
  assumes "this_edge this"
  shows "((\<exists>sd \<in> set (snapSegments this pixel m). getGeometry w (feature sd) = None)
          \<longrightarrow> snapTo w this pixel pixelCoordinate m = Inl TypeError)
       \<and> ((\<forall>sd \<in> set (snapSegments this pixel m). getGeometry w (feature sd) \<noteq> None)
           \<and> (if this_vertex this
                then vertexPass w m (fromUserCoordinate m pixelCoordinate) (snapSegments this pixel m) (None, None)
                else Inr (None, None)) = Inr st
           \<and> (this_vertex this \<longrightarrow>
                 getResult m pixel (this_pixelTolerance this * this_pixelTolerance this) (fst st) = None)
          \<longrightarrow>
            ((\<exists>c \<in> set (edgeCandidates w m (fromUserCoordinate m pixelCoordinate) (snapSegments this pixel m)).
                 lessThanMin (squaredDistance (fromUserCoordinate m pixelCoordinate) c) (snd st))
              \<longrightarrow> (\<exists>c. isClosest (squaredDistance (fromUserCoordinate m pixelCoordinate))
                          (edgeCandidates w m (fromUserCoordinate m pixelCoordinate) (snapSegments this pixel m)) c
                        \<and> snapTo w this pixel pixelCoordinate m =
                            Inr (getResult m pixel (this_pixelTolerance this * this_pixelTolerance this) (Some c))))
            \<and> (\<not> (\<exists>c \<in> set (edgeCandidates w m (fromUserCoordinate m pixelCoordinate) (snapSegments this pixel m)).
                    lessThanMin (squaredDistance (fromUserCoordinate m pixelCoordinate) c) (snd st))
              \<longrightarrow> snapTo w this pixel pixelCoordinate m = Inr None))
       \<and> (\<forall>sd \<in> set (snapSegments this pixel m). \<forall>c r.
             getGeometry w (feature sd) = Some (Circle c r) \<longrightarrow>
               edgeVertex w m (fromUserCoordinate m pixelCoordinate) (Circle c r) (segment sd)
                 = Some (toUserCoordinate m
                     (closestOnCircle w (fromUserCoordinate m pixelCoordinate)
                        (case getUserProjection m of None \<Rightarrow> (c, r)
                         | Some up \<Rightarrow> circle_to_view up (c, r))))
               \<and> toUserCoordinate m
                     (closestOnCircle w (fromUserCoordinate m pixelCoordinate)
                        (case getUserProjection m of None \<Rightarrow> (c, r)
                         | Some up \<Rightarrow> circle_to_view up (c, r)))
                   \<in> set (edgeCandidates w m (fromUserCoordinate m pixelCoordinate) (snapSegments this pixel m)))
       \<and> (\<forall>sd \<in> set (snapSegments this pixel m). \<forall>g a b rest.
             getGeometry w (feature sd) = Some g \<and> getType g \<noteq> CIRCLE \<and> segment sd = a # b # rest \<longrightarrow>
               edgeVertex w m (fromUserCoordinate m pixelCoordinate) g (segment sd)
                 = Some (closestOnSegment w (fromUserCoordinate m pixelCoordinate)
                           [fromUserCoordinate m a, fromUserCoordinate m b])
               \<and> closestOnSegment w (fromUserCoordinate m pixelCoordinate)
                     [fromUserCoordinate m a, fromUserCoordinate m b]
                   \<in> set (edgeCandidates w m (fromUserCoordinate m pixelCoordinate) (snapSegments this pixel m)))"
proof (intro conjI impI ballI allI)
  let ?pc = "fromUserCoordinate m pixelCoordinate"
  let ?segs = "snapSegments this pixel m"
  assume ex: "\<exists>sd \<in> set ?segs. getGeometry w (feature sd) = None"
  then have ne: "?segs \<noteq> []" by auto
  show "snapTo w this pixel pixelCoordinate m = Inl TypeError"
  proof (cases "this_vertex this")
    case True
    with vertexPass_throws [OF ex] ne show ?thesis by (simp add: snapTo_segments Let_def)
  next
    case False
    with edgePass_throws [OF ex] ne assms show ?thesis by (simp add: snapTo_segments Let_def)
  qed
next
  let ?pc = "fromUserCoordinate m pixelCoordinate"
  let ?segs = "snapSegments this pixel m"
  assume a: "(\<forall>sd \<in> set ?segs. getGeometry w (feature sd) \<noteq> None)
      \<and> (if this_vertex this then vertexPass w m ?pc ?segs (None, None) else Inr (None, None)) = Inr st
      \<and> (this_vertex this \<longrightarrow>
            getResult m pixel (this_pixelTolerance this * this_pixelTolerance this) (fst st) = None)"
  assume ex: "\<exists>c \<in> set (edgeCandidates w m ?pc ?segs). lessThanMin (squaredDistance ?pc c) (snd st)"
  from a have a1: "\<forall>sd \<in> set ?segs. getGeometry w (feature sd) \<noteq> None"
    and a2: "(if this_vertex this then vertexPass w m ?pc ?segs (None, None) else Inr (None, None)) = Inr st"
    and a3: "this_vertex this \<longrightarrow>
            getResult m pixel (this_pixelTolerance this * this_pixelTolerance this) (fst st) = None"
    by blast+
  from edgePass_selects [OF assms a1 a2 a3] ex
  show "\<exists>c. isClosest (squaredDistance ?pc) (edgeCandidates w m ?pc ?segs) c
        \<and> snapTo w this pixel pixelCoordinate m =
            Inr (getResult m pixel (this_pixelTolerance this * this_pixelTolerance this) (Some c))"
    by blast
next
  let ?pc = "fromUserCoordinate m pixelCoordinate"
  let ?segs = "snapSegments this pixel m"
  assume a: "(\<forall>sd \<in> set ?segs. getGeometry w (feature sd) \<noteq> None)
      \<and> (if this_vertex this then vertexPass w m ?pc ?segs (None, None) else Inr (None, None)) = Inr st
      \<and> (this_vertex this \<longrightarrow>
            getResult m pixel (this_pixelTolerance this * this_pixelTolerance this) (fst st) = None)"
  assume nex: "\<not> (\<exists>c \<in> set (edgeCandidates w m ?pc ?segs). lessThanMin (squaredDistance ?pc c) (snd st))"
  from a have a1: "\<forall>sd \<in> set ?segs. getGeometry w (feature sd) \<noteq> None"
    and a2: "(if this_vertex this then vertexPass w m ?pc ?segs (None, None) else Inr (None, None)) = Inr st"
    and a3: "this_vertex this \<longrightarrow>
            getResult m pixel (this_pixelTolerance this * this_pixelTolerance this) (fst st) = None"
    by blast+
  from edgePass_selects [OF assms a1 a2 a3] nex
  show "snapTo w this pixel pixelCoordinate m = Inr None" by blast
next
  fix sd c r
  assume "getGeometry w (feature sd) = Some (Circle c r)"
  show "edgeVertex w m (fromUserCoordinate m pixelCoordinate) (Circle c r) (segment sd)
      = Some (toUserCoordinate m
          (closestOnCircle w (fromUserCoordinate m pixelCoordinate)
             (case getUserProjection m of None \<Rightarrow> (c, r) | Some up \<Rightarrow> circle_to_view up (c, r))))"
    by (simp add: edgeVertex_def)
next
  fix sd c r
  assume sd: "sd \<in> set (snapSegments this pixel m)"
    and g: "getGeometry w (feature sd) = Some (Circle c r)"
  show "toUserCoordinate m
          (closestOnCircle w (fromUserCoordinate m pixelCoordinate)
             (case getUserProjection m of None \<Rightarrow> (c, r) | Some up \<Rightarrow> circle_to_view up (c, r)))
        \<in> set (edgeCandidates w m (fromUserCoordinate m pixelCoordinate) (snapSegments this pixel m))"
    by (rule edgeCandidates_member [OF sd g]) simp
next
  fix sd g a b rest
  assume h: "getGeometry w (feature sd) = Some g \<and> getType g \<noteq> CIRCLE \<and> segment sd = a # b # rest"
  then have "getType g \<noteq> CIRCLE" and s: "segment sd = a # b # rest" by blast+
  then show "edgeVertex w m (fromUserCoordinate m pixelCoordinate) g (segment sd)
      = Some (closestOnSegment w (fromUserCoordinate m pixelCoordinate)
                [fromUserCoordinate m a, fromUserCoordinate m b])"
    by (cases g) (simp_all add: edgeVertex_def)
next
  fix sd g a b rest
  assume sd: "sd \<in> set (snapSegments this pixel m)"
    and h: "getGeometry w (feature sd) = Some g \<and> getType g \<noteq> CIRCLE \<and> segment sd = a # b # rest"
  then have g: "getGeometry w (feature sd) = Some g" and t: "getType g \<noteq> CIRCLE"
    and s: "segment sd = a # b # rest" by blast+
  from t s have "closestOnSegment w (fromUserCoordinate m pixelCoordinate)
                [fromUserCoordinate m a, fromUserCoordinate m b]
      \<in> set (edgeCandidate w m (fromUserCoordinate m pixelCoordinate) g (segment sd))"
    by (cases g) simp_all
  from edgeCandidates_member [OF sd g this]
  show "closestOnSegment w (fromUserCoordinate m pixelCoordinate)
                [fromUserCoordinate m a, fromUserCoordinate m b]
        \<in> set (edgeCandidates w m (fromUserCoordinate m pixelCoordinate) (snapSegments this pixel m))" .
qed

lemma cornerScene_vertexPass:
  "vertexPass cornerWorld unitMap (0.4, 0) (snapSegments cornerScene (0, 0) unitMap) (None, None)
     = Inr (Some (9.9, 1.5), Some 92.5)"
  unfolding cornerScene_segments
  by (simp add: cornerWorld_def sceneWorld_def unitMap_def fromUserCoordinate_def
      keepCloser_def lessThanMin_def squaredDistance_def)

lemma cornerScene_edgeCandidates:
  "edgeCandidates cornerWorld unitMap (0.4, 0) (snapSegments cornerScene (0, 0) unitMap) = [(-9.8, 0)]"
  unfolding cornerScene_segments
  by (simp add: edgeCandidates_def cornerWorld_def sceneWorld_def unitMap_def fromUserCoordinate_def
      edgeVertex_def closestOnSegment_std_def)

lemma circleScene_rBush:
  "this_rBush circleScene =
     \<lparr>items =
       [(Extent 8 0 10 6, \<lparr>ol_uid = 1, feature = 1, segment = [(10, 0), (8, 6)]\<rparr>),
        (Extent 6 6 8 8, \<lparr>ol_uid = 2, feature = 1, segment = [(8, 6), (6, 8)]\<rparr>),
        (Extent 0 8 6 10, \<lparr>ol_uid = 3, feature = 1, segment = [(6, 8), (0, 10)]\<rparr>),
        (Extent (- 6) 8 0 10, \<lparr>ol_uid = 4, feature = 1, segment = [(0, 10), (- 6, 8)]\<rparr>),
        (Extent (- 8) 6 (- 6) 8, \<lparr>ol_uid = 5, feature = 1, segment = [(- 6, 8), (- 8, 6)]\<rparr>),
        (Extent (- 10) 0 (- 8) 6, \<lparr>ol_uid = 6, feature = 1, segment = [(- 8, 6), (- 10, 0)]\<rparr>),
        (Extent (- 10) (- 6) (- 8) 0, \<lparr>ol_uid = 7, feature = 1, segment = [(- 10, 0), (- 8, - 6)]\<rparr>),
        (Extent (- 8) (- 8) (- 6) (- 6), \<lparr>ol_uid = 8, feature = 1, segment = [(- 8, - 6), (- 6, - 8)]\<rparr>),
        (Extent (- 6) (- 10) 0 (- 8), \<lparr>ol_uid = 9, feature = 1, segment = [(- 6, - 8), (0, - 10)]\<rparr>),
        (Extent 0 (- 10) 6 (- 8), \<lparr>ol_uid = 10, feature = 1, segment = [(0, - 10), (6, - 8)]\<rparr>),
        (Extent 6 (- 8) 8 (- 6), \<lparr>ol_uid = 11, feature = 1, segment = [(6, - 8), (8, - 6)]\<rparr>),
        (Extent 8 (- 6) 10 0, \<lparr>ol_uid = 12, feature = 1, segment = [(8, - 6), (10, 0)]\<rparr>),
        (Extent 10.5 (- 5) 10.5 5, \<lparr>ol_uid = 13, feature = 2, segment = [(10.5, - 5), (10.5, 5)]\<rparr>)],
      uidCounter = 13\<rparr>"
  by (simp add: circleScene_def circleWorld_def circleOptions_def setMap_def getFeatures_def
      listen_def segmentCircleGemetry_def circleCoordinates_def fromCircle_twelve_def unitMap_def
      rbush_load_def scene_simps)

lemma circleScene_fields:
  "this_vertex circleScene" "this_edge circleScene" "this_pixelTolerance circleScene = 1"
  by (simp_all add: circleScene_def circleWorld_def circleOptions_def setMap_def getFeatures_def
      listen_def segmentCircleGemetry_def circleCoordinates_def fromCircle_twelve_def unitMap_def
      rbush_load_def scene_simps)

lemma circleScene_segments:
  "snapSegments circleScene (10.05, 0) unitMap =
     [\<lparr>ol_uid = 1, feature = 1, segment = [(10, 0), (8, 6)]\<rparr>,
      \<lparr>ol_uid = 12, feature = 1, segment = [(8, - 6), (10, 0)]\<rparr>,
      \<lparr>ol_uid = 13, feature = 2, segment = [(10.5, - 5), (10.5, 5)]\<rparr>]"
  by (simp add: snapSegments_def circleScene_rBush circleScene_fields unitMap_def
      getInExtent_def boundingExtent_def)

lemma circleScene_closestOnCircle:
  "closestOnCircle_std (10.05, 0) ((0, 0), 10) = (10, 0)"
proof -
  have "sqrt (10.05 * 10.05) = (10.05 :: real)"
    by (rule real_sqrt_unique) (simp_all add: power2_eq_square)
  then show ?thesis
    by (simp add: closestOnCircle_std_def Let_def)
qed

lemma circleScene_vertexPass:
  "vertexPass circleWorld unitMap (10.05, 0) (snapSegments circleScene (10.05, 0) unitMap) (None, None)
     = Inr (Some (10.5, - 5), Some 25.2025)"
  unfolding circleScene_segments
  by (simp add: circleWorld_def unitMap_def fromUserCoordinate_def
      keepCloser_def lessThanMin_def squaredDistance_def)

lemma circleScene_edgeCandidates:
  "edgeCandidates circleWorld unitMap (10.05, 0) (snapSegments circleScene (10.05, 0) unitMap)
     = [(10, 0), (10, 0), (10.5, 0)]"
proof -
  let ?e1 = "\<lparr>ol_uid = 1, feature = 1, segment = [(10, 0), (8, 6)]\<rparr>"
  let ?e12 = "\<lparr>ol_uid = 12, feature = 1, segment = [(8, - 6), (10, 0)]\<rparr>"
  let ?e13 = "\<lparr>ol_uid = 13, feature = 2, segment = [(10.5, - 5), (10.5, 5)]\<rparr>"
  have g1: "getGeometry circleWorld (feature ?e1) = Some (Circle (0, 0) 10)"
    and g12: "getGeometry circleWorld (feature ?e12) = Some (Circle (0, 0) 10)"
    and g13: "getGeometry circleWorld (feature ?e13) = Some (LineString [(10.5, - 5), (10.5, 5)])"
    by (simp_all add: circleWorld_def)
  have c: "edgeVertex circleWorld unitMap (201 / 20, 0) (Circle (0, 0) 10) seg = Some (10, 0)" for seg
    unfolding edgeVertex_def using circleScene_closestOnCircle
    by (simp add: circleWorld_def unitMap_def toUserCoordinate_def)
  have s: "edgeVertex circleWorld unitMap (201 / 20, 0) (LineString [(21 / 2, - 5), (21 / 2, 5)])
      [(21 / 2, - 5), (21 / 2, 5)] = Some (21 / 2, 0)"
    by (simp add: edgeVertex_def circleWorld_def unitMap_def fromUserCoordinate_def
        closestOnSegment_std_def)
  show ?thesis
    unfolding circleScene_segments edgeCandidates_Cons edgeCandidates_Nil g1 g12 g13
    by (simp add: c s)
qed

lemma nearScene_rBush:
  "this_rBush nearScene =
     \<lparr>items = [(Extent 0.4 0 0.4 0, \<lparr>ol_uid = 1, feature = 1, segment = [(0.4, 0)]\<rparr>)],
      uidCounter = 1\<rparr>"
  by (simp add: nearScene_def nearWorld_def scene_simps)

lemma nearScene_fields:
  "this_vertex nearScene" "this_edge nearScene" "this_pixelTolerance nearScene = 10"
  by (simp_all add: nearScene_def nearWorld_def scene_simps)

lemma nearScene_snapEvent:
  "snapEvent nearWorld nearScene
     \<lparr>evt_type = POINTERMOVE, evt_pixel = (1, 0.3), evt_coordinate = (1, 0.3), evt_map = unitMap\<rparr>
     = Inr \<lparr>evt_type = POINTERMOVE, evt_pixel = (0, 0), evt_coordinate = (0.4, 0), evt_map = unitMap\<rparr>"
  by (simp add: snapEvent_def snapTo_def nearScene_rBush nearScene_fields unitMap_def
      getInExtent_def boundingExtent_def nearWorld_def sceneWorld_def fromUserCoordinate_def
      keepCloser_def lessThanMin_def squaredDistance_def getResult_Some_iff Math_round_def Let_def)

text \<open>
  The claim C4 as stated fails when the vertex pass leaves a vertex that is closer in data
  space than every edge candidate but fails the pixel check. Pointer pixel (0,0) with
  pointer coordinate (0.4,0), as a preceding snap interaction leaves them in the event (the
  pixel is rounded, the coordinate is not): the point (9.9,1.5) is the closest vertex and is out of tolerance;
  the closest point (-9.8,0) of the segment is the minimum among the edge candidates and
  within tolerance, yet it is farther from the pointer coordinate than the point, is not
  selected, and the query returns none.
\<close>

theorem edge_pass_minimum_counterexample:
  "snapEvent nearWorld nearScene
     \<lparr>evt_type = POINTERMOVE, evt_pixel = (1, 0.3), evt_coordinate = (1, 0.3), evt_map = unitMap\<rparr>
     = Inr \<lparr>evt_type = POINTERMOVE, evt_pixel = (0, 0), evt_coordinate = (0.4, 0), evt_map = unitMap\<rparr>
   \<and> this_vertex cornerScene \<and> this_edge cornerScene \<and> this_pixelTolerance cornerScene = 10
   \<and> vertexPass cornerWorld unitMap (0.4, 0) (snapSegments cornerScene (0, 0) unitMap) (None, None)
        = Inr (Some (9.9, 1.5), Some 92.5)
   \<and> getResult unitMap (0, 0) (10 * 10) (Some (9.9, 1.5)) = None
   \<and> edgeCandidates cornerWorld unitMap (0.4, 0) (snapSegments cornerScene (0, 0) unitMap) = [(-9.8, 0)]
   \<and> getResult unitMap (0, 0) (10 * 10) (Some (-9.8, 0))
        = Some \<lparr>vertex = (-9.8, 0), vertexPixel = (-10, 0)\<rparr>
   \<and> snapTo cornerWorld cornerScene (0, 0) (0.4, 0) unitMap = Inr None"
proof -
  have 1: "getResult unitMap (0, 0) (10 * 10) (Some (9.9, 1.5)) = None"
    by (simp add: getResult_Some_iff unitMap_def squaredDistance_def)
  have 2: "getResult unitMap (0, 0) (10 * 10) (Some (-9.8, 0))
        = Some \<lparr>vertex = (-9.8, 0), vertexPixel = (-10, 0)\<rparr>"
    by (simp add: getResult_Some_iff unitMap_def squaredDistance_def Math_round_def)
  from nearScene_snapEvent cornerScene_fields cornerScene_vertexPass 1
    cornerScene_edgeCandidates 2 cornerScene_snap
  show ?thesis by simp
qed

theorem edge_pass_selection_witness:
  "this_edge circleScene \<and> this_vertex circleScene
   \<and> snapSegments circleScene (10.05, 0) unitMap =
        [\<lparr>ol_uid = 1, feature = 1, segment = [(10, 0), (8, 6)]\<rparr>,
         \<lparr>ol_uid = 12, feature = 1, segment = [(8, - 6), (10, 0)]\<rparr>,
         \<lparr>ol_uid = 13, feature = 2, segment = [(10.5, - 5), (10.5, 5)]\<rparr>]
   \<and> getGeometry circleWorld 1 = Some (Circle (0, 0) 10)
   \<and> getGeometry circleWorld 2 = Some (LineString [(10.5, - 5), (10.5, 5)])
   \<and> vertexPass circleWorld unitMap (10.05, 0) (snapSegments circleScene (10.05, 0) unitMap) (None, None)
        = Inr (Some (10.5, - 5), Some 25.2025)
   \<and> getResult unitMap (10.05, 0) (1 * 1) (Some (10.5, - 5)) = None
   \<and> closestOnCircle circleWorld (10.05, 0) ((0, 0), 10) = (10, 0)
   \<and> edgeVertex circleWorld unitMap (10.05, 0) (Circle (0, 0) 10) [(10, 0), (8, 6)] = Some (10, 0)
   \<and> edgeVertex circleWorld unitMap (10.05, 0) (LineString [(10.5, - 5), (10.5, 5)])
        [(10.5, - 5), (10.5, 5)] = Some (closestOnSegment circleWorld (10.05, 0) [(10.5, - 5), (10.5, 5)])
   \<and> edgeCandidates circleWorld unitMap (10.05, 0) (snapSegments circleScene (10.05, 0) unitMap)
        = [(10, 0), (10, 0), (10.5, 0)]
   \<and> snapTo circleWorld circleScene (10.05, 0) (10.05, 0) unitMap
        = Inr (Some \<lparr>vertex = (10, 0), vertexPixel = (10, 0)\<rparr>)
   \<and> this_edge lineSceneEdgeOnly \<and> \<not> this_vertex lineSceneEdgeOnly
   \<and> edgeCandidates lineWorld unitMap (5, 0.2) (snapSegments lineSceneEdgeOnly (5, 0.2) unitMap) = [(5, 0)]
   \<and> snapTo lineWorld lineSceneEdgeOnly (5, 0.2) (5, 0.2) unitMap
        = Inr (Some \<lparr>vertex = (5, 0), vertexPixel = (5, 0)\<rparr>)
   \<and> snapSegments lineSceneEdgeOnly (5, 0.2) unitMap
        = [\<lparr>ol_uid = 1, feature = 1, segment = [(0, 0), (10, 0)]\<rparr>]
   \<and> getGeometry nullWorld 1 = None
   \<and> snapTo nullWorld lineSceneEdgeOnly (5, 0.2) (5, 0.2) unitMap = Inl TypeError
   \<and> this_edge cornerScene \<and> this_vertex cornerScene
   \<and> \<not> lessThanMin (squaredDistance (0.4, 0) (-9.8, 0)) (Some 92.5)
   \<and> snapTo cornerWorld cornerScene (0, 0) (0.4, 0) unitMap = Inr None"
proof -
  have pc: "fromUserCoordinate unitMap c = c" for c
    by (simp add: fromUserCoordinate_def unitMap_def)
  have uc: "toUserCoordinate unitMap c = c" "getUserProjection unitMap = None" for c
    by (simp_all add: toUserCoordinate_def unitMap_def)
  note t0 = edge_pass_selection [OF circleScene_fields(2), of "(10.05, 0)" unitMap circleWorld
      "(10.05, 0)" "(Some (10.5, - 5), Some 25.2025)"]
  have gc: "getGeometry circleWorld 1 = Some (Circle (0, 0) 10)"
    and gl: "getGeometry circleWorld 2 = Some (LineString [(10.5, - 5), (10.5, 5)])"
    by (simp_all add: circleWorld_def)
  have g0: "\<forall>sd \<in> set (snapSegments circleScene (10.05, 0) unitMap).
      getGeometry circleWorld (feature sd) \<noteq> None"
    unfolding circleScene_segments by (simp add: circleWorld_def)
  have v0: "(if this_vertex circleScene
        then vertexPass circleWorld unitMap (fromUserCoordinate unitMap (10.05, 0))
               (snapSegments circleScene (10.05, 0) unitMap) (None, None)
        else Inr (None, None)) = Inr (Some (10.5, - 5), Some 25.2025)"
    unfolding pc using circleScene_fields(1) circleScene_vertexPass by simp
  have r0: "getResult unitMap (10.05, 0) (1 * 1) (Some (10.5, - 5)) = None"
    by (simp add: getResult_Some_iff unitMap_def squaredDistance_def)
  have n0: "this_vertex circleScene \<longrightarrow>
      getResult unitMap (10.05, 0) (this_pixelTolerance circleScene * this_pixelTolerance circleScene)
        (fst (Some (10.5, - 5), Some (25.2025 :: real))) = None"
    using r0 by (simp add: circleScene_fields)
  have l0: "\<exists>c \<in> set (edgeCandidates circleWorld unitMap (fromUserCoordinate unitMap (10.05, 0))
        (snapSegments circleScene (10.05, 0) unitMap)).
      lessThanMin (squaredDistance (fromUserCoordinate unitMap (10.05, 0)) c)
        (snd (Some (10.5, - 5), Some (25.2025 :: real)))"
    unfolding pc circleScene_edgeCandidates by (simp add: lessThanMin_def squaredDistance_def)
  from t0 g0 v0 n0 l0 obtain c where
    c: "isClosest (squaredDistance (fromUserCoordinate unitMap (10.05, 0)))
          (edgeCandidates circleWorld unitMap (fromUserCoordinate unitMap (10.05, 0))
             (snapSegments circleScene (10.05, 0) unitMap)) c"
    and sn: "snapTo circleWorld circleScene (10.05, 0) (10.05, 0) unitMap =
        Inr (getResult unitMap (10.05, 0)
          (this_pixelTolerance circleScene * this_pixelTolerance circleScene) (Some c))"
    by blast
  from isClosest_set [OF c] have "c = (10, 0)"
    unfolding pc circleScene_edgeCandidates by (auto simp: squaredDistance_def)
  with sn have s0: "snapTo circleWorld circleScene (10.05, 0) (10.05, 0) unitMap
        = Inr (Some \<lparr>vertex = (10, 0), vertexPixel = (10, 0)\<rparr>)"
    by (simp add: circleScene_fields getResult_Some_iff unitMap_def squaredDistance_def Math_round_def)
  have cc: "closestOnCircle circleWorld (10.05, 0) ((0, 0), 10) = (10, 0)"
    using circleScene_closestOnCircle by (simp add: circleWorld_def)
  have m1: "\<lparr>ol_uid = 1, feature = 1, segment = [(10, 0), (8, 6)]\<rparr>
      \<in> set (snapSegments circleScene (10.05, 0) unitMap)"
    unfolding circleScene_segments by simp
  have m13: "\<lparr>ol_uid = 13, feature = 2, segment = [(10.5, - 5), (10.5, 5)]\<rparr>
      \<in> set (snapSegments circleScene (10.05, 0) unitMap)"
    unfolding circleScene_segments by simp
  have gc': "getGeometry circleWorld (feature \<lparr>ol_uid = 1, feature = 1, segment = [(10, 0), (8, 6)]\<rparr>)
      = Some (Circle (0, 0) 10)"
    using gc by simp
  note tC = t0 [THEN conjunct2, THEN conjunct2, THEN conjunct1, rule_format, OF m1 gc', THEN conjunct1]
  note tD = t0 [THEN conjunct2, THEN conjunct2, THEN conjunct2, rule_format, OF m13, THEN conjunct1]
  from tC
  have "edgeVertex circleWorld unitMap (fromUserCoordinate unitMap (10.05, 0)) (Circle (0, 0) 10)
      (segment \<lparr>ol_uid = 1, feature = 1, segment = [(10, 0), (8, 6)]\<rparr>)
      = Some (toUserCoordinate unitMap
          (closestOnCircle circleWorld (fromUserCoordinate unitMap (10.05, 0))
             (case getUserProjection unitMap of None \<Rightarrow> ((0, 0), 10)
              | Some up \<Rightarrow> circle_to_view up ((0, 0), 10))))" .
  then have e0: "edgeVertex circleWorld unitMap (10.05, 0) (Circle (0, 0) 10) [(10, 0), (8, 6)]
      = Some (10, 0)"
    unfolding pc uc using cc by simp
  have "getGeometry circleWorld (feature \<lparr>ol_uid = 13, feature = 2, segment = [(10.5, - 5), (10.5, 5)]\<rparr>)
        = Some (LineString [(10.5, - 5), (10.5, 5)])
      \<and> getType (LineString [(10.5, - 5), (10.5, 5)]) \<noteq> CIRCLE
      \<and> segment \<lparr>ol_uid = 13, feature = 2, segment = [(10.5, - 5), (10.5, 5)]\<rparr>
          = (10.5, - 5) # (10.5, 5) # []"
    using gl by simp
  from tD [OF this]
  have "edgeVertex circleWorld unitMap (fromUserCoordinate unitMap (10.05, 0))
      (LineString [(10.5, - 5), (10.5, 5)])
      (segment \<lparr>ol_uid = 13, feature = 2, segment = [(10.5, - 5), (10.5, 5)]\<rparr>)
      = Some (closestOnSegment circleWorld (fromUserCoordinate unitMap (10.05, 0))
          [fromUserCoordinate unitMap (10.5, - 5), fromUserCoordinate unitMap (10.5, 5)])" .
  then have e13: "edgeVertex circleWorld unitMap (10.05, 0) (LineString [(10.5, - 5), (10.5, 5)])
        [(10.5, - 5), (10.5, 5)] = Some (closestOnSegment circleWorld (10.05, 0) [(10.5, - 5), (10.5, 5)])"
    unfolding pc by simp
  have g1: "\<forall>sd \<in> set (snapSegments lineSceneEdgeOnly (5, 0.2) unitMap).
      getGeometry lineWorld (feature sd) \<noteq> None"
    unfolding lineSceneEdgeOnly_segments by (simp add: lineWorld_def sceneWorld_def)
  have c1: "edgeCandidates lineWorld unitMap (5, 0.2) (snapSegments lineSceneEdgeOnly (5, 0.2) unitMap)
      = [(5, 0)]"
    unfolding lineSceneEdgeOnly_segments
    by (simp add: edgeCandidates_def lineWorld_def sceneWorld_def unitMap_def fromUserCoordinate_def
        closestOnSegment_std_def)
  have r1: "getResult unitMap (5, 0.2) (10 * 10) (Some (5, 0)) = Some \<lparr>vertex = (5, 0), vertexPixel = (5, 0)\<rparr>"
    by (simp add: getResult_Some_iff unitMap_def squaredDistance_def Math_round_def)
  have v1: "(if this_vertex lineSceneEdgeOnly
        then vertexPass lineWorld unitMap (fromUserCoordinate unitMap (5, 0.2))
               (snapSegments lineSceneEdgeOnly (5, 0.2) unitMap) (None, None)
        else Inr (None, None)) = Inr (None, None)"
    using lineSceneEdgeOnly_fields(1) by simp
  have n1: "this_vertex lineSceneEdgeOnly \<longrightarrow>
      getResult unitMap (5, 0.2)
        (this_pixelTolerance lineSceneEdgeOnly * this_pixelTolerance lineSceneEdgeOnly)
        (fst (None :: coordinate option, None :: real option)) = None"
    by simp
  from edge_pass_selection [OF lineSceneEdgeOnly_fields(2), of "(5, 0.2)" unitMap lineWorld
      "(5, 0.2)" "(None, None)"] g1 v1 n1
  have s1: "snapTo lineWorld lineSceneEdgeOnly (5, 0.2) (5, 0.2) unitMap
        = Inr (Some \<lparr>vertex = (5, 0), vertexPixel = (5, 0)\<rparr>)"
    unfolding pc c1 using r1
    by (simp add: lessThanMin_def isClosest_def lineSceneEdgeOnly_fields)
  have gn: "getGeometry nullWorld 1 = None"
    by (simp add: nullWorld_def sceneWorld_def)
  then have "\<exists>sd \<in> set (snapSegments lineSceneEdgeOnly (5, 0.2) unitMap).
      getGeometry nullWorld (feature sd) = None"
    unfolding lineSceneEdgeOnly_segments by simp
  with edge_pass_selection [OF lineSceneEdgeOnly_fields(2), of "(5, 0.2)" unitMap nullWorld
      "(5, 0.2)" "(None, None)"]
  have sn: "snapTo nullWorld lineSceneEdgeOnly (5, 0.2) (5, 0.2) unitMap = Inl TypeError"
    by blast
  have g2: "\<forall>sd \<in> set (snapSegments cornerScene (0, 0) unitMap).
      getGeometry cornerWorld (feature sd) \<noteq> None"
    unfolding cornerScene_segments by (simp add: cornerWorld_def sceneWorld_def)
  have v2: "(if this_vertex cornerScene
        then vertexPass cornerWorld unitMap (fromUserCoordinate unitMap (0.4, 0))
               (snapSegments cornerScene (0, 0) unitMap) (None, None)
        else Inr (None, None)) = Inr (Some (9.9, 1.5), Some 92.5)"
    unfolding pc using cornerScene_fields(1) cornerScene_vertexPass by simp
  have n2: "this_vertex cornerScene \<longrightarrow>
      getResult unitMap (0, 0) (this_pixelTolerance cornerScene * this_pixelTolerance cornerScene)
        (fst (Some (9.9, 1.5), Some (92.5 :: real))) = None"
    by (simp add: cornerScene_fields getResult_Some_iff unitMap_def squaredDistance_def)
  have l2: "\<not> lessThanMin (squaredDistance (0.4, 0) (-9.8, 0)) (Some 92.5)"
    by (simp add: lessThanMin_def squaredDistance_def)
  from edge_pass_selection [OF cornerScene_fields(2), of "(0, 0)" unitMap cornerWorld
      "(0.4, 0)" "(Some (9.9, 1.5), Some 92.5)"] g2 v2 n2
  have s2: "snapTo cornerWorld cornerScene (0, 0) (0.4, 0) unitMap = Inr None"
    unfolding pc cornerScene_edgeCandidates using l2 by simp
  show ?thesis
    by (intro conjI)
      (fact circleScene_fields(1,2) circleScene_segments gc gl circleScene_vertexPass r0 cc e0 e13
        circleScene_edgeCandidates s0 lineSceneEdgeOnly_fields(1,2) c1 s1
        lineSceneEdgeOnly_segments gn sn cornerScene_fields(1,2) l2 s2)+
qed

section \<open>The feature registry\<close>

lemma nodesToRemove_eq:
  "forEachInExtent rb e (\<lambda>node nodes. if feat = feature node then nodes @ [node] else nodes) acc =
     acc @ filter (\<lambda>node. feat = feature node) (getInExtent rb e)"
proof -
  have "fold (\<lambda>node nodes. if feat = feature node then nodes @ [node] else nodes) xs acc =
        acc @ filter (\<lambda>node. feat = feature node) xs" for xs :: "segmentData list"
    by (induction xs arbitrary: acc) simp_all
  then show ?thesis by (simp add: forEachInExtent_def)
qed

lemma fold_rbush_remove:
  "fold rbush_remove ns rb =
     rb\<lparr>items := filter (\<lambda>(e, v). ol_uid v \<notin> ol_uid ` set ns) (items rb)\<rparr>"
proof (induction ns arbitrary: rb)
  case Nil
  show ?case by simp
next
  case (Cons n ns)
  have "filter (\<lambda>(e, v). ol_uid v \<notin> ol_uid ` set ns) (filter (\<lambda>(e, v'). ol_uid v' \<noteq> ol_uid n) xs) =
        filter (\<lambda>(e, v). ol_uid v \<notin> ol_uid ` set (n # ns)) xs" for xs :: "(extent \<times> segmentData) list"
    by (induction xs) auto
  then have "(rbush_remove n rb)\<lparr>items :=
        filter (\<lambda>(e, v). ol_uid v \<notin> ol_uid ` set ns) (items (rbush_remove n rb))\<rparr> =
      rb\<lparr>items := filter (\<lambda>(e, v). ol_uid v \<notin> ol_uid ` set (n # ns)) (items rb)\<rparr>"
    by (simp add: rbush_remove_def)
  moreover have "fold rbush_remove (n # ns) rb = fold rbush_remove ns (rbush_remove n rb)"
    by simp
  ultimately show ?case by (simp only: Cons)
qed

lemma removeFeature_ledger:
  "this_indexedFeaturesExtents (removeFeature this feat u) = this_indexedFeaturesExtents this"
  by (simp add: removeFeature_def Let_def split: option.splits)

lemma removeFeature_rBush:
  "this_rBush (removeFeature this feat u) =
     (case this_indexedFeaturesExtents this (getUid feat) of
        None \<Rightarrow> this_rBush this
      | Some extent \<Rightarrow>
          (this_rBush this)\<lparr>items :=
             filter (\<lambda>(e, v). ol_uid v \<notin> ol_uid `
                       {node \<in> set (getInExtent (this_rBush this) extent). feat = feature node})
               (items (this_rBush this))\<rparr>)"
  by (simp add: removeFeature_def Let_def nodesToRemove_eq fold_rbush_remove split: option.splits)

lemma removeFeature_clears_extent:
  assumes "this_indexedFeaturesExtents this (getUid feat) = Some extent"
  shows "\<forall>sd \<in> set (getInExtent (this_rBush (removeFeature this feat u)) extent). feature sd \<noteq> feat"
proof
  fix sd
  assume "sd \<in> set (getInExtent (this_rBush (removeFeature this feat u)) extent)"
  then obtain e where in_after: "(e, sd) \<in> set (items (this_rBush (removeFeature this feat u)))"
    and hit: "intersects e extent"
    by (auto simp: getInExtent_def)
  from in_after assms have in_before: "(e, sd) \<in> set (items (this_rBush this))"
    and kept: "ol_uid sd \<notin> ol_uid ` {node \<in> set (getInExtent (this_rBush this) extent). feat = feature node}"
    by (auto simp: removeFeature_rBush)
  from in_before hit have "sd \<in> set (getInExtent (this_rBush this) extent)"
    by (force simp: getInExtent_def)
  with kept show "feature sd \<noteq> feat" by blast
qed

lemma removeFeature_subset:
  "set (items (this_rBush (removeFeature this feat u))) \<subseteq> set (items (this_rBush this))"
  by (auto simp: removeFeature_rBush split: option.splits)

lemma removeFeature_all:
  assumes "this_indexedFeaturesExtents this (getUid feat) = Some extent"
    and "\<forall>(e, v) \<in> set (items (this_rBush this)). feature v = feat \<longrightarrow> intersects e extent"
  shows "\<forall>(e, v) \<in> set (items (this_rBush (removeFeature this feat u))). feature v \<noteq> feat"
proof -
  have False if in_after: "(e, v) \<in> set (items (this_rBush (removeFeature this feat u)))"
    and f: "feature v = feat" for e v
  proof -
    from in_after removeFeature_subset have "(e, v) \<in> set (items (this_rBush this))" by blast
    with assms(2) f have "intersects e extent" by blast
    with in_after have "v \<in> set (getInExtent (this_rBush (removeFeature this feat u)) extent)"
      by (force simp: getInExtent_def)
    with removeFeature_clears_extent [OF assms(1), of u] f show False by blast
  qed
  then show ?thesis by blast
qed

lemma removeFeature_exact:
  assumes "distinct (map (\<lambda>(e, v). ol_uid v) (items (this_rBush this)))"
    and "this_indexedFeaturesExtents this (getUid feat) = Some extent"
  shows "items (this_rBush (removeFeature this feat u)) =
           filter (\<lambda>(e, v). \<not> (intersects e extent \<and> feature v = feat)) (items (this_rBush this))"
proof -
  let ?items = "items (this_rBush this)"
  have inj: "inj_on (\<lambda>(e, v). ol_uid v) (set ?items)"
    using assms(1) by (simp add: distinct_map)
  have "(ol_uid v \<notin> ol_uid ` {node \<in> set (getInExtent (this_rBush this) extent). feat = feature node})
        = (\<not> (intersects e extent \<and> feature v = feat))" if "(e, v) \<in> set ?items" for e v
  proof
    assume a: "ol_uid v \<notin> ol_uid ` {node \<in> set (getInExtent (this_rBush this) extent). feat = feature node}"
    show "\<not> (intersects e extent \<and> feature v = feat)"
    proof
      assume "intersects e extent \<and> feature v = feat"
      with that have "v \<in> {node \<in> set (getInExtent (this_rBush this) extent). feat = feature node}"
        by (force simp: getInExtent_def)
      with a show False by blast
    qed
  next
    assume b: "\<not> (intersects e extent \<and> feature v = feat)"
    show "ol_uid v \<notin> ol_uid ` {node \<in> set (getInExtent (this_rBush this) extent). feat = feature node}"
    proof
      assume "ol_uid v \<in> ol_uid ` {node \<in> set (getInExtent (this_rBush this) extent). feat = feature node}"
      then obtain e' n where n: "(e', n) \<in> set ?items" "intersects e' extent" "feat = feature n"
        "ol_uid v = ol_uid n"
        by (auto simp: getInExtent_def)
      from inj_onD [OF inj, of "(e, v)" "(e', n)"] that n(1,4) have "(e, v) = (e', n)"
        by simp
      with n b show False by simp
    qed
  qed
  then have "filter (\<lambda>(e, v). ol_uid v \<notin> ol_uid `
                       {node \<in> set (getInExtent (this_rBush this) extent). feat = feature node}) ?items
      = filter (\<lambda>(e, v). \<not> (intersects e extent \<and> feature v = feat)) ?items"
    by (intro filter_cong refl) auto
  with assms(2) show ?thesis by (simp add: removeFeature_rBush)
qed

lemma segmenters_total:
  "m \<noteq> None \<Longrightarrow> \<exists>segments'. GEOMETRY_SEGMENTERS w m segments g = Inr segments'"
  "m \<noteq> None \<Longrightarrow> \<exists>segments'. segmentGeometryCollectionGemetry w m segments gs = Inr segments'"
proof (induction w m segments g and w m segments gs
    rule: GEOMETRY_SEGMENTERS_segmentGeometryCollectionGemetry.induct)
  case (9 w m segments c r)
  then show ?case by (auto simp: segmentCircleGemetry_def)
next
  case (12 w m segments g gs)
  show ?case
  proof (cases "hasSegmenter (getType g)")
    case True
    from 12(1) [OF True 12(4)] obtain s1 where s1: "GEOMETRY_SEGMENTERS w m segments g = Inr s1"
      by blast
    from 12(2) [OF True s1 12(4)] s1 True show ?thesis by simp
  next
    case False
    with 12(3) [OF False 12(4)] show ?thesis by simp
  qed
qed simp_all

lemma addFeature_unsegmented:
  assumes "getGeometry w feat = None
           \<or> (\<exists>g. getGeometry w feat = Some g \<and> \<not> hasSegmenter (getType g))"
  shows "addFeature w this feat l =
           Inr (if (case l of None \<Rightarrow> True | Some b \<Rightarrow> b)
                then this\<lparr>this_featureChangeListenerKeys :=
                       (this_featureChangeListenerKeys this)
                         (getUid feat \<mapsto> listen (FeatureTarget feat) CHANGE)\<rparr>
                else this)"
  using assms by (auto simp: addFeature_def Let_def)

lemma addFeature_ledger:
  assumes "getGeometry w feat = Some g" and "hasSegmenter (getType g)"
    and "addFeature w this feat l = Inr this1"
  shows "this_indexedFeaturesExtents this1 =
           (this_indexedFeaturesExtents this)(getUid feat \<mapsto> getExtent g)"
  using assms
  by (auto simp: addFeature_def Let_def split: sum.splits if_splits)

lemma addFeature_total:
  assumes "this_map this \<noteq> None"
  shows "\<exists>this1. addFeature w this feat l = Inr this1"
proof (cases "getGeometry w feat")
  case None
  then show ?thesis by (simp add: addFeature_unsegmented)
next
  case (Some g)
  show ?thesis
  proof (cases "hasSegmenter (getType g)")
    case False
    with Some show ?thesis by (simp add: addFeature_unsegmented)
  next
    case True
    from segmenters_total(1) [OF assms] obtain segments where
      "GEOMETRY_SEGMENTERS w (this_map this) [] g = Inr segments" by blast
    with Some True show ?thesis
      by (simp add: addFeature_def Let_def)
  qed
qed

lemma contains_extendCoordinate:
  "containsCoordinate (extendCoordinate e p) p"
  "containsCoordinate e q \<Longrightarrow> containsCoordinate (extendCoordinate e p) q"
  by (cases e; cases p; cases q; auto)+

lemma contains_fold_extendCoordinate:
  "p \<in> set cs \<or> containsCoordinate e p \<Longrightarrow>
   containsCoordinate (fold (\<lambda>c e. extendCoordinate e c) cs e) p"
  by (induction cs arbitrary: e) (auto simp: contains_extendCoordinate)

lemma contains_boundingExtent:
  "p \<in> set cs \<Longrightarrow> containsCoordinate (boundingExtent cs) p"
  by (simp add: boundingExtent_def contains_fold_extendCoordinate)

lemma contains_extend:
  "containsCoordinate e p \<Longrightarrow> containsCoordinate (extend_extent e e') p"
  "containsCoordinate e' p \<Longrightarrow> containsCoordinate (extend_extent e e') p"
  by (cases e; cases e'; cases p; auto)+

lemma contains_fold_extend:
  "(\<exists>g \<in> set gs. containsCoordinate (ext g) p) \<or> containsCoordinate e p \<Longrightarrow>
   containsCoordinate (fold (\<lambda>g e. extend_extent e (ext g)) gs e) p"
  by (induction gs arbitrary: e) (auto simp: contains_extend)

lemma contains_intersects:
  "containsCoordinate e p \<Longrightarrow> containsCoordinate e' p \<Longrightarrow> intersects e e'"
  by (cases e; cases e'; cases p; auto)

lemma segment_intersects:
  assumes "s \<noteq> []" and "\<forall>p \<in> set s. containsCoordinate e p"
  shows "intersects (boundingExtent s) e"
proof -
  from assms(1) have "hd s \<in> set s" by simp
  with assms(2) contains_boundingExtent [of "hd s" s] show ?thesis
    by (blast intro: contains_intersects)
qed

lemma segmentsWithin_append [simp]:
  "segmentsWithin e (xs @ ys) = (segmentsWithin e xs \<and> segmentsWithin e ys)"
  by (auto simp: segmentsWithin_def)

lemma segmentsWithin_Nil [simp]: "segmentsWithin e []"
  by (simp add: segmentsWithin_def)

lemma pushSegments_within:
  assumes "\<forall>p \<in> set cs. containsCoordinate e p"
  shows "\<exists>new. pushSegments segments cs = segments @ new \<and> segmentsWithin e new"
proof -
  have "segmentsWithin e (map (\<lambda>i. [cs ! i, cs ! Suc i]) [0..<length cs - 1])"
    using assms by (auto simp: segmentsWithin_def)
  then show ?thesis by (simp add: pushSegments_eq)
qed

lemma fold_pushSegments_within:
  assumes "\<forall>cs \<in> set rings. \<forall>p \<in> set cs. containsCoordinate e p"
  shows "\<exists>new. fold (\<lambda>coordinates segs. pushSegments segs coordinates) rings segments = segments @ new
           \<and> segmentsWithin e new"
  using assms
proof (induction rings arbitrary: segments)
  case Nil
  show ?case by simp
next
  case (Cons cs rings)
  from pushSegments_within [of cs e segments] Cons.prems obtain new1 where
    1: "pushSegments segments cs = segments @ new1" "segmentsWithin e new1" by auto
  from Cons.IH [of "segments @ new1"] Cons.prems obtain new2 where
    2: "fold (\<lambda>coordinates segs. pushSegments segs coordinates) rings (segments @ new1)
          = (segments @ new1) @ new2" "segmentsWithin e new2" by auto
  from 1 2 show ?case by (intro exI [of _ "new1 @ new2"]) simp
qed

lemma segmentsWithinSome_simps [simp]:
  "segmentsWithinSome gs []"
  "segmentsWithinSome gs (xs @ ys) = (segmentsWithinSome gs xs \<and> segmentsWithinSome gs ys)"
  by (auto simp: segmentsWithinSome_def)

lemma segmentsWithinSome_Cons:
  "segmentsWithin (getExtent g) segs \<Longrightarrow> segmentsWithinSome (g # gs) segs"
  "segmentsWithinSome gs segs \<Longrightarrow> segmentsWithinSome (g # gs) segs"
  by (auto simp: segmentsWithinSome_def segmentsWithin_def)

lemma circlesWithinExtent_member:
  "circlesWithinExtent w m (GeometryCollection gs) \<Longrightarrow> g \<in> set gs \<Longrightarrow> circlesWithinExtent w m g"
  by (auto simp: circlesWithinExtent_def)

lemma segmenters_within:
  "GEOMETRY_SEGMENTERS w m segments g = Inr segments' \<Longrightarrow> circlesWithinExtent w m g \<Longrightarrow>
     \<exists>new. segments' = segments @ new \<and> segmentsWithin (getExtent g) new"
  "segmentGeometryCollectionGemetry w m segments gs = Inr segments' \<Longrightarrow>
     \<forall>g \<in> set gs. circlesWithinExtent w m g \<Longrightarrow>
     \<exists>new. segments' = segments @ new \<and> segmentsWithinSome gs new"
proof (induction w m segments g and w m segments gs arbitrary: segments' and segments'
    rule: GEOMETRY_SEGMENTERS_segmentGeometryCollectionGemetry.induct)
  case (1 w m segments c)
  then show ?case
    by (auto simp: segmentPointGemetry_def segmentsWithin_def contains_boundingExtent)
next
  case (2 w m segments cs)
  with pushSegments_within [of cs "boundingExtent cs" segments] show ?case
    by (auto simp: segmentLineStringGemetry_def contains_boundingExtent)
next
  case (3 w m segments cs)
  with pushSegments_within [of cs "boundingExtent cs" segments] show ?case
    by (auto simp: segmentLineStringGemetry_def contains_boundingExtent)
next
  case (4 w m segments rs)
  have "\<forall>cs \<in> set rs. \<forall>p \<in> set cs. containsCoordinate (boundingExtent (concat rs)) p"
    by (auto intro!: contains_boundingExtent)
  from fold_pushSegments_within [OF this, of segments] 4 show ?case
    by (simp add: segmentPolygonGemetry_def)
next
  case (5 w m segments cs)
  have "fold (\<lambda>point segs. segs @ [[point]]) cs segs = segs @ map (\<lambda>p. [p]) cs"
    for segs :: "segment list"
    by (induction cs arbitrary: segs) simp_all
  with 5 show ?case
    by (auto simp: segmentMultiPointGemetry_def segmentsWithin_def contains_boundingExtent)
next
  case (6 w m segments ls)
  have "\<forall>cs \<in> set ls. \<forall>p \<in> set cs. containsCoordinate (boundingExtent (concat ls)) p"
    by (auto intro!: contains_boundingExtent)
  from fold_pushSegments_within [OF this, of segments] 6 show ?case
    by (simp add: segmentMultiLineStringGemetry_def)
next
  case (7 w m segments ps)
  let ?e = "boundingExtent (concat (concat ps))"
  have "\<exists>new. fold (\<lambda>rings segs. fold (\<lambda>coordinates segs'. pushSegments segs' coordinates) rings segs)
               qs segs = segs @ new \<and> segmentsWithin ?e new"
    if "set qs \<subseteq> set ps" for qs segs
    using that
  proof (induction qs arbitrary: segs)
    case Nil
    show ?case by simp
  next
    case (Cons rings qs)
    then have "rings \<in> set ps" by simp
    then have "\<forall>cs \<in> set rings. \<forall>p \<in> set cs. p \<in> set (concat (concat ps))"
      by auto
    then have "\<forall>cs \<in> set rings. \<forall>p \<in> set cs. containsCoordinate ?e p"
      by (blast intro: contains_boundingExtent)
    from fold_pushSegments_within [OF this, of segs] obtain new1 where
      1: "fold (\<lambda>coordinates segs'. pushSegments segs' coordinates) rings segs = segs @ new1"
         "segmentsWithin ?e new1" by blast
    from Cons.IH [of "segs @ new1"] Cons.prems obtain new2 where
      2: "fold (\<lambda>rings segs. fold (\<lambda>coordinates segs'. pushSegments segs' coordinates) rings segs)
            qs (segs @ new1) = (segs @ new1) @ new2" "segmentsWithin ?e new2" by auto
    from 1 2 show ?case by (intro exI [of _ "new1 @ new2"]) simp
  qed
  from this [of ps segments] 7 show ?case
    by (auto simp: segmentMultiPolygonGemetry_def)
next
  case (8 w m segments gs)
  from 8(3) have "\<forall>g \<in> set gs. circlesWithinExtent w m g"
    by (blast intro: circlesWithinExtent_member)
  from 8(1) [OF _ this, of segments'] 8(2) obtain new where
    new: "segments' = segments @ new" "segmentsWithinSome gs new" by auto
  have "segmentsWithin (getExtent (GeometryCollection gs)) new"
    using new(2) by (auto simp: segmentsWithin_def segmentsWithinSome_def intro!: contains_fold_extend)
  with new(1) show ?case by blast
next
  case (9 w m segments c r)
  then obtain m' where m': "m = Some m'" "segments' = pushSegments segments (circleCoordinates w m' (c, r))"
    by (auto simp: segmentCircleGemetry_def split: option.splits)
  with 9(2) have "\<forall>p \<in> set (circleCoordinates w m' (c, r)). containsCoordinate (getExtent (Circle c r)) p"
    by (auto simp: circlesWithinExtent_def)
  from pushSegments_within [OF this, of segments] m' show ?case by simp
next
  case (10 w m segments e)
  then show ?case by simp
next
  case (11 w m segments)
  then show ?case by simp
next
  case (12 w m segments g gs)
  show ?case
  proof (cases "hasSegmenter (getType g)")
    case False
    with 12(3) [OF False, of segments'] 12(4,5) obtain new where
      "segments' = segments @ new" "segmentsWithinSome gs new" by auto
    then show ?thesis by (blast intro: segmentsWithinSome_Cons)
  next
    case True
    with 12(4) obtain s1 where s1: "GEOMETRY_SEGMENTERS w m segments g = Inr s1"
      "segmentGeometryCollectionGemetry w m s1 gs = Inr segments'"
      by (auto split: sum.splits)
    from 12(1) [OF True s1(1)] 12(5) obtain new1 where
      1: "s1 = segments @ new1" "segmentsWithin (getExtent g) new1" by auto
    from 12(2) [OF True s1(1) s1(2)] 12(5) obtain new2 where
      2: "segments' = s1 @ new2" "segmentsWithinSome gs new2" by auto
    from 1 2 show ?thesis
      by (intro exI [of _ "new1 @ new2"]) (simp add: segmentsWithinSome_Cons)
  qed
qed

lemma rbush_insert_items:
  "items (rbush_insert e v rb) = items rb @ [(e, v\<lparr>ol_uid := uidCounter rb + 1\<rparr>)]"
  by (simp add: rbush_insert_def Let_def)

lemma rbush_load_items:
  fixes f :: "segment \<Rightarrow> extent" and g :: "segment \<Rightarrow> segmentData"
  assumes "(e, v) \<in> set (items (rbush_load (map f segs) (map g segs) rb))"
  shows "(e, v) \<in> set (items rb)
         \<or> (\<exists>s \<in> set segs. e = f s \<and> feature v = feature (g s) \<and> segment v = segment (g s))"
proof -
  have z: "zip (map f segs) (map g segs) = map (\<lambda>s. (f s, g s)) segs" for segs :: "segment list"
    by (induction segs) simp_all
  have "(e, v) \<in> set (items (fold (\<lambda>(e, v) rb'. rbush_insert e v rb') (map (\<lambda>s. (f s, g s)) segs) rb))
        \<Longrightarrow> (e, v) \<in> set (items rb)
         \<or> (\<exists>s \<in> set segs. e = f s \<and> feature v = feature (g s) \<and> segment v = segment (g s))"
    for rb
  proof (induction segs arbitrary: rb)
    case Nil
    then show ?case by simp
  next
    case (Cons s segs)
    from Cons.IH [of "rbush_insert (f s) (g s) rb"] Cons.prems
    show ?case by (auto simp: rbush_insert_items)
  qed
  with assms show ?thesis by (simp add: rbush_load_def z)
qed

lemma addFeature_items:
  assumes "getGeometry w feat = Some g" and "hasSegmenter (getType g)"
    and "addFeature w this feat l = Inr this1"
    and "circlesWithinExtent w (this_map this) g"
    and "(e, v) \<in> set (items (this_rBush this1))"
  shows "(e, v) \<in> set (items (this_rBush this))
         \<or> (feature v = feat \<and> intersects e (getExtent g))"
proof -
  from assms(1-3) obtain segments where
    seg: "GEOMETRY_SEGMENTERS w (this_map this) [] g = Inr segments"
    by (auto simp: addFeature_def Let_def split: sum.splits)
  from segmenters_within(1) [OF seg assms(4)] have within: "segmentsWithin (getExtent g) segments"
    by auto
  have hit: "intersects (boundingExtent s) (getExtent g)" if "s \<in> set segments" for s
    using within that by (intro segment_intersects) (auto simp: segmentsWithin_def)
  consider "length segments = 1" | "length segments > 1" | "segments = []"
    by (cases segments) auto
  then show ?thesis
  proof cases
    case 1
    then have "segments ! 0 \<in> set segments" by simp
    with 1 assms(1-3,5) seg hit [of "segments ! 0"] show ?thesis
      by (auto simp: addFeature_def Let_def rbush_insert_items split: if_splits)
  next
    case 2
    with assms(1-3) seg have "this_rBush this1 =
        rbush_load (map boundingExtent segments)
          (map (\<lambda>s. \<lparr>ol_uid = 0, feature = feat, segment = s\<rparr>) segments) (this_rBush this)"
      by (auto simp: addFeature_def Let_def split: if_splits)
    with rbush_load_items [of e v boundingExtent segments
        "\<lambda>s. \<lparr>ol_uid = 0, feature = feat, segment = s\<rparr>" "this_rBush this"] assms(5) hit
    show ?thesis by auto
  next
    case 3
    with assms(1-3,5) seg show ?thesis
      by (auto simp: addFeature_def Let_def split: if_splits)
  qed
qed

lemma add_then_remove_leaves_none:
  assumes "getGeometry w feat = Some g" and "hasSegmenter (getType g)"
    and "addFeature w this feat l = Inr this1"
    and "circlesWithinExtent w (this_map this) g"
    and "\<forall>(e, v) \<in> set (items (this_rBush this)). feature v \<noteq> feat"
  shows "\<forall>(e, v) \<in> set (items (this_rBush (removeFeature this1 feat u))). feature v \<noteq> feat"
proof -
  have False if in_after: "(e, v) \<in> set (items (this_rBush (removeFeature this1 feat u)))"
    and f: "feature v = feat" for e v
  proof -
  from in_after removeFeature_subset have "(e, v) \<in> set (items (this_rBush this1))" by blast
  from addFeature_items [OF assms(1-4) this] assms(5) f have "intersects e (getExtent g)" by auto
  with in_after have "v \<in> set (getInExtent (this_rBush (removeFeature this1 feat u)) (getExtent g))"
    by (force simp: getInExtent_def)
  moreover from addFeature_ledger [OF assms(1-3)]
  have "this_indexedFeaturesExtents this1 (getUid feat) = Some (getExtent g)" by simp
  from removeFeature_clears_extent [OF this]
  have "\<forall>sd \<in> set (getInExtent (this_rBush (removeFeature this1 feat u)) (getExtent g)).
          feature sd \<noteq> feat" .
  ultimately show False using f by blast
  qed
  then show ?thesis by blast
qed

lemma fromCircle_std_within:
  assumes "0 \<le> r" and "p \<in> set (fromCircle_std (c, r))"
  shows "containsCoordinate (getExtent (Circle c r)) p"
proof -
  from assms(2) have "p \<in> (\<lambda>i. (fst c + r * cos (real (i mod 32) * 2 * pi / real (32 :: nat)),
        snd c + r * sin (real (i mod 32) * 2 * pi / real (32 :: nat)))) ` set [0..<32 + 1]"
    by (simp only: fromCircle_std_def Let_def set_map fst_conv snd_conv)
  then obtain a where p: "p = (fst c + r * cos a, snd c + r * sin a)"
    by blast
  have 1: "r * cos a \<le> r * 1" and 2: "r * sin a \<le> r * 1"
    using assms(1) by (intro mult_left_mono; simp)+
  have 3: "r * (- 1) \<le> r * cos a" and 4: "r * (- 1) \<le> r * sin a"
    using assms(1) by (intro mult_left_mono; simp)+
  from 1 2 3 4 show ?thesis by (simp add: p)
qed

lemma circlesWithinExtent_std:
  assumes "fromCircle w = fromCircle_std" and "\<forall>m. theMap = Some m \<longrightarrow> getUserProjection m = None"
    and "\<forall>(c, r) \<in> set (circlesOf g). 0 \<le> r"
  shows "circlesWithinExtent w theMap g"
  unfolding circlesWithinExtent_def
proof (intro allI impI ballI, clarify)
  fix m c r p
  assume "theMap = Some m" and c: "(c, r) \<in> set (circlesOf g)"
    and p: "p \<in> set (circleCoordinates w m (c, r))"
  with assms(1,2) have "p \<in> set (fromCircle_std (c, r))"
    by (simp add: circleCoordinates_def)
  moreover from assms(3) c have "0 \<le> r" by auto
  ultimately show "containsCoordinate (getExtent (Circle c r)) p"
    by (intro fromCircle_std_within)
qed

text \<open>
  C3. For a feature with a geometry that has a segmenter, \<open>addFeature\<close> returns once the
  interaction is attached to a map, it records the extent of the geometry in the ledger,
  and after \<open>removeFeature\<close> a query of the index over that extent returns no entry that
  references the feature. When the ring computed for each circle stays within the circle's
  extent and the index held no entry of the feature before, no entry of the feature is
  left in the index at all.
\<close>

theorem add_then_remove_clears_extent:
  assumes "getGeometry w feat = Some g" and "hasSegmenter (getType g)"
  shows "(this_map this \<noteq> None \<longrightarrow> (\<exists>this1. addFeature w this feat l = Inr this1))
       \<and> (\<forall>this1. addFeature w this feat l = Inr this1 \<longrightarrow>
             this_indexedFeaturesExtents this1 (getUid feat) = Some (getExtent g)
             \<and> (\<forall>sd \<in> set (getInExtent (this_rBush (removeFeature this1 feat u)) (getExtent g)).
                   feature sd \<noteq> feat)
             \<and> (circlesWithinExtent w (this_map this) g
                  \<and> (\<forall>(e, v) \<in> set (items (this_rBush this)). feature v \<noteq> feat)
                \<longrightarrow> (\<forall>(e, v) \<in> set (items (this_rBush (removeFeature this1 feat u))).
                       feature v \<noteq> feat)))"
proof (intro conjI impI allI)
  assume "this_map this \<noteq> None"
  then show "\<exists>this1. addFeature w this feat l = Inr this1" by (rule addFeature_total)
next
  fix this1
  assume a: "addFeature w this feat l = Inr this1"
  from addFeature_ledger [OF assms a]
  show l: "this_indexedFeaturesExtents this1 (getUid feat) = Some (getExtent g)" by simp
  from removeFeature_clears_extent [OF l]
  show "\<forall>sd \<in> set (getInExtent (this_rBush (removeFeature this1 feat u)) (getExtent g)).
          feature sd \<noteq> feat" .
  assume "circlesWithinExtent w (this_map this) g
          \<and> (\<forall>(e, v) \<in> set (items (this_rBush this)). feature v \<noteq> feat)"
  with add_then_remove_leaves_none [OF assms a]
  show "\<forall>(e, v) \<in> set (items (this_rBush (removeFeature this1 feat u))). feature v \<noteq> feat"
    by blast
qed

text \<open>
  C2, as amended. \<open>removeFeature\<close> removes the entries of the feature that intersect its
  ledgered extent (exactly those, when the identities of the entries are distinct; all
  entries of the feature, when they all intersect that extent) and adds none, and it
  leaves the ledger as it was: the entry of the feature stays. So a ledger that maps
  every feature with an index entry still does so afterwards, but it also maps features
  that are no longer indexed.
\<close>

theorem removeFeature_keeps_ledger:
  "this_indexedFeaturesExtents (removeFeature this feat u) = this_indexedFeaturesExtents this
   \<and> set (items (this_rBush (removeFeature this feat u))) \<subseteq> set (items (this_rBush this))
   \<and> (\<forall>extent. this_indexedFeaturesExtents this (getUid feat) = Some extent \<longrightarrow>
        (\<forall>sd \<in> set (getInExtent (this_rBush (removeFeature this feat u)) extent). feature sd \<noteq> feat)
        \<and> (distinct (map (\<lambda>(e, v). ol_uid v) (items (this_rBush this))) \<longrightarrow>
             items (this_rBush (removeFeature this feat u)) =
               filter (\<lambda>(e, v). \<not> (intersects e extent \<and> feature v = feat)) (items (this_rBush this)))
        \<and> ((\<forall>(e, v) \<in> set (items (this_rBush this)). feature v = feat \<longrightarrow> intersects e extent) \<longrightarrow>
             (\<forall>(e, v) \<in> set (items (this_rBush (removeFeature this feat u))). feature v \<noteq> feat)))
   \<and> ((\<forall>(e, v) \<in> set (items (this_rBush this)).
          this_indexedFeaturesExtents this (getUid (feature v)) \<noteq> None)
        \<longrightarrow> (\<forall>(e, v) \<in> set (items (this_rBush (removeFeature this feat u))).
               this_indexedFeaturesExtents (removeFeature this feat u) (getUid (feature v)) \<noteq> None))"
proof (intro conjI allI impI)
  show "this_indexedFeaturesExtents (removeFeature this feat u) = this_indexedFeaturesExtents this"
    by (rule removeFeature_ledger)
  show "set (items (this_rBush (removeFeature this feat u))) \<subseteq> set (items (this_rBush this))"
    by (rule removeFeature_subset)
next
  fix extent
  assume l: "this_indexedFeaturesExtents this (getUid feat) = Some extent"
  then show "\<forall>sd \<in> set (getInExtent (this_rBush (removeFeature this feat u)) extent). feature sd \<noteq> feat"
    by (rule removeFeature_clears_extent)
  assume "distinct (map (\<lambda>(e, v). ol_uid v) (items (this_rBush this)))"
  from removeFeature_exact [OF this l]
  show "items (this_rBush (removeFeature this feat u)) =
          filter (\<lambda>(e, v). \<not> (intersects e extent \<and> feature v = feat)) (items (this_rBush this))" .
next
  fix extent
  assume "this_indexedFeaturesExtents this (getUid feat) = Some extent"
    and "\<forall>(e, v) \<in> set (items (this_rBush this)). feature v = feat \<longrightarrow> intersects e extent"
  then show "\<forall>(e, v) \<in> set (items (this_rBush (removeFeature this feat u))). feature v \<noteq> feat"
    by (rule removeFeature_all)
next
  assume "\<forall>(e, v) \<in> set (items (this_rBush this)).
            this_indexedFeaturesExtents this (getUid (feature v)) \<noteq> None"
  with removeFeature_subset [of this feat u]
  show "\<forall>(e, v) \<in> set (items (this_rBush (removeFeature this feat u))).
          this_indexedFeaturesExtents (removeFeature this feat u) (getUid (feature v)) \<noteq> None"
    unfolding removeFeature_ledger by blast
qed

text \<open>
  C8, as amended. For a feature without geometry, or whose geometry type has no segmenter,
  \<open>addFeature\<close> returns, adds no index entry and leaves the ledger unchanged: no slot is
  recorded. When the feature has no ledger entry, a later \<open>removeFeature\<close> leaves index
  and ledger unchanged.
\<close>

theorem unsegmented_feature_no_ledger_slot:
  assumes "getGeometry w feat = None
           \<or> (\<exists>g. getGeometry w feat = Some g \<and> \<not> hasSegmenter (getType g))"
  shows "\<exists>this1. addFeature w this feat l = Inr this1
           \<and> this_rBush this1 = this_rBush this
           \<and> this_indexedFeaturesExtents this1 = this_indexedFeaturesExtents this
           \<and> (this_indexedFeaturesExtents this (getUid feat) = None \<longrightarrow>
                this_rBush (removeFeature this1 feat u) = this_rBush this
                \<and> this_indexedFeaturesExtents (removeFeature this1 feat u)
                    = this_indexedFeaturesExtents this)"
  unfolding addFeature_unsegmented [OF assms]
  by (simp add: removeFeature_ledger removeFeature_rBush)

lemma lineScene_ledger:
  "this_indexedFeaturesExtents lineScene = [1 \<mapsto> Extent 0 0 10 0]"
  by (simp add: lineScene_def lineWorld_def scene_simps)

lemma cornerScene_ledger:
  "this_indexedFeaturesExtents cornerScene = [1 \<mapsto> Extent 9.9 1.5 9.9 1.5, 2 \<mapsto> Extent (-9.8) (-50) (-9.8) 50]"
  by (simp add: cornerScene_def cornerWorld_def scene_simps)

text \<open>
  The claim C2 as stated fails: after the indexed segment feature is removed the index is
  empty, and the ledger still maps the feature.
\<close>

theorem ledger_not_erased_counterexample:
  "this_indexedFeaturesExtents lineScene (getUid 1) = Some (Extent 0 0 10 0)
   \<and> items (this_rBush lineScene) =
       [(Extent 0 0 10 0, \<lparr>ol_uid = 1, feature = 1, segment = [(0, 0), (10, 0)]\<rparr>)]
   \<and> items (this_rBush (removeFeature lineScene 1 None)) = []
   \<and> this_indexedFeaturesExtents (removeFeature lineScene 1 None) (getUid 1) = Some (Extent 0 0 10 0)"
proof -
  have "items (this_rBush (removeFeature lineScene 1 None)) = []"
    by (simp add: removeFeature_def Let_def lineScene_ledger lineScene_rBush getUid_def
        forEachInExtent_def getInExtent_def rbush_remove_def)
  then show ?thesis
    by (simp add: removeFeature_ledger lineScene_ledger lineScene_rBush getUid_def)
qed

theorem removeFeature_keeps_ledger_witness:
  "this_indexedFeaturesExtents cornerScene (getUid 2) = Some (Extent (-9.8) (-50) (-9.8) 50)
   \<and> distinct (map (\<lambda>(e, v). ol_uid v) (items (this_rBush cornerScene)))
   \<and> this_indexedFeaturesExtents cornerScene (getUid 1) \<noteq> None
   \<and> items (this_rBush (removeFeature cornerScene 2 None)) =
        [(Extent 9.9 1.5 9.9 1.5, \<lparr>ol_uid = 1, feature = 1, segment = [(9.9, 1.5)]\<rparr>)]
   \<and> this_indexedFeaturesExtents (removeFeature cornerScene 2 None) = this_indexedFeaturesExtents cornerScene
   \<and> this_indexedFeaturesExtents (removeFeature cornerScene 2 None) (getUid 2) \<noteq> None"
proof -
  have l: "this_indexedFeaturesExtents cornerScene (getUid 2) = Some (Extent (-9.8) (-50) (-9.8) 50)"
    by (simp add: cornerScene_ledger getUid_def)
  have d: "distinct (map (\<lambda>(e, v). ol_uid v) (items (this_rBush cornerScene)))"
    by (simp add: cornerScene_rBush)
  have i: "\<forall>(e, v) \<in> set (items (this_rBush cornerScene)).
         this_indexedFeaturesExtents cornerScene (getUid (feature v)) \<noteq> None"
    by (simp add: cornerScene_rBush cornerScene_ledger getUid_def)
  from removeFeature_keeps_ledger [of cornerScene 2 None] l d
  have "items (this_rBush (removeFeature cornerScene 2 None)) =
      filter (\<lambda>(e, v). \<not> (intersects e (Extent (-9.8) (-50) (-9.8) 50) \<and> feature v = 2))
        (items (this_rBush cornerScene))"
    and "this_indexedFeaturesExtents (removeFeature cornerScene 2 None) = this_indexedFeaturesExtents cornerScene"
    by simp_all
  moreover from removeFeature_keeps_ledger [of cornerScene 2 None] i
  have "\<forall>(e, v) \<in> set (items (this_rBush (removeFeature cornerScene 2 None))).
      this_indexedFeaturesExtents (removeFeature cornerScene 2 None) (getUid (feature v)) \<noteq> None"
    by blast
  ultimately show ?thesis using l d by (simp add: cornerScene_rBush)
qed

lemma attachedSnap_eq:
  "attachedSnap = (Snap collectionOptions)\<lparr>this_map := Some unitMap,
      this_featuresListenerKeys := [EventsKey CollectionTarget ADD, EventsKey CollectionTarget REMOVE]\<rparr>"
  by (simp add: attachedSnap_def setMap_def getFeatures_def Snap_def collectionOptions_def
      defaultOptions_def listen_def state_of_def Let_def)

lemma multiLineScene_add:
  "addFeature multiLineWorld attachedSnap 1 None = Inr multiLineScene"
  by (simp add: multiLineScene_def multiLineWorld_def attachedSnap_eq collectionOptions_def
      segmentMultiLineStringGemetry_def scene_simps)

lemma multiLineScene_rBush:
  "this_rBush multiLineScene =
     \<lparr>items = [(Extent 0 0 10 0, \<lparr>ol_uid = 1, feature = 1, segment = [(0, 0), (10, 0)]\<rparr>),
               (Extent 20 20 30 20, \<lparr>ol_uid = 2, feature = 1, segment = [(20, 20), (30, 20)]\<rparr>),
               (Extent 30 20 30 30, \<lparr>ol_uid = 3, feature = 1, segment = [(30, 20), (30, 30)]\<rparr>)],
      uidCounter = 3\<rparr>"
  by (simp add: multiLineScene_def multiLineWorld_def attachedSnap_eq collectionOptions_def
      segmentMultiLineStringGemetry_def rbush_load_def scene_simps)

lemma multiLineScene_ledger:
  "this_indexedFeaturesExtents multiLineScene = [1 \<mapsto> Extent 0 0 30 30]"
  by (simp add: multiLineScene_def multiLineWorld_def attachedSnap_eq collectionOptions_def
      segmentMultiLineStringGemetry_def rbush_load_def scene_simps)

theorem add_then_remove_clears_extent_witness:
  "getGeometry multiLineWorld 1 = Some (MultiLineString [[(0, 0), (10, 0)], [(20, 20), (30, 20), (30, 30)]])
   \<and> hasSegmenter (getType (MultiLineString [[(0, 0), (10, 0)], [(20, 20), (30, 20), (30, 30)]]))
   \<and> this_map attachedSnap \<noteq> None
   \<and> addFeature multiLineWorld attachedSnap 1 None = Inr multiLineScene
   \<and> length (items (this_rBush multiLineScene)) = 3
   \<and> this_indexedFeaturesExtents multiLineScene (getUid 1) = Some (Extent 0 0 30 30)
   \<and> filter (\<lambda>sd. feature sd = 1)
        (getInExtent (this_rBush (removeFeature multiLineScene 1 None)) (Extent 0 0 30 30)) = []
   \<and> circlesOf (MultiLineString [[(0, 0), (10, 0)], [(20, 20), (30, 20), (30, 30)]]) = []
   \<and> items (this_rBush attachedSnap) = []
   \<and> filter (\<lambda>(e, v). feature v = 1) (items (this_rBush (removeFeature multiLineScene 1 None))) = []"
proof -
  let ?g = "MultiLineString [[(0, 0), (10, 0)], [(20, 20), (30, 20), (30, 30)]]"
  have g: "getGeometry multiLineWorld 1 = Some ?g"
    by (simp add: multiLineWorld_def sceneWorld_def)
  have h: "hasSegmenter (getType ?g)" by (simp add: hasSegmenter_def)
  have m: "this_map attachedSnap \<noteq> None" by (simp add: attachedSnap_eq)
  have e: "getExtent ?g = Extent 0 0 30 30" by (simp add: boundingExtent_def)
  have c: "circlesWithinExtent multiLineWorld (this_map attachedSnap) ?g"
    by (simp add: circlesWithinExtent_def)
  have i: "items (this_rBush attachedSnap) = []"
    by (simp add: attachedSnap_eq Snap_def rbush_new_def)
  note t = add_then_remove_clears_extent [OF g h, of attachedSnap None None]
  from t multiLineScene_add
  have 1: "this_indexedFeaturesExtents multiLineScene (getUid 1) = Some (Extent 0 0 30 30)"
    and 2: "\<forall>sd \<in> set (getInExtent (this_rBush (removeFeature multiLineScene 1 None)) (Extent 0 0 30 30)).
           feature sd \<noteq> 1"
    unfolding e by simp_all
  from t multiLineScene_add c i
  have 3: "\<forall>(e, v) \<in> set (items (this_rBush (removeFeature multiLineScene 1 None))). feature v \<noteq> 1"
    by simp
  from 2 have 4: "filter (\<lambda>sd. feature sd = 1)
        (getInExtent (this_rBush (removeFeature multiLineScene 1 None)) (Extent 0 0 30 30)) = []"
    by (simp add: filter_empty_conv)
  from 3 have 5: "filter (\<lambda>(e, v). feature v = 1)
      (items (this_rBush (removeFeature multiLineScene 1 None))) = []"
    by (auto simp: filter_empty_conv)
  have 6: "length (items (this_rBush multiLineScene)) = 3"
    by (simp add: multiLineScene_rBush)
  have 7: "circlesOf ?g = []" by simp
  show ?thesis
    by (intro conjI) (fact g h m multiLineScene_add 1 4 5 6 7 i)+
qed

text \<open>
  The claim C8 as stated fails: after \<open>addFeature\<close> of a feature without geometry, and of
  one whose geometry type has no segmenter, the ledger has no slot for the feature.
\<close>

theorem unsegmented_feature_counterexample:
  "getGeometry nullWorld 1 = None
   \<and> addFeature nullWorld (Snap defaultOptions) 1 None =
       Inr ((Snap defaultOptions)\<lparr>this_featureChangeListenerKeys := [1 \<mapsto> EventsKey (FeatureTarget 1) CHANGE]\<rparr>)
   \<and> this_indexedFeaturesExtents (state_of (addFeature nullWorld (Snap defaultOptions) 1 None)) (getUid 1) = None
   \<and> getGeometry otherWorld 1 = Some (Other (Extent 0 0 1 1))
   \<and> \<not> hasSegmenter (getType (Other (Extent 0 0 1 1)))
   \<and> this_indexedFeaturesExtents (state_of (addFeature otherWorld (Snap defaultOptions) 1 None)) (getUid 1) = None"
  by (simp add: nullWorld_def otherWorld_def sceneWorld_def addFeature_def Snap_def defaultOptions_def
      getUid_def hasSegmenter_def listen_def state_of_def Let_def)

theorem unsegmented_feature_no_ledger_slot_witness:
  "getGeometry cornerWorld 3 = None
   \<and> this_indexedFeaturesExtents cornerScene (getUid 3) = None
   \<and> this_rBush (state_of (addFeature cornerWorld cornerScene 3 None)) = this_rBush cornerScene
   \<and> this_indexedFeaturesExtents (state_of (addFeature cornerWorld cornerScene 3 None)) (getUid 3) = None
   \<and> this_rBush (removeFeature (state_of (addFeature cornerWorld cornerScene 3 None)) 3 None)
        = this_rBush cornerScene
   \<and> getGeometry otherWorld 1 = Some (Other (Extent 0 0 1 1))
   \<and> \<not> hasSegmenter (getType (Other (Extent 0 0 1 1)))
   \<and> items (this_rBush (state_of (addFeature otherWorld (Snap defaultOptions) 1 None))) = []"
proof -
  have g: "getGeometry cornerWorld 3 = None"
    by (simp add: cornerWorld_def sceneWorld_def)
  have l: "this_indexedFeaturesExtents cornerScene (getUid 3) = None"
    by (simp add: cornerScene_ledger getUid_def)
  have o: "getGeometry otherWorld 1 = Some (Other (Extent 0 0 1 1))"
      "\<not> hasSegmenter (getType (Other (Extent 0 0 1 1)))"
    by (simp_all add: otherWorld_def sceneWorld_def hasSegmenter_def)
  from unsegmented_feature_no_ledger_slot [of cornerWorld 3 cornerScene None None] g l
  have 1: "this_rBush (state_of (addFeature cornerWorld cornerScene 3 None)) = this_rBush cornerScene
     \<and> this_indexedFeaturesExtents (state_of (addFeature cornerWorld cornerScene 3 None)) (getUid 3) = None
     \<and> this_rBush (removeFeature (state_of (addFeature cornerWorld cornerScene 3 None)) 3 None)
        = this_rBush cornerScene"
    by (auto simp: state_of_def)
  from unsegmented_feature_no_ledger_slot [of otherWorld 1 "Snap defaultOptions" None None] o
  have 2: "items (this_rBush (state_of (addFeature otherWorld (Snap defaultOptions) 1 None))) = []"
    by (auto simp: state_of_def Snap_def rbush_new_def)
  from g l o 1 2 show ?thesis by simp
qed

section \<open>Attaching without a collection or source\<close>

lemma snapTo_empty_index:
  "items (this_rBush this) = [] \<Longrightarrow> snapTo w this pixel c m = Inr None"
  by (simp add: snapTo_def getInExtent_def Let_def)

text \<open>
  C9, as amended. With neither a feature collection nor a feature source configured the
  interaction indexes nothing by itself: \<open>getFeatures\<close> is undefined, attaching to a map
  leaves index and ledger unchanged, and a query on an empty index returns none, before
  and after the attach. But the attach does not complete: \<open>setMap\<close> with a map raises a
  TypeError, after the map has been recorded when none was attached; only detaching from
  no map returns normally. Once a map is recorded, every further \<open>setMap\<close>, the detach
  \<open>setMap(null)\<close> included, raises a TypeError after emptying the list of listener keys.
\<close>

theorem no_collaborator_indexes_nothing:
  assumes "this_features this = None" and "this_source this = None"
  shows "getFeatures this = None
       \<and> (\<exists>this'. setMap w this (Some m) = Inl (TypeError, this')
                    \<and> this_rBush this' = this_rBush this
                    \<and> this_indexedFeaturesExtents this' = this_indexedFeaturesExtents this)
       \<and> (this_map this = None \<longrightarrow>
             setMap w this (Some m) = Inl (TypeError, this\<lparr>this_map := Some m\<rparr>)
             \<and> setMap w this None = Inr this)
       \<and> (items (this_rBush this) = [] \<longrightarrow>
             snapTo w this pixel c m' = Inr None
             \<and> snapTo w (state_of (setMap w this (Some m))) pixel c m' = Inr None)
       \<and> (this_map this \<noteq> None \<longrightarrow>
             setMap w this newMap = Inl (TypeError, this\<lparr>this_featuresListenerKeys := []\<rparr>))"
proof -
  have f: "getFeatures this = None"
    using assms by (simp add: getFeatures_def)
  have s: "setMap w this (Some m) =
      (if this_map this = None then Inl (TypeError, this\<lparr>this_map := Some m\<rparr>)
       else Inl (TypeError, this\<lparr>this_featuresListenerKeys := []\<rparr>))"
    using f assms by (cases "this_map this") (simp_all add: setMap_def Let_def)
  have n: "this_map this = None \<Longrightarrow> setMap w this None = Inr this"
    using f by (simp add: setMap_def Let_def)
  have r: "this_rBush (state_of (setMap w this (Some m))) = this_rBush this"
    by (simp add: s state_of_def)
  have d: "this_map this \<noteq> None \<Longrightarrow>
      setMap w this newMap = Inl (TypeError, this\<lparr>this_featuresListenerKeys := []\<rparr>)"
    using f by (cases "this_map this") (simp_all add: setMap_def Let_def)
  have "getFeatures this = None
       \<and> (\<exists>this'. setMap w this (Some m) = Inl (TypeError, this')
                    \<and> this_rBush this' = this_rBush this
                    \<and> this_indexedFeaturesExtents this' = this_indexedFeaturesExtents this)
       \<and> (this_map this = None \<longrightarrow>
             setMap w this (Some m) = Inl (TypeError, this\<lparr>this_map := Some m\<rparr>)
             \<and> setMap w this None = Inr this)
       \<and> (items (this_rBush this) = [] \<longrightarrow>
             snapTo w this pixel c m' = Inr None
             \<and> snapTo w (state_of (setMap w this (Some m))) pixel c m' = Inr None)"
    using f n r by (auto simp: s snapTo_empty_index)
  with d show ?thesis by blast
qed

text \<open>
  The claim C9 as stated fails: attaching a fresh instance without collection and source
  to a map raises a TypeError.
\<close>

theorem attach_without_collaborator_counterexample:
  "this_features (Snap defaultOptions) = None \<and> this_source (Snap defaultOptions) = None
   \<and> setMap nullWorld (Snap defaultOptions) (Some unitMap) =
       Inl (TypeError, (Snap defaultOptions)\<lparr>this_map := Some unitMap\<rparr>)"
  by (simp add: setMap_def getFeatures_def Snap_def defaultOptions_def Let_def)

theorem no_collaborator_indexes_nothing_witness:
  "this_features (Snap edgeOnlyOptions) = None \<and> this_source (Snap edgeOnlyOptions) = None
   \<and> this_map (Snap edgeOnlyOptions) = None
   \<and> items (this_rBush (Snap edgeOnlyOptions)) = []
   \<and> setMap lineWorld (Snap edgeOnlyOptions) None = Inr (Snap edgeOnlyOptions)
   \<and> items (this_rBush (state_of (setMap lineWorld (Snap edgeOnlyOptions) (Some unitMap)))) = []
   \<and> snapTo lineWorld (Snap edgeOnlyOptions) (5, 0.2) (5, 0.2) unitMap = Inr None
   \<and> snapTo lineWorld (state_of (setMap lineWorld (Snap edgeOnlyOptions) (Some unitMap)))
        (5, 0.2) (5, 0.2) unitMap = Inr None
   \<and> this_features ((Snap edgeOnlyOptions)\<lparr>this_map := Some unitMap\<rparr>) = None
   \<and> this_source ((Snap edgeOnlyOptions)\<lparr>this_map := Some unitMap\<rparr>) = None
   \<and> this_map ((Snap edgeOnlyOptions)\<lparr>this_map := Some unitMap\<rparr>) \<noteq> None
   \<and> setMap lineWorld ((Snap edgeOnlyOptions)\<lparr>this_map := Some unitMap\<rparr>) None
        = Inl (TypeError, (Snap edgeOnlyOptions)\<lparr>this_map := Some unitMap,
                             this_featuresListenerKeys := []\<rparr>)"
proof -
  have a: "this_features (Snap edgeOnlyOptions) = None" "this_source (Snap edgeOnlyOptions) = None"
    "this_map (Snap edgeOnlyOptions) = None" "items (this_rBush (Snap edgeOnlyOptions)) = []"
    by (simp_all add: Snap_def edgeOnlyOptions_def defaultOptions_def rbush_new_def)
  have b: "this_features ((Snap edgeOnlyOptions)\<lparr>this_map := Some unitMap\<rparr>) = None"
    "this_source ((Snap edgeOnlyOptions)\<lparr>this_map := Some unitMap\<rparr>) = None"
    "this_map ((Snap edgeOnlyOptions)\<lparr>this_map := Some unitMap\<rparr>) \<noteq> None"
    using a by simp_all
  from no_collaborator_indexes_nothing [OF b(1,2), of lineWorld unitMap "(5, 0.2)" "(5, 0.2)"
      unitMap None] b(3)
  have 6: "setMap lineWorld ((Snap edgeOnlyOptions)\<lparr>this_map := Some unitMap\<rparr>) None
        = Inl (TypeError, (Snap edgeOnlyOptions)\<lparr>this_map := Some unitMap,
                             this_featuresListenerKeys := []\<rparr>)"
    by blast
  note t = no_collaborator_indexes_nothing [OF a(1,2), of lineWorld unitMap "(5, 0.2)" "(5, 0.2)" unitMap None]
  have 1: "setMap lineWorld (Snap edgeOnlyOptions) None = Inr (Snap edgeOnlyOptions)"
    using t a(3) by blast
  have 2: "setMap lineWorld (Snap edgeOnlyOptions) (Some unitMap)
          = Inl (TypeError, (Snap edgeOnlyOptions)\<lparr>this_map := Some unitMap\<rparr>)"
    using t a(3) by blast
  have 3: "snapTo lineWorld (Snap edgeOnlyOptions) (5, 0.2) (5, 0.2) unitMap = Inr None"
    using t a(4) by blast
  have 4: "snapTo lineWorld (state_of (setMap lineWorld (Snap edgeOnlyOptions) (Some unitMap)))
        (5, 0.2) (5, 0.2) unitMap = Inr None"
    using t a(4) by blast
  have 5: "items (this_rBush (state_of (setMap lineWorld (Snap edgeOnlyOptions) (Some unitMap)))) = []"
    unfolding 2 using a(4) by (simp add: state_of_def)
  show ?thesis
    by (intro conjI) (fact a 1 3 4 5 b 6)+
qed

section \<open>The deferred update queue\<close>

lemma sameGesture_refl [simp]: "sameGesture this this"
  by (simp add: sameGesture_def)

lemma sameGesture_trans: "sameGesture a b \<Longrightarrow> sameGesture b c \<Longrightarrow> sameGesture a c"
  by (simp add: sameGesture_def)

lemma removeFeature_sameGesture: "sameGesture this (removeFeature this feat u)"
  by (simp add: sameGesture_def removeFeature_def Let_def split: option.splits)

lemma removeFeature_map: "this_map (removeFeature this feat u) = this_map this"
  by (simp add: removeFeature_def Let_def split: option.splits)

lemma addFeature_sameGesture: "sameGesture this (state_of (addFeature w this feat l))"
  by (simp add: sameGesture_def addFeature_def state_of_def Let_def split: option.splits sum.splits)

lemma addFeature_map: "this_map (state_of (addFeature w this feat l)) = this_map this"
  by (simp add: addFeature_def state_of_def Let_def split: option.splits sum.splits)

lemma updateFeature_sameGesture: "sameGesture this (state_of (updateFeature w this feat))"
  unfolding updateFeature_def
  by (rule sameGesture_trans [OF removeFeature_sameGesture addFeature_sameGesture])

lemma updateFeature_map: "this_map (state_of (updateFeature w this feat)) = this_map this"
  by (simp add: updateFeature_def addFeature_map removeFeature_map)

lemma updateFeature_total:
  "this_map this \<noteq> None \<Longrightarrow> \<exists>this'. updateFeature w this feat = Inr this'"
  unfolding updateFeature_def by (rule addFeature_total) (simp add: removeFeature_map)

lemma forEach_sameGesture:
  assumes "\<And>this x. sameGesture this (state_of (f this x))"
  shows "sameGesture this (state_of (forEach f xs this))"
proof (induction xs arbitrary: this)
  case Nil
  show ?case by (simp add: state_of_def)
next
  case (Cons x xs)
  show ?case
  proof (cases "f this x")
    case (Inl es)
    with assms [of this x] show ?thesis by (simp add: state_of_def)
  next
    case (Inr this')
    with assms [of this x] have "sameGesture this this'" by (simp add: state_of_def)
    from sameGesture_trans [OF this Cons.IH [of this']] Inr show ?thesis by simp
  qed
qed

lemma forEach_updateFeature_total:
  "this_map this \<noteq> None \<Longrightarrow> \<exists>this'. forEach (updateFeature w) xs this = Inr this'"
proof (induction xs arbitrary: this)
  case Nil
  show ?case by simp
next
  case (Cons x xs)
  from updateFeature_total [OF Cons.prems] obtain this1 where
    u: "updateFeature w this x = Inr this1" by blast
  with updateFeature_map [of w this x] Cons.prems have "this_map this1 \<noteq> None"
    by (simp add: state_of_def)
  from Cons.IH [OF this] u show ?case by simp
qed

lemma setMap_sameGesture: "sameGesture this (state_of (setMap w this newMap))"
proof -
  have rm: "sameGesture t (state_of (forEach forEachFeatureRemove fs t))" for fs t
    by (rule forEach_sameGesture)
      (simp add: forEachFeatureRemove_def state_of_def removeFeature_sameGesture)
  have ad: "sameGesture t (state_of (forEach (forEachFeatureAdd w) fs t))" for fs t
    by (rule forEach_sameGesture) (simp add: forEachFeatureAdd_def addFeature_sameGesture)
  let ?this1 = "this\<lparr>this_featuresListenerKeys := []\<rparr>"
  have 1: "sameGesture this ?this1" by (simp add: sameGesture_def)
  have attach: "sameGesture this (state_of (setMap w this newMap))"
    if d: "(case this_map this of
              None \<Rightarrow> Inr this
            | Some cm \<Rightarrow> (case getFeatures this of
                  None \<Rightarrow> Inl (TypeError, ?this1)
                | Some fs \<Rightarrow> forEach forEachFeatureRemove fs ?this1)) = Inr this2"
      and 2: "sameGesture this this2" for this2
  proof (cases newMap)
    case None
    have "sameGesture this (this2\<lparr>this_map := None\<rparr>)"
      using 2 by (simp add: sameGesture_def)
    with None d show ?thesis unfolding setMap_def Let_def by (simp add: state_of_def)
  next
    case (Some m)
    have 4: "sameGesture this (this2\<lparr>this_map := Some m, this_featuresListenerKeys := k\<rparr>)" for k
      using 2 by (simp add: sameGesture_def)
    show ?thesis
    proof (cases "getFeatures this")
      case None
      with Some d 4 show ?thesis unfolding setMap_def Let_def by (simp add: state_of_def)
    next
      case fs: (Some fs)
      with Some d sameGesture_trans [OF 4 ad] show ?thesis unfolding setMap_def Let_def by simp
    qed
  qed
  show ?thesis
  proof (cases "this_map this")
    case None
    then show ?thesis by (intro attach [of this]) simp_all
  next
    case (Some cm)
    show ?thesis
    proof (cases "getFeatures this")
      case None
      with Some 1 show ?thesis unfolding setMap_def Let_def by (simp add: state_of_def)
    next
      case fs: (Some fs)
      show ?thesis
      proof (cases "forEach forEachFeatureRemove fs ?this1")
        case (Inl es)
        with sameGesture_trans [OF 1 rm [of ?this1 fs]] Some fs show ?thesis
          unfolding setMap_def Let_def by simp
      next
        case (Inr this2)
        with sameGesture_trans [OF 1 rm [of ?this1 fs]] have "sameGesture this this2"
          by (simp add: state_of_def)
        with Inr Some fs show ?thesis by (intro attach [of this2]) simp_all
      qed
    qed
  qed
qed

lemma distinct_keys_insort:
  "distinct (map fst (insort_key fst x xs)) = (fst x \<notin> fst ` set xs \<and> distinct (map fst xs))"
  by (induction xs) (auto simp: set_insort_key)

lemma count_list_insort_key:
  "count_list (map snd (insort_key fst x xs)) y = count_list (map snd (x # xs)) y"
  by (induction xs) auto

lemma count_list_distinct: "distinct ys \<Longrightarrow> y \<in> set ys \<Longrightarrow> count_list ys y = 1"
  by (induction ys) (auto simp: count_list_0_iff)

lemma pending_values:
  assumes "\<forall>(uid, feat) \<in> set xs. uid = getUid feat"
  shows "map snd xs = map fst xs"
  using assms by (induction xs) (auto simp: getUid_def)

lemma handleFeatureChange_gesture:
  assumes "handlingDownUpSequence this"
  shows "handleFeatureChange w this feat =
           Inr (if getUid feat \<in> fst ` set (this_pendingFeatures this) then this
                else this\<lparr>this_pendingFeatures :=
                       insort_key fst (getUid feat, feat) (this_pendingFeatures this)\<rparr>)"
  using assms by (simp add: handleFeatureChange_def Let_def)

lemma handleFeatureChange_pending:
  assumes "handlingDownUpSequence this" and "handleFeatureChange w this feat = Inr this'"
  shows "getUid feat \<in> fst ` set (this_pendingFeatures this')" and "handlingDownUpSequence this'"
  using assms by (auto simp: handleFeatureChange_gesture set_insort_key split: if_splits)

lemma handleFeatureChange_idem:
  assumes "handlingDownUpSequence this" and "handleFeatureChange w this feat = Inr this'"
  shows "handleFeatureChange w this' feat = Inr this'"
  using handleFeatureChange_pending [OF assms]
  by (simp add: handleFeatureChange_gesture)

lemma handleFeatureChange_repeat:
  assumes "handlingDownUpSequence this" and "handleFeatureChange w this feat = Inr this'"
  shows "forEach (handleFeatureChange w) (replicate (Suc n) feat) this = Inr this'"
proof -
  have "forEach (handleFeatureChange w) (replicate n feat) this' = Inr this'" for n
    by (induction n) (simp_all add: handleFeatureChange_idem [OF assms])
  with assms(2) show ?thesis by simp
qed

lemma handleFeatureChange_ok:
  assumes "pending_ok this" and "handlingDownUpSequence this"
    and "handleFeatureChange w this feat = Inr this'"
  shows "pending_ok this'" and "count_list (getValues (this_pendingFeatures this')) feat = 1"
proof -
  let ?p = "this_pendingFeatures this"
  from assms(1) have d: "distinct (map fst ?p)" and k: "\<forall>(uid, f) \<in> set ?p. uid = getUid f"
    by (simp_all add: pending_ok_def)
  show "pending_ok this'"
    using assms d k
    by (auto simp: handleFeatureChange_gesture pending_ok_def distinct_keys_insort set_insort_key
        split: if_splits)
  show "count_list (getValues (this_pendingFeatures this')) feat = 1"
  proof (cases "getUid feat \<in> fst ` set ?p")
    case True
    with assms(2,3) have same: "this' = this" by (simp add: handleFeatureChange_gesture)
    have v: "map snd ?p = map fst ?p" by (rule pending_values [OF k])
    from True have "feat \<in> set (map fst ?p)" by (simp add: getUid_def)
    from count_list_distinct [OF d this] show ?thesis
      unfolding same getValues_def v .
  next
    case False
    with assms(2,3) have p': "this_pendingFeatures this' = insort_key fst (getUid feat, feat) ?p"
      by (auto simp: handleFeatureChange_gesture)
    have v: "map snd ?p = map fst ?p" by (rule pending_values [OF k])
    from False have "feat \<notin> set (map fst ?p)" by (simp add: getUid_def)
    then have "count_list (map snd ?p) feat = 0"
      unfolding v by (simp add: count_list_0_iff)
    then show ?thesis
      unfolding getValues_def p' count_list_insort_key by simp
  qed
qed

lemma handleFeatureChange_sameGesture:
  "\<not> handlingDownUpSequence this \<Longrightarrow> sameGesture this (state_of (handleFeatureChange w this feat))"
  by (simp add: handleFeatureChange_def updateFeature_sameGesture)

lemma handleUpEvent_eq:
  "handleUpEvent w this =
     (case forEach (updateFeature w) (getValues (this_pendingFeatures this)) this of
        Inl es \<Rightarrow> Inl es
      | Inr this' \<Rightarrow> Inr (this'\<lparr>this_pendingFeatures := []\<rparr>))"
proof (cases "this_pendingFeatures this")
  case Nil
  then have "this\<lparr>this_pendingFeatures := []\<rparr> = this" by (cases this) simp
  with Nil show ?thesis by (simp add: handleUpEvent_def getValues_def)
next
  case (Cons a list)
  then show ?thesis by (simp add: handleUpEvent_def getValues_def Let_def)
qed

lemma sameGesture_ok: "sameGesture a b \<Longrightarrow> pending_ok a \<Longrightarrow> pending_ok b"
  by (simp add: sameGesture_def pending_ok_def)

lemma Snap_ok: "pending_ok (Snap opts)"
  by (simp add: pending_ok_def Snap_def)

lemma snapEvent_type: "snapEvent w this evt = Inr evt' \<Longrightarrow> evt_type evt' = evt_type evt"
  by (auto simp: snapEvent_def split: sum.splits option.splits)

lemma handleEvent_eq:
  "handleEvent w this evt =
     (case snapTo w this (evt_pixel evt) (evt_coordinate evt) (evt_map evt) of
        Inl e \<Rightarrow> Inl (e, this)
      | Inr res \<Rightarrow> pointerHandleEvent w this evt)"
proof (cases "snapTo w this (evt_pixel evt) (evt_coordinate evt) (evt_map evt)")
  case (Inl e)
  then show ?thesis by (simp add: handleEvent_def snapEvent_def)
next
  case (Inr res)
  then obtain evt' where e: "snapEvent w this evt = Inr evt'"
    by (cases res) (simp_all add: snapEvent_def)
  from snapEvent_type [OF e]
  have "pointerHandleEvent w this evt' = pointerHandleEvent w this evt"
    by (simp add: pointerHandleEvent_def)
  with e Inr show ?thesis by (simp add: handleEvent_def)
qed

lemma pointerHandleEvent_ok:
  assumes "pending_ok this"
  shows "pending_ok (state_of (pointerHandleEvent w this evt))"
proof (cases "handlingDownUpSequence this")
  case False
  with assms show ?thesis by (simp add: pointerHandleEvent_def state_of_def pending_ok_def)
next
  case True
  show ?thesis
  proof (cases "evt_type evt = POINTERUP")
    case False
    with True assms show ?thesis by (simp add: pointerHandleEvent_def state_of_def)
  next
    case up: True
    let ?flush = "forEach (updateFeature w) (getValues (this_pendingFeatures this)) this"
    have fr: "sameGesture this (state_of ?flush)"
      by (rule forEach_sameGesture) (rule updateFeature_sameGesture)
    show ?thesis
    proof (cases ?flush)
      case (Inl es)
      with fr have "sameGesture this (snd es)" by (cases es) (simp add: state_of_def)
      from sameGesture_ok [OF this assms] Inl True up show ?thesis
        by (cases es) (simp add: pointerHandleEvent_def handleUpEvent_eq state_of_def)
    next
      case (Inr this')
      with True up show ?thesis
        by (simp add: pointerHandleEvent_def handleUpEvent_eq state_of_def pending_ok_def)
    qed
  qed
qed

lemma handleEvent_ok:
  assumes "pending_ok this"
  shows "pending_ok (state_of (handleEvent w this evt))"
proof (cases "snapTo w this (evt_pixel evt) (evt_coordinate evt) (evt_map evt)")
  case (Inl e)
  with assms show ?thesis by (simp add: handleEvent_eq state_of_def)
next
  case (Inr res)
  with pointerHandleEvent_ok [OF assms] show ?thesis by (simp add: handleEvent_eq)
qed

lemma dispatch_ok:
  assumes "pending_ok this"
  shows "pending_ok (state_of (dispatch w this ev))"
proof (cases ev)
  case (Pointer evt)
  with handleEvent_ok [OF assms] show ?thesis by (simp add: dispatch_def)
next
  case (FeatureChange feat)
  show ?thesis
  proof (cases "handlingDownUpSequence this")
    case True
    with handleFeatureChange_ok(1) [OF assms True] FeatureChange show ?thesis
      by (simp add: dispatch_def handleFeatureChange_gesture state_of_def)
  next
    case False
    from sameGesture_ok [OF handleFeatureChange_sameGesture [OF False] assms] FeatureChange
    show ?thesis by (simp add: dispatch_def)
  qed
next
  case (FeatureAdd feat)
  with sameGesture_ok [OF addFeature_sameGesture assms] show ?thesis by (simp add: dispatch_def)
next
  case (FeatureRemove feat)
  with sameGesture_ok [OF removeFeature_sameGesture assms] show ?thesis
    by (simp add: dispatch_def state_of_def)
next
  case (Attach newMap)
  with sameGesture_ok [OF setMap_sameGesture assms] show ?thesis by (simp add: dispatch_def)
qed

lemma run_ok: "pending_ok this \<Longrightarrow> pending_ok (run history this)"
proof (induction history arbitrary: this)
  case Nil
  then show ?case by (simp add: run_def)
next
  case (Cons a history)
  obtain w ev where a: "a = (w, ev)" by (cases a)
  from Cons.IH [OF dispatch_ok [OF Cons.prems, of w ev]] a show ?case
    by (simp add: run_def)
qed

lemma pending_ok_distinct_values:
  "pending_ok this \<Longrightarrow> distinct (getValues (this_pendingFeatures this))"
proof -
  assume ok: "pending_ok this"
  then have v: "map snd (this_pendingFeatures this) = map fst (this_pendingFeatures this)"
    by (intro pending_values) (simp add: pending_ok_def)
  from ok have "distinct (map fst (this_pendingFeatures this))"
    by (simp add: pending_ok_def)
  then show ?thesis unfolding getValues_def v .
qed

text \<open>
  C7. After any history of events, starting from a freshly constructed instance, every
  pointer event entering through \<open>handleEvent\<close>, which runs the snap query first: the
  pending set is empty whenever no gesture is active, and it holds each pending feature
  once. While a gesture is active, one or more successive change notifications for the
  same feature return normally, leave the state that the first one leaves, and the
  feature has exactly one entry in the pending set. \<open>handleUpEvent\<close> calls
  \<open>updateFeature\<close> once for each value of the pending set, in turn, and then clears the
  pending set. A pointer-up event whose snap query returns, on an interaction attached to
  a map, returns with the pending set empty and the gesture over; a pointer event whose
  snap query raises an error raises that error before \<open>handleUpEvent\<close> is reached and
  leaves the state, the pending set included, as it was.
\<close>

theorem deferred_updates:
  assumes "this = run history (Snap opts)"
  shows "(\<not> handlingDownUpSequence this \<longrightarrow> this_pendingFeatures this = [])
       \<and> distinct (getValues (this_pendingFeatures this))
       \<and> (handlingDownUpSequence this \<longrightarrow>
            (\<exists>this'. handleFeatureChange w this feat = Inr this'
               \<and> forEach (handleFeatureChange w) (replicate (Suc n) feat) this = Inr this'
               \<and> count_list (getValues (this_pendingFeatures this')) feat = 1
               \<and> handlingDownUpSequence this'))
       \<and> handleUpEvent w this =
            (case forEach (updateFeature w) (getValues (this_pendingFeatures this)) this of
               Inl es \<Rightarrow> Inl es
             | Inr this' \<Rightarrow> Inr (this'\<lparr>this_pendingFeatures := []\<rparr>))
       \<and> (this_map this \<noteq> None \<and> evt_type evt = POINTERUP
            \<and> snapTo w this (evt_pixel evt) (evt_coordinate evt) (evt_map evt) = Inr res \<longrightarrow>
            (\<exists>this'. dispatch w this (Pointer evt) = Inr this'
               \<and> this_pendingFeatures this' = [] \<and> \<not> handlingDownUpSequence this'))
       \<and> (snapTo w this (evt_pixel evt) (evt_coordinate evt) (evt_map evt) = Inl e \<longrightarrow>
            dispatch w this (Pointer evt) = Inl (e, this))"
proof -
  have ok: "pending_ok this"
    unfolding assms by (rule run_ok [OF Snap_ok])
  have 1: "\<not> handlingDownUpSequence this \<longrightarrow> this_pendingFeatures this = []"
    using ok by (simp add: pending_ok_def)
  have 2: "distinct (getValues (this_pendingFeatures this))"
    by (rule pending_ok_distinct_values [OF ok])
  have 3: "\<exists>this'. handleFeatureChange w this feat = Inr this'
               \<and> forEach (handleFeatureChange w) (replicate (Suc n) feat) this = Inr this'
               \<and> count_list (getValues (this_pendingFeatures this')) feat = 1
               \<and> handlingDownUpSequence this'" if h: "handlingDownUpSequence this"
  proof -
    from handleFeatureChange_gesture [OF h] obtain this' where
      c: "handleFeatureChange w this feat = Inr this'" by blast
    from handleFeatureChange_repeat [OF h c] handleFeatureChange_ok(2) [OF ok h c]
      handleFeatureChange_pending(2) [OF h c] c
    show ?thesis by blast
  qed
  have 5: "\<exists>this'. dispatch w this (Pointer evt) = Inr this'
               \<and> this_pendingFeatures this' = [] \<and> \<not> handlingDownUpSequence this'"
    if m: "this_map this \<noteq> None" and up: "evt_type evt = POINTERUP"
      and sn: "snapTo w this (evt_pixel evt) (evt_coordinate evt) (evt_map evt) = Inr res"
  proof (cases "handlingDownUpSequence this")
    case False
    with 1 up sn show ?thesis by (simp add: dispatch_def handleEvent_eq pointerHandleEvent_def)
  next
    case True
    from forEach_updateFeature_total [OF m] obtain this1 where
      "forEach (updateFeature w) (getValues (this_pendingFeatures this)) this = Inr this1"
      by blast
    with True up sn show ?thesis
      by (simp add: dispatch_def handleEvent_eq pointerHandleEvent_def handleUpEvent_eq)
  qed
  have 6: "dispatch w this (Pointer evt) = Inl (e, this)"
    if "snapTo w this (evt_pixel evt) (evt_coordinate evt) (evt_map evt) = Inl e"
    using that by (simp add: dispatch_def handleEvent_eq)
  from 1 2 3 5 6 handleUpEvent_eq show ?thesis by blast
qed

lemma snapTo_gesture:
  "snapTo w (this\<lparr>handlingDownUpSequence := h, this_pendingFeatures := p\<rparr>) pixel c m
     = snapTo w this pixel c m"
  "snapTo w (this\<lparr>handlingDownUpSequence := h\<rparr>) pixel c m = snapTo w this pixel c m"
  by (simp_all add: snapTo_def Let_def cong: sum.case_cong option.case_cong if_cong)

lemma lineSceneAttached_fields:
  "this_vertex lineSceneAttached" "this_edge lineSceneAttached"
  "this_pixelTolerance lineSceneAttached = 10" "this_map lineSceneAttached = Some unitMap"
  "\<not> handlingDownUpSequence lineSceneAttached" "this_pendingFeatures lineSceneAttached = []"
  "this_rBush lineSceneAttached =
     \<lparr>items = [(Extent 0 0 10 0, \<lparr>ol_uid = 1, feature = 1, segment = [(0, 0), (10, 0)]\<rparr>)],
      uidCounter = 1\<rparr>"
  by (simp_all add: lineSceneAttached_def lineWorld_def attachedSnap_eq collectionOptions_def
      unitMap_def scene_simps)

lemma lineSceneAttached_far:
  "snapTo lineWorld lineSceneAttached (50, 50) (50, 50) unitMap = Inr None"
  by (simp add: snapTo_def lineSceneAttached_fields unitMap_def getInExtent_def boundingExtent_def)

lemma lineSceneAttached_segments:
  "snapSegments lineSceneAttached (5, 0) unitMap =
     [\<lparr>ol_uid = 1, feature = 1, segment = [(0, 0), (10, 0)]\<rparr>]"
  by (simp add: snapSegments_def lineSceneAttached_fields unitMap_def getInExtent_def
      boundingExtent_def)

lemma lineSceneAttached_near:
  "snapTo lineWorld lineSceneAttached (5, 0) (5, 0) unitMap
     = Inr (Some \<lparr>vertex = (0, 0), vertexPixel = (0, 0)\<rparr>)"
  unfolding snapTo_segments Let_def lineSceneAttached_segments
  by (simp add: lineSceneAttached_fields
      lineWorld_def sceneWorld_def unitMap_def fromUserCoordinate_def keepCloser_def
      lessThanMin_def squaredDistance_def getResult_Some_iff Math_round_def)

lemma lineSceneAttached_stale:
  "snapTo nullWorld lineSceneAttached (5, 0) (5, 0) unitMap = Inl TypeError"
  unfolding snapTo_segments Let_def lineSceneAttached_segments
  by (simp add: lineSceneAttached_fields nullWorld_def sceneWorld_def)

lemma gestureScene_eq:
  "gestureScene = lineSceneAttached\<lparr>handlingDownUpSequence := True, this_pendingFeatures := [(1, 1)]\<rparr>"
proof -
  have 1: "state_of (dispatch lineWorld (Snap collectionOptions) (Attach (Some unitMap))) = attachedSnap"
    unfolding attachedSnap_eq dispatch_def setMap_def Let_def
    by (simp add: getFeatures_def Snap_def collectionOptions_def defaultOptions_def listen_def state_of_def)
  have 2: "state_of (dispatch lineWorld attachedSnap (FeatureAdd 1)) = lineSceneAttached"
    by (simp add: dispatch_def lineSceneAttached_def)
  have 3: "state_of (dispatch lineWorld lineSceneAttached (Pointer downEvent)) =
      lineSceneAttached\<lparr>handlingDownUpSequence := True\<rparr>"
    using lineSceneAttached_far
    by (simp add: dispatch_def handleEvent_eq pointerHandleEvent_def downEvent_def state_of_def
        lineSceneAttached_fields)
  have 4: "state_of (dispatch lineWorld (lineSceneAttached\<lparr>handlingDownUpSequence := True\<rparr>)
        (FeatureChange 1)) =
      lineSceneAttached\<lparr>handlingDownUpSequence := True, this_pendingFeatures := [(1, 1)]\<rparr>"
    by (simp add: dispatch_def handleFeatureChange_def state_of_def getUid_def
        lineSceneAttached_fields Let_def)
  show ?thesis
    unfolding gestureScene_def gestureHistory_def run_def
    by (simp only: fold_simps prod.case 1 2 3 4)
qed

theorem deferred_updates_witness:
  "gestureScene = run gestureHistory (Snap collectionOptions)
   \<and> handlingDownUpSequence gestureScene
   \<and> this_map gestureScene \<noteq> None
   \<and> getValues (this_pendingFeatures gestureScene) = [1]
   \<and> forEach (handleFeatureChange lineWorld) (replicate (Suc 2) 1) gestureScene = Inr gestureScene
   \<and> count_list (getValues (this_pendingFeatures gestureScene)) 1 = 1
   \<and> evt_type upEventOnSegment = POINTERUP
   \<and> snapTo lineWorld gestureScene (evt_pixel upEventOnSegment) (evt_coordinate upEventOnSegment)
        (evt_map upEventOnSegment) = Inr (Some \<lparr>vertex = (0, 0), vertexPixel = (0, 0)\<rparr>)
   \<and> this_pendingFeatures (state_of (dispatch lineWorld gestureScene (Pointer upEventOnSegment))) = []
   \<and> \<not> handlingDownUpSequence (state_of (dispatch lineWorld gestureScene (Pointer upEventOnSegment)))
   \<and> snapTo nullWorld gestureScene (evt_pixel upEventOnSegment) (evt_coordinate upEventOnSegment)
        (evt_map upEventOnSegment) = Inl TypeError
   \<and> dispatch nullWorld gestureScene (Pointer upEventOnSegment) = Inl (TypeError, gestureScene)
   \<and> \<not> handlingDownUpSequence (run [] (Snap collectionOptions))
   \<and> this_pendingFeatures (run [] (Snap collectionOptions)) = []"
proof -
  note t = deferred_updates [OF gestureScene_def, of lineWorld 1 2 upEventOnSegment
      "Some \<lparr>vertex = (0, 0), vertexPixel = (0, 0)\<rparr>" TypeError]
  note tn = deferred_updates [OF gestureScene_def, of nullWorld 1 2 upEventOnSegment
      "Some \<lparr>vertex = (0, 0), vertexPixel = (0, 0)\<rparr>" TypeError]
  have h: "handlingDownUpSequence gestureScene" by (simp add: gestureScene_eq)
  have m: "this_map gestureScene \<noteq> None" by (simp add: gestureScene_eq lineSceneAttached_fields)
  have v: "getValues (this_pendingFeatures gestureScene) = [1]"
    by (simp add: gestureScene_eq getValues_def)
  have c: "handleFeatureChange lineWorld gestureScene 1 = Inr gestureScene"
    using h by (simp add: handleFeatureChange_gesture gestureScene_eq getUid_def)
  from t h c have r: "forEach (handleFeatureChange lineWorld) (replicate (Suc 2) 1) gestureScene = Inr gestureScene"
    and k: "count_list (getValues (this_pendingFeatures gestureScene)) 1 = 1"
    by auto
  have up: "evt_type upEventOnSegment = POINTERUP" by (simp add: upEventOnSegment_def)
  have sn: "snapTo lineWorld gestureScene (evt_pixel upEventOnSegment)
      (evt_coordinate upEventOnSegment) (evt_map upEventOnSegment)
      = Inr (Some \<lparr>vertex = (0, 0), vertexPixel = (0, 0)\<rparr>)"
    unfolding gestureScene_eq snapTo_gesture using lineSceneAttached_near
    by (simp add: upEventOnSegment_def)
  from t m up sn obtain this' where
    "dispatch lineWorld gestureScene (Pointer upEventOnSegment) = Inr this'"
    "this_pendingFeatures this' = []" "\<not> handlingDownUpSequence this'" by blast
  then have u: "this_pendingFeatures (state_of (dispatch lineWorld gestureScene (Pointer upEventOnSegment))) = []"
    "\<not> handlingDownUpSequence (state_of (dispatch lineWorld gestureScene (Pointer upEventOnSegment)))"
    by (simp_all add: state_of_def)
  have st: "snapTo nullWorld gestureScene (evt_pixel upEventOnSegment)
      (evt_coordinate upEventOnSegment) (evt_map upEventOnSegment) = Inl TypeError"
    unfolding gestureScene_eq snapTo_gesture using lineSceneAttached_stale
    by (simp add: upEventOnSegment_def)
  with tn have d: "dispatch nullWorld gestureScene (Pointer upEventOnSegment) = Inl (TypeError, gestureScene)"
    by blast
  have n: "\<not> handlingDownUpSequence (run [] (Snap collectionOptions))"
    by (simp add: run_def Snap_def)
  with deferred_updates [OF refl, of "[]" collectionOptions lineWorld 1 2 upEventOnSegment None TypeError]
  have e: "this_pendingFeatures (run [] (Snap collectionOptions)) = []" by blast
  show ?thesis
    by (intro conjI) (fact gestureScene_def h m v r k up sn u st d n e)+
qed

end
